(* ===== verification/Prelude.thy ===== *)
theory Prelude
  imports Main "HOL-Library.Sublist"
begin

text \<open>
  Shared vocabulary of the development: the fact collections the component theories
  feed, the error values of the scripts, and the string operations of JavaScript that
  the three scripts rely on (decimal rendering of numbers in template literals,
  \<^verbatim>\<open>String.prototype.split\<close> with a one-character separator, \<^verbatim>\<open>Array.prototype.pop\<close>,
  \<^verbatim>\<open>String.prototype.includes\<close>), each with the lemmas the components share.
\<close>

section \<open>Fact collections\<close>

named_theorems model_defs "unfoldings of operations whose bodies are case analyses"
named_theorems frame "fields that an operation leaves unchanged"
named_theorems inv_keep "one-step preservation facts of the invariants"

section \<open>Errors as values\<close>

text \<open>Every exception a script can raise or catch is a value of this type.\<close>

datatype js_error =
    TypeError          \<comment> \<open>property access on \<^verbatim>\<open>null\<close>/\<^verbatim>\<open>undefined\<close>, call of a non-function\<close>
  | SecurityError      \<comment> \<open>\<^verbatim>\<open>toDataURL\<close> on a canvas that is not origin-clean\<close>
  | NetworkError       \<comment> \<open>\<^verbatim>\<open>fetch\<close> rejects\<close>
  | ServerError nat    \<comment> \<open>\<^verbatim>\<open>new Error(`Server error: ${response.status}`)\<close>\<close>
  | SyntaxError        \<comment> \<open>\<^verbatim>\<open>response.json()\<close> rejects\<close>

type_synonym 'a result = "js_error + 'a"

abbreviation ok :: "'a \<Rightarrow> 'a result" where "ok \<equiv> Inr"
abbreviation throw :: "js_error \<Rightarrow> 'a result" where "throw \<equiv> Inl"

section \<open>Generic list facts\<close>

lemma find_Some_mem: "List.find P xs = Some x \<Longrightarrow> x \<in> set xs \<and> P x"
  by (induction xs) (auto split: if_splits)

lemma find_None_conv: "List.find P xs = None \<longleftrightarrow> (\<forall>x\<in>set xs. \<not> P x)"
  by (induction xs) auto

lemma find_append:
  "List.find P (xs @ ys) = (case List.find P xs of Some x \<Rightarrow> Some x | None \<Rightarrow> List.find P ys)"
  by (induction xs) auto

lemma filter_id_conv: "filter P xs = xs \<longleftrightarrow> (\<forall>x\<in>set xs. P x)"
  by (induction xs) (auto dest: filter_eq_ConsD)

lemma distinct_map_filter_keep: "distinct (map f xs) \<Longrightarrow> distinct (map f (filter P xs))"
  by (induction xs) auto

lemma map_update_same_key:
  "i < length xs \<Longrightarrow> f y = f (xs ! i) \<Longrightarrow> map f (xs[i := y]) = map f xs"
  by (simp add: map_update list_update_same_conv)

lemma set_map_filter: "set (List.map_filter f xs) = {y. \<exists>x\<in>set xs. f x = Some y}"
  by (induction xs) (auto split: option.splits)

lemma map_filter_append [simp]:
  "List.map_filter f (xs @ ys) = List.map_filter f xs @ List.map_filter f ys"
  by (induction xs) (auto split: option.splits)

lemma length_map_filter_le: "length (List.map_filter f xs) \<le> length xs"
  by (induction xs) (auto split: option.splits)

lemma upt_shift: "[r..<r + Suc n] = r # [Suc r..<Suc r + n]"
  by (simp add: upt_rec)

section \<open>Decimal rendering\<close>

text \<open>
  A template literal renders a non-negative integer below \<open>10\<^sup>2\<^sup>1\<close> in plain decimal,
  most significant digit first, with no leading zero.
\<close>

definition digit_char :: "nat \<Rightarrow> char" where
  "digit_char d = ''0123456789'' ! d"

definition is_digit :: "char \<Rightarrow> bool" where
  "is_digit c \<longleftrightarrow> c \<in> set ''0123456789''"

definition digit_val :: "char \<Rightarrow> nat" where
  "digit_val c = length (takeWhile (\<lambda>d. d \<noteq> c) ''0123456789'')"

fun show_nat :: "nat \<Rightarrow> string" where
  "show_nat n = (if n < 10 then [digit_char n] else show_nat (n div 10) @ [digit_char (n mod 10)])"

declare show_nat.simps [simp del]

definition show_int :: "int \<Rightarrow> string" where
  "show_int i = (if i < 0 then CHR ''-'' # show_nat (nat (- i)) else show_nat (nat i))"

text \<open>Reading a digit string back, most significant digit first.\<close>

definition read_nat :: "string \<Rightarrow> nat option" where
  "read_nat s = (if s \<noteq> [] \<and> list_all is_digit s
                 then Some (foldl (\<lambda>acc c. 10 * acc + digit_val c) 0 s) else None)"

lemma digit_val_digit_char [simp]: "d < 10 \<Longrightarrow> digit_val (digit_char d) = d"
proof -
  assume "d < 10"
  then have "d \<in> {0,1,2,3,4,5,6,7,8,9}" by auto
  then show ?thesis by (auto simp: digit_val_def digit_char_def)
qed

lemma is_digit_digit_char [simp]: "d < 10 \<Longrightarrow> is_digit (digit_char d)"
proof -
  assume "d < 10"
  then have "d \<in> {0,1,2,3,4,5,6,7,8,9}" by auto
  then show ?thesis by (auto simp: is_digit_def digit_char_def)
qed

lemma show_nat_nonempty [simp]: "show_nat n \<noteq> []"
  by (subst show_nat.simps) simp

lemma show_nat_digits: "list_all is_digit (show_nat n)"
proof (induction n rule: show_nat.induct)
  case (1 n)
  then show ?case by (subst show_nat.simps) simp
qed

lemma is_digit_not_dash: "is_digit c \<Longrightarrow> c \<noteq> CHR ''-''"
  by (auto simp: is_digit_def)

lemma show_nat_no_dash [simp]: "CHR ''-'' \<notin> set (show_nat n)"
  using show_nat_digits [of n] by (auto simp: list_all_iff dest: is_digit_not_dash)

lemma foldl_show_nat:
  "foldl (\<lambda>acc c. 10 * acc + digit_val c) 0 (show_nat n) = n"
proof (induction n rule: show_nat.induct)
  case (1 n)
  show ?case
  proof (cases "n < 10")
    case True
    then show ?thesis by (subst show_nat.simps) simp
  next
    case False
    with "1.IH" show ?thesis by (subst show_nat.simps) simp
  qed
qed

lemma read_show_nat [simp]: "read_nat (show_nat n) = Some n"
  by (simp add: read_nat_def show_nat_digits foldl_show_nat)

lemma show_nat_inj [simp]: "show_nat m = show_nat n \<longleftrightarrow> m = n"
  by (metis option.inject read_show_nat)

section \<open>Splitting at a separator\<close>

text \<open>
  \<^verbatim>\<open>s.split(c)\<close> for a one-character separator: the maximal pieces of \<open>s\<close> between
  occurrences of \<open>c\<close>, never the empty array (\<^verbatim>\<open>"".split("-")\<close> is \<^verbatim>\<open>[""]\<close>).
\<close>

primrec split_on :: "char \<Rightarrow> string \<Rightarrow> string list" where
  "split_on c [] = [[]]"
| "split_on c (x # xs) =
     (let r = split_on c xs in if x = c then [] # r else (x # hd r) # tl r)"

text \<open>\<^verbatim>\<open>parts.join(c)\<close>, the inverse direction.\<close>

fun join_with :: "char \<Rightarrow> string list \<Rightarrow> string" where
  "join_with c [] = []"
| "join_with c [p] = p"
| "join_with c (p # q # ps) = p @ c # join_with c (q # ps)"

lemma split_on_nonempty [simp]: "split_on c s \<noteq> []"
  by (induction s) (auto simp: Let_def)

lemma split_on_no_sep: "c \<notin> set s \<Longrightarrow> split_on c s = [s]"
  by (induction s) (auto simp: Let_def)

lemma split_on_append_sep:
  "c \<notin> set a \<Longrightarrow> split_on c (a @ c # b) = a # split_on c b"
  by (induction a) (auto simp: Let_def)

lemma split_on_pieces: "p \<in> set (split_on c s) \<Longrightarrow> c \<notin> set p"
proof (induction s arbitrary: p)
  case Nil
  then show ?case by simp
next
  case (Cons x xs)
  obtain y ys where r: "split_on c xs = y # ys"
    by (cases "split_on c xs") auto
  with Cons show ?case by (auto simp: Let_def split: if_splits)
qed

lemma join_split_on [simp]: "join_with c (split_on c s) = s"
proof (induction s)
  case Nil
  then show ?case by simp
next
  case (Cons x xs)
  obtain y ys where r: "split_on c xs = y # ys"
    by (cases "split_on c xs") auto
  with Cons show ?case by (cases ys) (auto simp: Let_def)
qed

lemma last_split_on_append_sep:
  "last (split_on c (a @ c # b)) = last (split_on c b)"
proof (induction a)
  case Nil
  then show ?case by (simp add: Let_def)
next
  case (Cons x a)
  obtain y ys where r: "split_on c (a @ c # b) = y # ys"
    by (cases "split_on c (a @ c # b)") auto
  have "ys \<noteq> []"
  proof
    assume "ys = []"
    with r have "join_with c (split_on c (a @ c # b)) = y" by simp
    then have "a @ c # b = y" by simp
    moreover have "c \<notin> set y" using r split_on_pieces [of y c "a @ c # b"] by simp
    ultimately show False by auto
  qed
  with Cons r show ?case by (auto simp: Let_def)
qed

section \<open>Substring test\<close>

text \<open>\<^verbatim>\<open>s.includes(t)\<close>: \<open>t\<close> occurs in \<open>s\<close> as a contiguous block.\<close>

definition includes_str :: "string \<Rightarrow> string \<Rightarrow> bool" where
  "includes_str s t \<longleftrightarrow> sublist t s"

lemma includes_str_append: "includes_str (a @ t @ b) t"
  by (auto simp: includes_str_def sublist_def)

end
