(* ===== verification/Dom.thy ===== *)
theory Dom
  imports Prelude
begin

text \<open>
  The part of the host page the content script reads and writes: the \<^verbatim>\<open>video\<close>
  elements in document order, the overlay elements the script creates, the children of
  \<^verbatim>\<open>document.body\<close> that are overlays, and the scroll offset of the window. Elements
  are objects with identity: a video carries the address of its node, and overlay
  elements live in a store indexed by address, so that a callback can hold on to an
  element that has been removed from the page.
\<close>

section \<open>Elements\<close>

record rect =
  rect_left :: int
  rect_top :: int
  rect_width :: int
  rect_height :: int

record video =
  node :: nat                    \<comment> \<open>identity of the element\<close>
  readyState :: nat
  offsetHeight :: nat
  offsetWidth :: nat
  videoWidth :: nat
  videoHeight :: nat
  monitorId :: "string option"   \<comment> \<open>\<^verbatim>\<open>dataset.monitorId\<close>, \<open>None\<close> when the attribute is absent\<close>
  bounds :: rect                 \<comment> \<open>\<^verbatim>\<open>getBoundingClientRect()\<close>\<close>
  origin_clean :: bool           \<comment> \<open>whether drawing it leaves a canvas readable\<close>

record style =
  css_left :: int
  css_top :: int
  css_width :: int
  css_height :: int
  css_border :: string           \<comment> \<open>the colour of the 5px border\<close>

record overlay =
  elem_id :: string
  className :: string
  cssText :: "style option"      \<comment> \<open>\<open>None\<close> until the first paint\<close>
  label :: "string option"       \<comment> \<open>\<^verbatim>\<open>innerHTML\<close> of the \<^verbatim>\<open>.monitor-label\<close> child, once created\<close>

record document =
  videos :: "video list"
  nodes :: "overlay list"        \<comment> \<open>every overlay element created so far, by address\<close>
  attached :: "nat list"         \<comment> \<open>the overlay children of \<^verbatim>\<open>document.body\<close>, in order\<close>
  scrollX :: int
  scrollY :: int

section \<open>Queries\<close>

definition node_at :: "'a document_scheme \<Rightarrow> nat \<Rightarrow> overlay option" where
  "node_at d a = (if a < length (nodes d) then Some (nodes d ! a) else None)"

text \<open>\<^verbatim>\<open>document.querySelector(`[data-monitor-id="${videoId}"]`)\<close>: the first match in document order.\<close>

definition query_monitor_id :: "string \<Rightarrow> 'a document_scheme \<Rightarrow> video option" where
  "query_monitor_id vid d = List.find (\<lambda>v. monitorId v = Some vid) (videos d)"

text \<open>\<^verbatim>\<open>document.getElementById(id)\<close> among the attached overlays.\<close>

definition getElementById :: "string \<Rightarrow> 'a document_scheme \<Rightarrow> nat option" where
  "getElementById i d =
     List.find (\<lambda>a. case node_at d a of Some n \<Rightarrow> elem_id n = i | None \<Rightarrow> False) (attached d)"

text \<open>The overlays on the page, in order.\<close>

definition shown :: "'a document_scheme \<Rightarrow> overlay list" where
  "shown d = List.map_filter (node_at d) (attached d)"

section \<open>Updates\<close>

text \<open>
  \<^verbatim>\<open>createElement('div')\<close>, the two assignments to \<^verbatim>\<open>className\<close> and \<^verbatim>\<open>id\<close>, and
  \<^verbatim>\<open>document.body.appendChild\<close>: a fresh element at the next address, attached last.
\<close>

definition create_overlay :: "string \<Rightarrow> 'a document_scheme \<Rightarrow> nat \<times> 'a document_scheme" where
  "create_overlay i d =
     (length (nodes d),
      d\<lparr>nodes := nodes d @ [\<lparr>elem_id = i, className = ''monitor-overlay'', cssText = None, label = None\<rparr>],
        attached := attached d @ [length (nodes d)]\<rparr>)"

text \<open>
  \<^verbatim>\<open>let overlay = document.getElementById(...); if (!overlay) { ... }\<close>: the element
  with this id, made now if the page has none.
\<close>

definition ensure_overlay :: "string \<Rightarrow> 'a document_scheme \<Rightarrow> nat \<times> 'a document_scheme" where
  "ensure_overlay i d = (case getElementById i d of Some a \<Rightarrow> (a, d) | None \<Rightarrow> create_overlay i d)"

text \<open>\<^verbatim>\<open>document.querySelectorAll('.monitor-overlay').forEach(el => el.remove())\<close>.\<close>

definition remove_overlays :: "'a document_scheme \<Rightarrow> 'a document_scheme" where
  "remove_overlays d =
     d\<lparr>attached := filter (\<lambda>a. case node_at d a of Some n \<Rightarrow> className n \<noteq> ''monitor-overlay''
                                   | None \<Rightarrow> True) (attached d)\<rparr>"

section \<open>Well-formed documents\<close>

text \<open>
  A node occurs once in the tree, every attached address is allocated, and every
  element of the store was made by \<open>create_overlay\<close>.
\<close>

definition wf_document :: "'a document_scheme \<Rightarrow> bool" where
  "wf_document d \<longleftrightarrow>
     distinct (map node (videos d)) \<and> distinct (attached d) \<and>
     list_all (\<lambda>a. a < length (nodes d)) (attached d) \<and>
     list_all (\<lambda>n. className n = ''monitor-overlay'') (nodes d)"

text \<open>The queries read only the fields they name; updates of other fields pass through.\<close>

lemma node_at_eq: "nodes d' = nodes d \<Longrightarrow> node_at d' = node_at d"
  by (simp add: node_at_def fun_eq_iff)

lemma shown_eq: "nodes d' = nodes d \<Longrightarrow> attached d' = attached d \<Longrightarrow> shown d' = shown d"
  by (simp add: shown_def node_at_eq [of d' d])

lemma getElementById_eq:
  "nodes d' = nodes d \<Longrightarrow> attached d' = attached d \<Longrightarrow> getElementById i d' = getElementById i d"
  by (simp add: getElementById_def node_at_eq [of d' d])

lemma query_monitor_id_eq: "videos d' = videos d \<Longrightarrow> query_monitor_id vid d' = query_monitor_id vid d"
  by (simp add: query_monitor_id_def)

lemma wf_document_eq:
  "videos d' = videos d \<Longrightarrow> nodes d' = nodes d \<Longrightarrow> attached d' = attached d \<Longrightarrow>
   wf_document d' = wf_document d"
  by (simp add: wf_document_def)

text \<open>To be applied with \<open>rule\<close>: as rewrite rules they would not terminate.\<close>

lemmas document_eqs = node_at_eq shown_eq getElementById_eq query_monitor_id_eq wf_document_eq

lemma node_at_Some_iff: "node_at d a = Some n \<longleftrightarrow> a < length (nodes d) \<and> nodes d ! a = n"
  by (auto simp: node_at_def)

lemma node_at_append [simp]:
  "node_at (d\<lparr>nodes := nodes d @ ns\<rparr>) a = (if a < length (nodes d) then node_at d a
     else if a < length (nodes d) + length ns then Some (ns ! (a - length (nodes d))) else None)"
  by (auto simp: node_at_def nth_append)

lemma node_at_frame [simp, frame]:
  "node_at (d\<lparr>attached := x\<rparr>) = node_at d"
  "node_at (d\<lparr>videos := vs\<rparr>) = node_at d"
  "node_at (d\<lparr>scrollX := sx\<rparr>) = node_at d"
  "node_at (d\<lparr>scrollY := sy\<rparr>) = node_at d"
  by (simp_all add: node_at_def fun_eq_iff)

lemma wf_attached_node: "wf_document d \<Longrightarrow> a \<in> set (attached d) \<Longrightarrow> \<exists>n. node_at d a = Some n \<and> className n = ''monitor-overlay''"
  by (auto simp: wf_document_def list_all_iff node_at_def)

lemma remove_overlays_attached [simp]: "wf_document d \<Longrightarrow> attached (remove_overlays d) = []"
  by (auto simp: remove_overlays_def filter_empty_conv dest: wf_attached_node)

lemma remove_overlays_frame [simp, frame]:
  "videos (remove_overlays d) = videos d"
  "nodes (remove_overlays d) = nodes d"
  "scrollX (remove_overlays d) = scrollX d"
  "scrollY (remove_overlays d) = scrollY d"
  by (simp_all add: remove_overlays_def)

lemma remove_overlays_more [simp, frame]: "document.more (remove_overlays d) = document.more d"
  by (simp add: remove_overlays_def)

lemma wf_remove_overlays [inv_keep]: "wf_document d \<Longrightarrow> wf_document (remove_overlays d)"
  by (auto simp: wf_document_def remove_overlays_def list_all_iff)

lemma create_overlay_frame [simp, frame]:
  "videos (snd (create_overlay i d)) = videos d"
  "scrollX (snd (create_overlay i d)) = scrollX d"
  "scrollY (snd (create_overlay i d)) = scrollY d"
  by (simp_all add: create_overlay_def)

lemma wf_create_overlay [inv_keep]: "wf_document d \<Longrightarrow> wf_document (snd (create_overlay i d))"
  by (auto simp: wf_document_def create_overlay_def list_all_iff)

lemma getElementById_Some:
  "getElementById i d = Some a \<Longrightarrow> a \<in> set (attached d) \<and> (\<exists>n. node_at d a = Some n \<and> elem_id n = i)"
  by (auto simp: getElementById_def dest!: find_Some_mem split: option.splits)

lemma getElementById_None:
  "getElementById i d = None \<longleftrightarrow> (\<forall>n\<in>set (shown d). elem_id n \<noteq> i)"
  by (auto simp: getElementById_def find_None_conv shown_def set_map_filter split: option.splits)

lemma getElementById_created [simp]:
  "wf_document d \<Longrightarrow> getElementById i d = None \<Longrightarrow>
   getElementById i (snd (create_overlay i d)) = Some (length (nodes d))"
  by (auto simp: getElementById_def create_overlay_def find_append find_None_conv wf_document_def
      list_all_iff node_at_def nth_append split: option.splits dest!: find_Some_mem)

lemma shown_cong:
  assumes "attached d' = attached d" and "map f (nodes d') = map f (nodes d)"
  shows "map f (shown d') = map f (shown d)"
proof -
  have len: "length (nodes d') = length (nodes d)"
    using assms(2) by (rule map_eq_imp_length_eq)
  have nth: "f (nodes d' ! a) = f (nodes d ! a)" if "a < length (nodes d)" for a
    using that assms(2) len by (metis nth_map)
  have "map f (List.map_filter (node_at d') xs) = map f (List.map_filter (node_at d) xs)" for xs
    by (induction xs) (auto simp: node_at_def len nth)
  then show ?thesis by (simp add: shown_def assms(1))
qed

lemma shown_create_overlay:
  "wf_document d \<Longrightarrow>
   shown (snd (create_overlay i d)) =
     shown d @ [\<lparr>elem_id = i, className = ''monitor-overlay'', cssText = None, label = None\<rparr>]"
proof -
  assume wf: "wf_document d"
  have "List.map_filter (node_at (d\<lparr>nodes := nodes d @ [n]\<rparr>)) xs = List.map_filter (node_at d) xs"
    if "\<forall>a\<in>set xs. a < length (nodes d)" for xs n
    using that by (induction xs) (auto split: option.splits)
  with wf show ?thesis
    by (simp add: shown_def create_overlay_def wf_document_def list_all_iff node_at_def)
qed

lemma fst_create_overlay [simp]: "fst (create_overlay i d) = length (nodes d)"
  by (simp add: create_overlay_def)

lemma nodes_create_overlay [simp]:
  "nodes (snd (create_overlay i d)) =
     nodes d @ [\<lparr>elem_id = i, className = ''monitor-overlay'', cssText = None, label = None\<rparr>]"
  by (simp add: create_overlay_def)

lemma attached_create_overlay [simp]:
  "attached (snd (create_overlay i d)) = attached d @ [length (nodes d)]"
  by (simp add: create_overlay_def)

lemma ensure_overlay_frame [simp, frame]:
  "videos (snd (ensure_overlay i d)) = videos d"
  "scrollX (snd (ensure_overlay i d)) = scrollX d"
  "scrollY (snd (ensure_overlay i d)) = scrollY d"
  "document.more (snd (ensure_overlay i d)) = document.more d"
  by (simp_all add: ensure_overlay_def create_overlay_def split: option.splits)

lemma wf_ensure_overlay [inv_keep]: "wf_document d \<Longrightarrow> wf_document (snd (ensure_overlay i d))"
  by (simp add: ensure_overlay_def wf_create_overlay split: option.splits)

lemma ensure_overlay_existing:
  "getElementById i d = Some a \<Longrightarrow> ensure_overlay i d = (a, d)"
  by (simp add: ensure_overlay_def)

lemma ensure_overlay_fresh:
  "getElementById i d = None \<Longrightarrow> ensure_overlay i d = create_overlay i d"
  by (simp add: ensure_overlay_def)

lemma ensure_overlay_allocated:
  "wf_document d \<Longrightarrow> fst (ensure_overlay i d) < length (nodes (snd (ensure_overlay i d)))"
  by (auto simp: ensure_overlay_def node_at_Some_iff split: option.splits dest!: getElementById_Some)

lemma ensure_overlay_nodes_grow: "length (nodes d) \<le> length (nodes (snd (ensure_overlay i d)))"
  by (simp add: ensure_overlay_def split: option.splits)

lemma getElementById_mem: "getElementById i d = Some a \<Longrightarrow> i \<in> elem_id ` set (shown d)"
  by (force dest!: getElementById_Some simp: shown_def set_map_filter)

lemma shown_ids_ensure_overlay:
  assumes "wf_document d"
  shows "map elem_id (shown (snd (ensure_overlay i d))) =
     (if i \<in> elem_id ` set (shown d) then map elem_id (shown d) else map elem_id (shown d) @ [i])"
proof (cases "getElementById i d")
  case None
  then have "i \<notin> elem_id ` set (shown d)" by (auto simp: getElementById_None)
  with None assms show ?thesis by (simp add: ensure_overlay_fresh shown_create_overlay)
next
  case (Some a)
  then show ?thesis by (simp add: ensure_overlay_existing getElementById_mem)
qed

lemma ensure_overlay_found:
  assumes "wf_document d"
  shows "getElementById i (snd (ensure_overlay i d)) = Some (fst (ensure_overlay i d))"
proof (cases "getElementById i d")
  case None
  with assms show ?thesis by (simp add: ensure_overlay_fresh)
next
  case (Some a)
  then show ?thesis by (simp add: ensure_overlay_existing)
qed

section \<open>Removal of the overlays\<close>

lemma shown_remove_overlays [simp]: "wf_document d \<Longrightarrow> shown (remove_overlays d) = []"
  by (simp add: shown_def)

end
