(* ===== verification/Identity.thy ===== *)
theory Identity
  imports Dom
begin

text \<open>
  Surface discovery: which videos a cycle samples, and the identity it stamps on a video
  the first time it samples it (\<^verbatim>\<open>runAnalysisCycle\<close>, the guard and the first four lines
  of the loop body; \<^verbatim>\<open>startAnalysis\<close>, the filter). The lemmas show that stamping is a
  pure read on a video that has an identity, that discovery is idempotent, and that
  identities stay pairwise different as long as the clock has moved on since the
  identities already on the page were minted.
\<close>

section \<open>Eligibility\<close>

text \<open>The guard of the loop body: decoded, and more than 100 pixels high and wide.\<close>

definition eligible :: "video \<Rightarrow> bool" where
  "eligible v \<longleftrightarrow> readyState v \<ge> 4 \<and> offsetHeight v > 100 \<and> offsetWidth v > 100"

text \<open>The filter of \<^verbatim>\<open>startAnalysis\<close>, which does not look at the width.\<close>

definition visibleVideos :: "video list \<Rightarrow> video list" where
  "visibleVideos vs = filter (\<lambda>v. readyState v \<ge> 4 \<and> offsetHeight v > 100) vs"

section \<open>Minting\<close>

text \<open>\<^verbatim>\<open>`participant-${Date.now()}-${index}`\<close>\<close>

definition mint_id :: "nat \<Rightarrow> nat \<Rightarrow> string" where
  "mint_id now index = ''participant-'' @ show_nat now @ ''-'' @ show_nat index"

text \<open>\<^verbatim>\<open>!videoId\<close>: the attribute is absent or the empty string.\<close>

definition needs_id :: "video \<Rightarrow> bool" where
  "needs_id v \<longleftrightarrow> (case monitorId v of None \<Rightarrow> True | Some s \<Rightarrow> s = [])"

definition ensure_id :: "nat \<Rightarrow> nat \<Rightarrow> video \<Rightarrow> video" where
  "ensure_id now index v = (if needs_id v then v\<lparr>monitorId := Some (mint_id now index)\<rparr> else v)"

text \<open>The identity the loop body passes on: \<^verbatim>\<open>videoId\<close> after the \<^verbatim>\<open>if\<close>.\<close>

definition id_of :: "nat \<Rightarrow> nat \<Rightarrow> video \<Rightarrow> string" where
  "id_of now index v = (if needs_id v then mint_id now index else the (monitorId v))"

text \<open>
  The effect of one pass of the loop on the videos: \<^verbatim>\<open>forEach((videoEl, index) => ...)\<close>
  stamps the eligible ones, with the position in the list as the index.
\<close>

fun assign_ids :: "nat \<Rightarrow> nat \<Rightarrow> video list \<Rightarrow> video list" where
  "assign_ids now i [] = []"
| "assign_ids now i (v # vs) =
     (if eligible v then ensure_id now i v else v) # assign_ids now (Suc i) vs"

definition discover :: "nat \<Rightarrow> video list \<Rightarrow> video list" where
  "discover now vs = assign_ids now 0 vs"

section \<open>Reading an identity back\<close>

text \<open>The inverse of \<open>mint_id\<close>; it is not part of the scripts and serves the proofs.\<close>

definition read_id :: "string \<Rightarrow> (nat \<times> nat) option" where
  "read_id s =
     (case split_on (CHR ''-'') s of
        [p, a, b] \<Rightarrow>
          (if p = ''participant'' then
             (case (read_nat a, read_nat b) of (Some t, Some i) \<Rightarrow> Some (t, i) | _ \<Rightarrow> None)
           else None)
      | _ \<Rightarrow> None)"

text \<open>The identities on the page, and the claim that all of them were minted before \<open>T\<close>.\<close>

definition known_ids :: "video list \<Rightarrow> string list" where
  "known_ids vs =
     List.map_filter (\<lambda>v. case monitorId v of Some s \<Rightarrow> if s = [] then None else Some s
                                            | None \<Rightarrow> None) vs"

definition minted_before :: "nat \<Rightarrow> video list \<Rightarrow> bool" where
  "minted_before T vs \<longleftrightarrow>
     distinct (known_ids vs) \<and>
     list_all (\<lambda>s. case read_id s of Some (t, i) \<Rightarrow> t < T | None \<Rightarrow> False) (known_ids vs)"

section \<open>Facts about minting\<close>

lemma split_mint_id:
  "split_on (CHR ''-'') (mint_id t i) = [''participant'', show_nat t, show_nat i]"
proof -
  have "split_on (CHR ''-'') (mint_id t i)
      = ''participant'' # split_on (CHR ''-'') (show_nat t @ CHR ''-'' # show_nat i)"
    unfolding mint_id_def using split_on_append_sep [of "CHR ''-''" "''participant''"] by simp
  also have "split_on (CHR ''-'') (show_nat t @ CHR ''-'' # show_nat i)
      = show_nat t # split_on (CHR ''-'') (show_nat i)"
    by (rule split_on_append_sep) simp
  also have "split_on (CHR ''-'') (show_nat i) = [show_nat i]"
    by (rule split_on_no_sep) simp
  finally show ?thesis .
qed

lemma read_mint_id [simp]: "read_id (mint_id t i) = Some (t, i)"
  by (simp add: read_id_def split_mint_id)

lemma mint_id_inj [simp]: "mint_id t i = mint_id t' i' \<longleftrightarrow> t = t' \<and> i = i'"
  by (metis read_mint_id option.inject prod.inject)

lemma mint_id_nonempty [simp]: "mint_id t i \<noteq> []"
  by (simp add: mint_id_def)

lemma needs_id_ensure [simp]: "\<not> needs_id (ensure_id now i v)"
  by (simp add: ensure_id_def needs_id_def split: option.splits)

lemma ensure_id_has_id [simp]: "\<not> needs_id v \<Longrightarrow> ensure_id now i v = v"
  by (simp add: ensure_id_def)

lemma monitorId_ensure_id: "monitorId (ensure_id now i v) = Some (id_of now i v)"
  by (auto simp: ensure_id_def id_of_def needs_id_def split: option.splits)

lemma ensure_id_frame [simp, frame]:
  "node (ensure_id now i v) = node v"
  "readyState (ensure_id now i v) = readyState v"
  "offsetHeight (ensure_id now i v) = offsetHeight v"
  "offsetWidth (ensure_id now i v) = offsetWidth v"
  "videoWidth (ensure_id now i v) = videoWidth v"
  "videoHeight (ensure_id now i v) = videoHeight v"
  "bounds (ensure_id now i v) = bounds v"
  "origin_clean (ensure_id now i v) = origin_clean v"
  by (simp_all add: ensure_id_def)

lemma eligible_ensure_id [simp]: "eligible (ensure_id now i v) = eligible v"
  by (simp add: eligible_def)

section \<open>Facts about a pass\<close>

lemma length_assign_ids [simp]: "length (assign_ids now i vs) = length vs"
  by (induction vs arbitrary: i) auto

lemma map_node_assign_ids [simp]: "map node (assign_ids now i vs) = map node vs"
  by (induction vs arbitrary: i) auto

lemma assign_ids_nth:
  "k < length vs \<Longrightarrow>
   assign_ids now i vs ! k = (if eligible (vs ! k) then ensure_id now (i + k) (vs ! k) else vs ! k)"
proof (induction vs arbitrary: i k)
  case Nil
  then show ?case by simp
next
  case (Cons v vs)
  then show ?case by (cases k) auto
qed

lemma assign_ids_idem: "assign_ids now' j (assign_ids now i vs) = assign_ids now i vs"
  by (induction vs arbitrary: i j) auto

lemma known_ids_Cons:
  "known_ids (v # vs) = (if needs_id v then known_ids vs else the (monitorId v) # known_ids vs)"
  by (auto simp: known_ids_def needs_id_def split: option.splits)

lemma known_ids_Nil [simp]: "known_ids [] = []"
  by (simp add: known_ids_def)

lemma known_ids_assign_subset:
  "set (known_ids (assign_ids now i vs)) \<subseteq> set (known_ids vs) \<union> {mint_id now j |j. i \<le> j}"
proof (induction vs arbitrary: i)
  case Nil
  then show ?case by simp
next
  case (Cons v vs)
  have "set (known_ids (assign_ids now (Suc i) vs))
      \<subseteq> set (known_ids vs) \<union> {mint_id now j |j. i \<le> j}"
    using Cons.IH [of "Suc i"] by (auto intro: Suc_leD)
  then show ?case
    by (auto simp: known_ids_Cons monitorId_ensure_id id_of_def)
qed

lemma known_ids_assign_superset:
  "set (known_ids vs) \<subseteq> set (known_ids (assign_ids now i vs))"
proof (induction vs arbitrary: i)
  case Nil
  then show ?case by simp
next
  case (Cons v vs)
  then show ?case by (auto simp: known_ids_Cons)
qed

lemma distinct_known_ids_assign:
  assumes "distinct (known_ids vs)" and "\<forall>s\<in>set (known_ids vs). \<forall>j. s \<noteq> mint_id now j"
  shows "distinct (known_ids (assign_ids now i vs))"
  using assms
proof (induction vs arbitrary: i)
  case Nil
  then show ?case by simp
next
  case (Cons v vs)
  from Cons.prems have d: "distinct (known_ids vs)"
    and old: "\<forall>s\<in>set (known_ids vs). \<forall>j. s \<noteq> mint_id now j"
    by (auto simp: known_ids_Cons split: if_splits)
  have IH: "distinct (known_ids (assign_ids now (Suc i) vs))"
    using Cons.IH [OF d old] .
  have sub: "set (known_ids (assign_ids now (Suc i) vs))
      \<subseteq> set (known_ids vs) \<union> {mint_id now j |j. Suc i \<le> j}"
    by (rule known_ids_assign_subset)
  show ?case
  proof (cases "needs_id v")
    case True
    have "mint_id now i \<notin> set (known_ids (assign_ids now (Suc i) vs))"
    proof
      assume "mint_id now i \<in> set (known_ids (assign_ids now (Suc i) vs))"
      with sub have "mint_id now i \<in> set (known_ids vs) \<or> (\<exists>j. Suc i \<le> j \<and> mint_id now i = mint_id now j)"
        by auto
      with old show False by auto
    qed
    with True IH show ?thesis by (auto simp: known_ids_Cons ensure_id_def)
  next
    case False
    with Cons.prems have "the (monitorId v) \<notin> set (known_ids vs)"
      and "\<forall>j. the (monitorId v) \<noteq> mint_id now j"
      by (auto simp: known_ids_Cons)
    then have "the (monitorId v) \<notin> set (known_ids (assign_ids now (Suc i) vs))"
      using sub by auto
    with False IH show ?thesis by (auto simp: known_ids_Cons)
  qed
qed

lemma minted_before_mono: "minted_before T vs \<Longrightarrow> T \<le> T' \<Longrightarrow> minted_before T' vs"
  by (auto simp: minted_before_def list_all_iff split: option.splits)

lemma minted_before_Nil [simp]: "minted_before T []"
  by (simp add: minted_before_def)

lemma minted_before_assign:
  assumes "minted_before now vs"
  shows "minted_before (Suc now) (assign_ids now i vs)"
proof -
  from assms have d: "distinct (known_ids vs)"
    and old: "\<forall>s\<in>set (known_ids vs). case read_id s of Some (t, i) \<Rightarrow> t < now | None \<Rightarrow> False"
    by (auto simp: minted_before_def list_all_iff)
  have fresh: "\<forall>s\<in>set (known_ids vs). \<forall>j. s \<noteq> mint_id now j"
    using old by fastforce
  have "distinct (known_ids (assign_ids now i vs))"
    using d fresh by (rule distinct_known_ids_assign)
  moreover have "\<forall>s\<in>set (known_ids (assign_ids now i vs)).
      case read_id s of Some (t, i) \<Rightarrow> t < Suc now | None \<Rightarrow> False"
    using known_ids_assign_subset [of now i vs] old by (fastforce split: option.splits)
  ultimately show ?thesis by (simp add: minted_before_def list_all_iff)
qed

section \<open>The contract of discovery\<close>

text \<open>
  C20. An identity can be read back: from \<^verbatim>\<open>participant-<clock>-<index>\<close> the clock and
  the index are recovered, so two identities are equal only if they were minted at the
  same millisecond for the same position.
\<close>

theorem mint_read_roundtrip:
  "read_id (mint_id t i) = Some (t, i) \<and> (mint_id t i = mint_id t' i') = (t = t' \<and> i = i')"
  by simp

text \<open>
  C21. Discovery is idempotent: a second pass over the videos a pass has stamped, at any
  later time, changes none of them, and a pass changes neither the number nor the order
  of the videos.
\<close>

theorem discovery_is_idempotent:
  "discover t' (discover t vs) = discover t vs \<and> map node (discover t vs) = map node vs"
  by (simp add: discover_def assign_ids_idem)

text \<open>
  C22. What a pass does to one video: the video at position \<open>k\<close> is stamped with the clock
  and \<open>k\<close> when it is eligible and has no identity, and is left as it is otherwise.
\<close>

theorem discover_stamps_by_position:
  assumes "k < length vs"
  shows "discover t vs ! k =
           (if eligible (vs ! k) \<and> needs_id (vs ! k)
            then (vs ! k)\<lparr>monitorId := Some (mint_id t k)\<rparr> else vs ! k)"
  using assms by (simp add: discover_def assign_ids_nth ensure_id_def)

theorem discover_stamps_by_position_witness:
  "discover 1700
     [\<lparr>node = 0, readyState = 4, offsetHeight = 180, offsetWidth = 320, videoWidth = 640,
       videoHeight = 360, monitorId = Some ''participant-5-0'',
       bounds = \<lparr>rect_left = 0, rect_top = 0, rect_width = 320, rect_height = 180\<rparr>,
       origin_clean = True\<rparr>,
      \<lparr>node = 1, readyState = 4, offsetHeight = 180, offsetWidth = 320, videoWidth = 640,
       videoHeight = 360, monitorId = None,
       bounds = \<lparr>rect_left = 0, rect_top = 0, rect_width = 320, rect_height = 180\<rparr>,
       origin_clean = True\<rparr>] ! 1 =
   \<lparr>node = 1, readyState = 4, offsetHeight = 180, offsetWidth = 320, videoWidth = 640,
     videoHeight = 360, monitorId = Some ''participant-1700-1'',
     bounds = \<lparr>rect_left = 0, rect_top = 0, rect_width = 320, rect_height = 180\<rparr>,
     origin_clean = True\<rparr>"
  using discover_stamps_by_position [of 1 "[\<lparr>node = 0, readyState = 4, offsetHeight = 180,
       offsetWidth = 320, videoWidth = 640,
       videoHeight = 360, monitorId = Some ''participant-5-0'',
       bounds = \<lparr>rect_left = 0, rect_top = 0, rect_width = 320, rect_height = 180\<rparr>,
       origin_clean = True\<rparr>,
      \<lparr>node = 1, readyState = 4, offsetHeight = 180, offsetWidth = 320, videoWidth = 640,
       videoHeight = 360, monitorId = None,
       bounds = \<lparr>rect_left = 0, rect_top = 0, rect_width = 320, rect_height = 180\<rparr>,
       origin_clean = True\<rparr>]" 1700]
  by (simp add: eligible_def needs_id_def mint_id_def show_nat.simps digit_char_def)

end
