(* ===== verification/Double.thy ===== *)
theory Double
  imports Prelude
begin

text \<open>
  The arithmetic of JavaScript numbers that the frame sampler uses: the quotient of two
  integers, the product of an integer and a quotient, and the conversion to an unsigned
  32-bit integer, all in IEEE 754 binary64 with rounding to nearest, ties to even. A
  finite non-negative double is a mantissa of at most 53 bits times a power of two, and
  is represented by the two integers. The operations are exact for operands below
  \<open>2 ^ 32\<close>, where no overflow, underflow or subnormal number arises. The lemmas bound
  the rounding error in integer arithmetic.
\<close>

section \<open>Rounding\<close>

text \<open>The integer nearest to \<open>n / d\<close>, the even one of two that are equally near.\<close>

definition rne :: "nat \<Rightarrow> nat \<Rightarrow> nat" where
  "rne n d =
     (if 2 * (n mod d) < d then n div d
      else if d < 2 * (n mod d) then Suc (n div d)
      else if even (n div d) then n div d else Suc (n div d))"

text \<open>
  The number of binary places the quotient \<open>n / d\<close> has to be shifted left by for its
  integer part to have 53 bits: the least \<open>k\<close> from \<open>k0\<close> on with
  \<open>2 ^ 52 \<le> n * 2 ^ k / d\<close>, searched in at most \<open>fuel\<close> steps.
\<close>

fun shift_left :: "nat \<Rightarrow> nat \<Rightarrow> nat \<Rightarrow> nat \<Rightarrow> nat" where
  "shift_left 0 n d k0 = k0"
| "shift_left (Suc fuel) n d k0 =
     (if 2 ^ 52 * d \<le> n * 2 ^ k0 then k0 else shift_left fuel n d (Suc k0))"

text \<open>
  The number of binary places an integer has to be shifted right by to have at most 53
  bits: the least \<open>s\<close> from \<open>s0\<close> on with \<open>n / 2 ^ s < 2 ^ 53\<close>.
\<close>

fun shift_right :: "nat \<Rightarrow> nat \<Rightarrow> nat \<Rightarrow> nat" where
  "shift_right 0 n s0 = s0"
| "shift_right (Suc fuel) n s0 =
     (if n < 2 ^ 53 * 2 ^ s0 then s0 else shift_right fuel n (Suc s0))"

section \<open>Doubles\<close>

text \<open>The double \<open>mantissa * 2 ^ exponent\<close>.\<close>

record double =
  mantissa :: nat
  exponent :: int

text \<open>
  \<^verbatim>\<open>n / d\<close> for integers \<open>n\<close> and \<open>d\<close> with \<open>d\<close> positive, both below \<open>2 ^ 32\<close>. The
  quotient lies between \<open>2 ^ - 32\<close> and \<open>2 ^ 32\<close>, so 84 steps find the shift.
\<close>

definition double_div :: "nat \<Rightarrow> nat \<Rightarrow> double" where
  "double_div n d =
     (let k = shift_left 84 n d 0
      in \<lparr>mantissa = rne (n * 2 ^ k) d, exponent = - int k\<rparr>)"

text \<open>
  \<^verbatim>\<open>c * x\<close> for an integer \<open>c\<close> below \<open>2 ^ 32\<close>: the exact product has at most 32 bits
  more than the mantissa of \<open>x\<close>, so 32 steps find the shift.
\<close>

definition double_times :: "nat \<Rightarrow> double \<Rightarrow> double" where
  "double_times c x =
     (let s = shift_right 32 (c * mantissa x) 0
      in \<lparr>mantissa = rne (c * mantissa x) (2 ^ s), exponent = exponent x + int s\<rparr>)"

text \<open>
  The conversion to \<^verbatim>\<open>unsigned long\<close> that an assignment to \<^verbatim>\<open>canvas.height\<close>
  applies: the integer part, modulo \<open>2 ^ 32\<close>.
\<close>

definition to_uint32 :: "double \<Rightarrow> nat" where
  "to_uint32 x =
     (if 0 \<le> exponent x then mantissa x * 2 ^ nat (exponent x)
      else mantissa x div 2 ^ nat (- exponent x)) mod 2 ^ 32"

section \<open>The rounding error\<close>

lemma rne_cases:
  "(rne n d = n div d \<and> 2 * (n mod d) \<le> d) \<or> (rne n d = Suc (n div d) \<and> d \<le> 2 * (n mod d))"
  by (auto simp: rne_def)

lemma rne_error:
  assumes "0 < d"
  shows "2 * (rne n d * d) \<le> 2 * n + d" and "2 * n \<le> 2 * (rne n d * d) + d"
proof -
  define q r where "q = n div d" and "r = n mod d"
  have n: "n = q * d + r" and r: "r < d" using assms by (simp_all add: q_def r_def)
  from rne_cases [of n d] have "(rne n d * d = q * d \<and> 2 * r \<le> d) \<or>
      (rne n d * d = q * d + d \<and> d \<le> 2 * r)"
    by (auto simp: q_def r_def)
  with n r show "2 * (rne n d * d) \<le> 2 * n + d" and "2 * n \<le> 2 * (rne n d * d) + d"
    by auto
qed

section \<open>The integer part of a value near a quotient\<close>

text \<open>
  \<open>Y / K\<close> is within \<open>c / K\<close> of \<open>N / w\<close>, and \<open>c / K\<close> is less than \<open>1 / w\<close>. Then
  the integer part of \<open>Y / K\<close> is that of \<open>N / w\<close>, unless \<open>N / w\<close> is an integer, where
  it may be one less.
\<close>

lemma quotient_times:
  fixes N w K :: nat
  shows "N * K = N div w * K * w + N mod w * K"
proof -
  have "N * K = (N div w * w + N mod w) * K" by simp
  then show ?thesis by (simp only: distrib_right mult.assoc mult.commute [of w K])
qed

lemma near_quotient_below:
  fixes Y N w K c :: nat
  assumes "0 < w" and "c * w < K" and "Y * w \<le> N * K + c * w"
  shows "Y < Suc (N div w) * K"
proof (rule ccontr)
  assume "\<not> Y < Suc (N div w) * K"
  then have "Suc (N div w) * K * w \<le> Y * w" by (simp add: mult_le_mono1)
  then have 1: "N div w * K * w + K * w \<le> Y * w" by (simp add: distrib_right)
  from assms(1) have "Suc (N mod w) \<le> w" by (simp add: Suc_le_eq)
  then have "Suc (N mod w) * K \<le> w * K" by (rule mult_le_mono1)
  then have 2: "N mod w * K + K \<le> K * w" by (simp add: mult.commute)
  from 1 2 assms(2,3) quotient_times [of N K w] show False by linarith
qed

lemma near_quotient_above:
  fixes Y N w K c :: nat
  assumes "c * w < K" and "N * K \<le> Y * w + c * w" and "N mod w \<noteq> 0"
  shows "N div w * K \<le> Y"
proof (rule ccontr)
  assume "\<not> N div w * K \<le> Y"
  then have "Suc Y \<le> N div w * K" by simp
  then have "Suc Y * w \<le> N div w * K * w" by (rule mult_le_mono1)
  then have 1: "Y * w + w \<le> N div w * K * w" by simp
  from assms(3) have "1 * K \<le> N mod w * K" by (intro mult_le_mono1) simp
  then have 2: "K \<le> N mod w * K" by simp
  from 1 2 assms(1,2) quotient_times [of N K w] show False by linarith
qed

lemma near_quotient_above_exact:
  fixes Y N w K c :: nat
  assumes "0 < w" and "c * w < K" and "N * K \<le> Y * w + c * w" and "N mod w = 0"
  shows "N div w * K \<le> Y + K"
proof (rule ccontr)
  assume "\<not> N div w * K \<le> Y + K"
  then have "Suc (Y + K) \<le> N div w * K" by simp
  then have "Suc (Y + K) * w \<le> N div w * K * w" by (rule mult_le_mono1)
  then have 1: "Y * w + K * w + w \<le> N div w * K * w" by (simp add: distrib_right)
  from assms(1) have "K * 1 \<le> K * w" by (intro mult_le_mono2) simp
  then have 2: "K \<le> K * w" by simp
  from 1 2 assms(2,3,4) quotient_times [of N K w] show False by simp
qed

lemma integer_part_near_quotient:
  fixes Y N w K c :: nat
  assumes "0 < w" and "c * w < K"
    and "Y * w \<le> N * K + c * w" and "N * K \<le> Y * w + c * w"
  shows "if N mod w = 0 then Y div K = N div w \<or> Suc (Y div K) = N div w
         else Y div K = N div w"
proof (cases "N mod w = 0")
  case False
  from near_quotient_above [OF assms(2,4) False] near_quotient_below [OF assms(1,2,3)]
  have "Y div K = N div w" by (intro div_nat_eqI) (simp_all add: mult.commute)
  with False show ?thesis by simp
next
  case True
  have below: "Y < Suc (N div w) * K" using assms(1,2,3) by (rule near_quotient_below)
  have above: "N div w * K \<le> Y + K" using assms(1,2,4) True
    by (rule near_quotient_above_exact)
  show ?thesis
  proof (cases "N div w * K \<le> Y")
    case True
    with below have "Y div K = N div w" by (intro div_nat_eqI) (simp_all add: mult.commute)
    with \<open>N mod w = 0\<close> show ?thesis by simp
  next
    case False
    then obtain q where q: "N div w = Suc q" by (cases "N div w") auto
    with above False have "q * K \<le> Y" "Y < Suc q * K" by simp_all
    then have "Y div K = q" by (intro div_nat_eqI) (simp_all add: mult.commute)
    with q \<open>N mod w = 0\<close> show ?thesis by simp
  qed
qed

section \<open>The shifts\<close>

lemma shift_left_found:
  "2 ^ 52 * d \<le> n * 2 ^ (k0 + fuel) \<Longrightarrow> 2 ^ 52 * d \<le> n * 2 ^ shift_left fuel n d k0"
  by (induction fuel arbitrary: k0) auto

lemma shift_left_least:
  "k0 \<le> j \<Longrightarrow> j < shift_left fuel n d k0 \<Longrightarrow> n * 2 ^ j < 2 ^ 52 * d"
proof (induction fuel arbitrary: k0)
  case 0
  then show ?case by simp
next
  case (Suc fuel)
  show ?case
  proof (cases "j = k0")
    case True
    with Suc.prems show ?thesis by (auto split: if_splits)
  next
    case False
    with Suc.prems have "Suc k0 \<le> j" and "j < shift_left fuel n d (Suc k0)"
      by (auto split: if_splits)
    then show ?thesis by (rule Suc.IH)
  qed
qed

lemma shift_right_le:
  "n < 2 ^ 53 * 2 ^ j \<Longrightarrow> s0 \<le> j \<Longrightarrow> shift_right fuel n s0 \<le> j"
proof (induction fuel arbitrary: s0)
  case 0
  then show ?case by simp
next
  case (Suc fuel)
  show ?case
  proof (cases "n < 2 ^ 53 * 2 ^ s0")
    case True
    with Suc.prems show ?thesis by simp
  next
    case False
    with Suc.prems have "s0 \<noteq> j" by auto
    with Suc.prems have "Suc s0 \<le> j" by simp
    with Suc.prems(1) have "shift_right fuel n (Suc s0) \<le> j" by (rule Suc.IH)
    with False show ?thesis by simp
  qed
qed

text \<open>
  The quotient of two positive integers below \<open>2 ^ 32\<close>, shifted, has exactly 53 bits
  before the binary point, and the shift is more than 20 places.
\<close>

lemma shift_left_quotient:
  assumes "0 < n" and "n < 2 ^ 32" and "0 < d" and "d < 2 ^ 32"
  shows "2 ^ 52 * d \<le> n * 2 ^ shift_left 84 n d 0"
    and "n * 2 ^ shift_left 84 n d 0 < 2 ^ 53 * d"
    and "2 ^ 20 * d < 2 ^ shift_left 84 n d 0"
proof -
  let ?k = "shift_left 84 n d 0"
  from assms(1) have "1 * 2 ^ 84 \<le> n * (2 ^ 84 :: nat)" by (intro mult_le_mono1) simp
  with assms(4) have "2 ^ 52 * d \<le> n * 2 ^ (0 + 84)" by simp
  then show found: "2 ^ 52 * d \<le> n * 2 ^ ?k" by (rule shift_left_found)
  from assms(2) have "n * 2 ^ ?k < 4294967296 * 2 ^ ?k" by (intro mult_less_mono1) simp_all
  moreover from found have "4503599627370496 * d \<le> n * 2 ^ ?k" by simp
  ultimately have "1048576 * d < 2 ^ ?k" by linarith
  then show "2 ^ 20 * d < 2 ^ ?k" by simp
  show "n * 2 ^ ?k < 2 ^ 53 * d"
  proof (cases ?k)
    case 0
    with found assms(2,3) show ?thesis by simp
  next
    case (Suc j)
    then have "n * 2 ^ j < 2 ^ 52 * d" by (intro shift_left_least [of 0 j 84]) simp_all
    with Suc show ?thesis by simp
  qed
qed

lemma rne_le:
  assumes "0 < d" and "n < m * d"
  shows "rne n d \<le> m"
proof (rule ccontr)
  assume "\<not> rne n d \<le> m"
  then have "Suc m \<le> rne n d" by simp
  then have "Suc m * d \<le> rne n d * d" by (rule mult_le_mono1)
  with rne_error(1) [OF assms(1), of n] assms show False by simp
qed

lemma rne_zero [simp]: "0 < d \<Longrightarrow> rne 0 d = 0"
  by (simp add: rne_def)

section \<open>The integer part of a scaled quotient\<close>

lemma to_uint32_shifted:
  assumes "s \<le> k"
  shows "to_uint32 \<lparr>mantissa = m, exponent = - int k + int s\<rparr> = (m * 2 ^ s) div 2 ^ k mod 2 ^ 32"
proof -
  from assms obtain j where k: "k = s + j" by (auto simp: le_iff_add)
  have "(m * 2 ^ s) div (2 ^ s * 2 ^ j) = m div (2 ^ j :: nat)"
    by (simp add: mult.commute [of m])
  moreover have "- int k + int s = - int j" by (simp add: k)
  ultimately show ?thesis by (cases "j = 0") (simp_all add: to_uint32_def k power_add)
qed

lemma double_times_div:
  "double_times c (double_div n d) =
     (let k = shift_left 84 n d 0;
          m = rne (n * 2 ^ k) d;
          s = shift_right 32 (c * m) 0
      in \<lparr>mantissa = rne (c * m) (2 ^ s), exponent = - int k + int s\<rparr>)"
  by (simp add: double_times_def double_div_def Let_def)

text \<open>The two rounding errors add up to at most \<open>512 / K\<close>, for a factor of at most 512.\<close>

lemma scaled_error:
  fixes A d c m y S :: nat
  assumes "2 * (m * d) \<le> 2 * A + d" and "2 * A \<le> 2 * (m * d) + d"
    and "2 * (y * S) \<le> 2 * (c * m) + S" and "2 * (c * m) \<le> 2 * (y * S) + S"
    and "S \<le> 512" and "c \<le> 512"
  shows "y * S * d \<le> c * A + 512 * d" and "c * A \<le> y * S * d + 512 * d"
proof -
  from assms(1) have "c * (2 * (m * d)) \<le> c * (2 * A + d)" by (rule mult_le_mono2)
  then have 1: "2 * (c * m * d) \<le> 2 * (c * A) + c * d" by (simp add: algebra_simps)
  from assms(2) have "c * (2 * A) \<le> c * (2 * (m * d) + d)" by (rule mult_le_mono2)
  then have 2: "2 * (c * A) \<le> 2 * (c * m * d) + c * d" by (simp add: algebra_simps)
  from assms(3) have "2 * (y * S) * d \<le> (2 * (c * m) + S) * d" by (rule mult_le_mono1)
  then have 3: "2 * (y * S * d) \<le> 2 * (c * m * d) + S * d" by (simp add: algebra_simps)
  from assms(4) have "2 * (c * m) * d \<le> (2 * (y * S) + S) * d" by (rule mult_le_mono1)
  then have 4: "2 * (c * m * d) \<le> 2 * (y * S * d) + S * d" by (simp add: algebra_simps)
  from assms(5) have 5: "S * d \<le> 512 * d" by (rule mult_le_mono1)
  from assms(6) have 6: "c * d \<le> 512 * d" by (rule mult_le_mono1)
  from 1 3 5 6 show "y * S * d \<le> c * A + 512 * d" by linarith
  from 2 4 5 6 show "c * A \<le> y * S * d + 512 * d" by linarith
qed

text \<open>
  \<^verbatim>\<open>c * (n / d)\<close> converted to an unsigned integer, for \<open>c\<close> below \<open>2 ^ 9\<close>: the integer
  quotient of \<open>c * n\<close> by \<open>d\<close> when \<open>d\<close> does not divide \<open>c * n\<close>, and that or one less
  when it does.
\<close>

lemma scaled_zero:
  "0 < d \<Longrightarrow> to_uint32 (double_times c (double_div 0 d)) = 0"
  by (simp add: double_times_div to_uint32_def rne_def)

lemma scaled_integer_part:
  assumes "0 < n" and "n < 2 ^ 32" and "0 < d" and "d < 2 ^ 32" and "c < 2 ^ 9"
  shows "if (c * n) mod d = 0
         then to_uint32 (double_times c (double_div n d)) = (c * n) div d mod 2 ^ 32 \<or>
              to_uint32 (double_times c (double_div n d)) = ((c * n) div d - 1) mod 2 ^ 32
         else to_uint32 (double_times c (double_div n d)) = (c * n) div d mod 2 ^ 32"
proof -
  define k where "k = shift_left 84 n d 0"
  define m where "m = rne (n * 2 ^ k) d"
  define s where "s = shift_right 32 (c * m) 0"
  define y where "y = rne (c * m) (2 ^ s)"
  note q = shift_left_quotient [OF assms(1-4), folded k_def]
  from assms(3) q(2) have "m \<le> 2 ^ 53" unfolding m_def by (intro rne_le) simp_all
  with assms(5) have "c * m \<le> 511 * 2 ^ 53" by (intro mult_le_mono) simp_all
  then have "c * m < 2 ^ 53 * 2 ^ 9" by simp
  then have s: "s \<le> 9" unfolding s_def by (rule shift_right_le) simp
  then have S: "(2::nat) ^ s \<le> 512" using power_increasing [of s 9 "2::nat"] by simp
  from q(3) assms(3) have "(2::nat) ^ 20 < 2 ^ k" by simp
  then have "20 < k" by (simp only: power_strict_increasing_iff)
  with s have sk: "s \<le> k" by simp
  from q(3) have small: "512 * d < 2 ^ k" by simp
  have err: "y * 2 ^ s * d \<le> c * n * 2 ^ k + 512 * d" "c * n * 2 ^ k \<le> y * 2 ^ s * d + 512 * d"
    using scaled_error [of m d "n * 2 ^ k" y "2 ^ s" c] rne_error [OF assms(3), of "n * 2 ^ k"]
      rne_error [of "2 ^ s" "c * m"] S assms(5)
    by (simp_all add: m_def [symmetric] y_def [symmetric] mult.assoc)
  have val: "to_uint32 (double_times c (double_div n d)) = (y * 2 ^ s) div 2 ^ k mod 2 ^ 32"
    using to_uint32_shifted [OF sk, of y]
    by (simp add: double_times_div Let_def k_def m_def s_def y_def)
  from integer_part_near_quotient [OF assms(3) small err]
  show ?thesis unfolding val by (auto split: if_splits)
qed

section \<open>Evaluation\<close>

text \<open>The searches unfold on a numeral of fuel, so that \<open>simp\<close> evaluates a concrete operation.\<close>

lemma shift_left_numeral:
  "shift_left (numeral f) n d k0 =
     (if 2 ^ 52 * d \<le> n * 2 ^ k0 then k0 else shift_left (pred_numeral f) n d (Suc k0))"
  by (subst numeral_eq_Suc) simp

lemma shift_right_numeral:
  "shift_right (numeral f) n s0 =
     (if n < 2 ^ 53 * 2 ^ s0 then s0 else shift_right (pred_numeral f) n (Suc s0))"
  by (subst numeral_eq_Suc) simp

lemmas double_eval = shift_left_numeral shift_right_numeral double_div_def double_times_def to_uint32_def rne_def Let_def

end
