(* ===== verification/Sampler.thy ===== *)
theory Sampler
  imports Dom Double
begin

text \<open>
  The frame sampler: the synchronous first half of \<^verbatim>\<open>captureAndSendFrame\<close>, which sizes
  the shared canvas, draws the video into it and encodes it. The encoded image is
  represented by the node it was drawn from and its dimensions. The height of the canvas
  is computed as the code computes it: the quotient \<^verbatim>\<open>videoHeight / videoWidth\<close> and the
  product with \<^verbatim>\<open>MAX_WIDTH\<close> are rounded to doubles, and the assignment to
  \<^verbatim>\<open>canvas.height\<close> converts the product to an unsigned 32-bit integer, as the DOM does.
\<close>

section \<open>Data\<close>

definition MAX_WIDTH :: nat where
  "MAX_WIDTH = 480"

record canvas =
  canvas_width :: nat
  canvas_height :: nat

record frame =
  source :: nat          \<comment> \<open>the node of the video the image shows\<close>
  image_width :: nat
  image_height :: nat

datatype capture =
    Skipped              \<comment> \<open>the early return\<close>
  | Drawn frame          \<comment> \<open>\<^verbatim>\<open>toDataURL\<close> returned an image\<close>
  | Blocked              \<comment> \<open>\<^verbatim>\<open>toDataURL\<close> threw: the canvas is not origin-clean\<close>

section \<open>Operations\<close>

text \<open>
  \<^verbatim>\<open>const aspectRatio = videoEl.videoHeight / videoEl.videoWidth\<close> and
  \<^verbatim>\<open>canvasElement.height = MAX_WIDTH * aspectRatio\<close>
\<close>

definition scaled_height :: "video \<Rightarrow> nat" where
  "scaled_height v =
     to_uint32 (double_times MAX_WIDTH (double_div (videoHeight v) (videoWidth v)))"

definition sample :: "video \<Rightarrow> canvas \<Rightarrow> capture \<times> canvas" where
  "sample v c =
     (if videoWidth v = 0 then (Skipped, c)
      else
        let c' = \<lparr>canvas_width = MAX_WIDTH, canvas_height = scaled_height v\<rparr> in
        if origin_clean v
        then (Drawn \<lparr>source = node v, image_width = canvas_width c', image_height = canvas_height c'\<rparr>, c')
        else (Blocked, c'))"

section \<open>Facts\<close>

lemma sample_zero_width [simp]: "videoWidth v = 0 \<Longrightarrow> sample v c = (Skipped, c)"
  by (simp add: sample_def)

lemma sample_Skipped_iff: "fst (sample v c) = Skipped \<longleftrightarrow> videoWidth v = 0"
  by (simp add: sample_def Let_def)

lemma sample_Blocked_iff: "fst (sample v c) = Blocked \<longleftrightarrow> videoWidth v \<noteq> 0 \<and> \<not> origin_clean v"
  by (simp add: sample_def Let_def)

lemma sample_Drawn:
  "fst (sample v c) = Drawn f \<longleftrightarrow>
     videoWidth v \<noteq> 0 \<and> origin_clean v \<and>
     f = \<lparr>source = node v, image_width = MAX_WIDTH, image_height = scaled_height v\<rparr>"
  by (auto simp: sample_def Let_def)

lemma sample_canvas:
  "snd (sample v c) =
     (if videoWidth v = 0 then c else \<lparr>canvas_width = MAX_WIDTH, canvas_height = scaled_height v\<rparr>)"
  by (simp add: sample_def Let_def)

text \<open>
  The height is the integer part of \<open>480 * videoHeight / videoWidth\<close> when that is not
  an integer. When it is, the rounding of the quotient can leave the product just below
  it, and the height is that integer or one less.
\<close>

lemma scaled_height_cases:
  assumes "0 < videoWidth v" and "videoWidth v < 2 ^ 32" and "videoHeight v < 2 ^ 23"
  shows "if (480 * videoHeight v) mod videoWidth v = 0
         then scaled_height v = (480 * videoHeight v) div videoWidth v \<or>
              scaled_height v = (480 * videoHeight v) div videoWidth v - 1
         else scaled_height v = (480 * videoHeight v) div videoWidth v"
proof (cases "videoHeight v = 0")
  case True
  with assms(1) show ?thesis by (simp add: scaled_height_def scaled_zero)
next
  case False
  let ?q = "(480 * videoHeight v) div videoWidth v"
  have "?q \<le> 480 * videoHeight v" by (rule div_le_dividend)
  also have "\<dots> < 480 * 2 ^ 23" using assms(3) by simp
  finally have "?q < 2 ^ 32" by simp
  then have m: "?q mod 2 ^ 32 = ?q" "(?q - 1) mod 2 ^ 32 = ?q - 1" by simp_all
  from False assms(3) have h: "0 < videoHeight v" "videoHeight v < 2 ^ 32" by simp_all
  have c: "(480::nat) < 2 ^ 9" by simp
  from scaled_integer_part [OF h assms(1,2) c] show ?thesis
    unfolding scaled_height_def MAX_WIDTH_def m .
qed

lemma scaled_height_ratio:
  assumes "0 < videoWidth v" and "videoWidth v < 2 ^ 32" and "videoHeight v < 2 ^ 23"
  shows "scaled_height v * videoWidth v \<le> 480 * videoHeight v"
    and "480 * videoHeight v < (scaled_height v + 2) * videoWidth v"
proof -
  let ?q = "(480 * videoHeight v) div videoWidth v"
  from scaled_height_cases [OF assms]
  have q: "scaled_height v \<le> ?q" "?q \<le> scaled_height v + 1"
    by (auto split: if_splits)
  from q(1) have "scaled_height v * videoWidth v \<le> ?q * videoWidth v" by (rule mult_le_mono1)
  also have "\<dots> \<le> 480 * videoHeight v" by (rule div_times_less_eq_dividend)
  finally show "scaled_height v * videoWidth v \<le> 480 * videoHeight v" .
  from assms(1) have "480 * videoHeight v < (?q + 1) * videoWidth v"
    using dividend_less_div_times [of "videoWidth v" "480 * videoHeight v"]
    by (simp add: algebra_simps)
  also from q(2) have "\<dots> \<le> (scaled_height v + 1 + 1) * videoWidth v"
    by (intro mult_le_mono1) simp
  finally show "480 * videoHeight v < (scaled_height v + 2) * videoWidth v" by simp
qed

section \<open>The contract of the sampler\<close>

text \<open>
  C18. A video with decoded frames of a clean origin is drawn into a canvas exactly 480
  wide, also when the stream is narrower, and the image carries the node of that video
  and the size of the canvas. The height of the canvas is the one the double arithmetic
  of the code gives: for a stream of at most \<open>2 ^ 23\<close> rows it is the integer part of
  \<open>480 * videoHeight / videoWidth\<close> when that ratio is not an integer, and that integer or
  one less when it is; in both cases the aspect ratio of the stream is kept within two
  rows. A stream of 640 by 328 is drawn 245 rows high, where the ratio is 246.
\<close>

theorem sample_draws_scaled_frame:
  assumes "videoWidth v \<noteq> 0" and "origin_clean v"
    and "videoWidth v < 2 ^ 32" and "videoHeight v < 2 ^ 23"
  shows "sample v c =
           (Drawn \<lparr>source = node v, image_width = 480, image_height = scaled_height v\<rparr>,
            \<lparr>canvas_width = 480, canvas_height = scaled_height v\<rparr>) \<and>
         (if (480 * videoHeight v) mod videoWidth v = 0
          then scaled_height v = (480 * videoHeight v) div videoWidth v \<or>
               scaled_height v = (480 * videoHeight v) div videoWidth v - 1
          else scaled_height v = (480 * videoHeight v) div videoWidth v) \<and>
         scaled_height v * videoWidth v \<le> 480 * videoHeight v \<and>
         480 * videoHeight v < (scaled_height v + 2) * videoWidth v"
  using assms scaled_height_ratio [of v] scaled_height_cases [of v]
  by (simp add: sample_def Let_def MAX_WIDTH_def)

theorem sample_draws_scaled_frame_witness:
  "sample \<lparr>node = 3, readyState = 4, offsetHeight = 180, offsetWidth = 320, videoWidth = 640,
            videoHeight = 328, monitorId = None,
            bounds = \<lparr>rect_left = 0, rect_top = 0, rect_width = 320, rect_height = 180\<rparr>,
            origin_clean = True\<rparr> \<lparr>canvas_width = 300, canvas_height = 150\<rparr> =
     (Drawn \<lparr>source = 3, image_width = 480, image_height = 245\<rparr>,
      \<lparr>canvas_width = 480, canvas_height = 245\<rparr>)"
  using sample_draws_scaled_frame
    [of "\<lparr>node = 3, readyState = 4, offsetHeight = 180, offsetWidth = 320, videoWidth = 640,
            videoHeight = 328, monitorId = None,
            bounds = \<lparr>rect_left = 0, rect_top = 0, rect_width = 320, rect_height = 180\<rparr>,
            origin_clean = True\<rparr>" "\<lparr>canvas_width = 300, canvas_height = 150\<rparr>"]
  by (simp add: scaled_height_def MAX_WIDTH_def double_eval)

text \<open>
  C19. A video without decoded width is skipped, and only such a video: nothing is drawn,
  the canvas keeps its size, and no error is raised.
\<close>

theorem sample_skips_zero_width:
  "(fst (sample v c) = Skipped) = (videoWidth v = 0) \<and>
   (if videoWidth v = 0 then snd (sample v c) = c else canvas_width (snd (sample v c)) = 480)"
  by (simp add: sample_def Let_def MAX_WIDTH_def)

end
