(* ===== verification/Overlay.thy ===== *)
theory Overlay
  imports JsValue Dom
begin

text \<open>
  The overlay renderer: \<^verbatim>\<open>updateOverlay\<close> in two halves. The synchronous half finds the
  video, finds or creates the overlay element, reads the bounding rectangle and picks
  the colour; the half passed to \<^verbatim>\<open>requestAnimationFrame\<close> runs at the next paint and
  writes the style and the label. The page record extends the document by the queue of
  callbacks waiting for the next paint.
\<close>

section \<open>The callback queue\<close>

record raf =
  raf_target :: nat          \<comment> \<open>the overlay element the closure holds, by address\<close>
  raf_rect :: rect      \<comment> \<open>\<^verbatim>\<open>videoRect\<close>, read before the callback was queued\<close>
  raf_colour :: string       \<comment> \<open>\<^verbatim>\<open>statusColor\<close>\<close>
  raf_result :: jsval      \<comment> \<open>\<^verbatim>\<open>result\<close>\<close>

record page = document +
  animation_queue :: "raf list"

section \<open>Colour and label\<close>

definition palette :: "(string \<times> string) list" where
  "palette = [(''Attentive'', ''#28a745''), (''Distracted'', ''#ffc107''),
              (''Inattentive'', ''#dc3545'')]"

text \<open>
  The colour table is an object literal, so a lookup that misses its three keys goes on
  to \<^verbatim>\<open>Object.prototype\<close>. The members found there are truthy, and the template literals
  render them with the text below.
\<close>

definition native :: "string \<Rightarrow> string" where
  "native f = ''function '' @ f @ ''() { [native code] }''"

definition object_prototype :: "(string \<times> string) list" where
  "object_prototype =
     [(''constructor'', native ''Object''),
      (''__defineGetter__'', native ''__defineGetter__''),
      (''__defineSetter__'', native ''__defineSetter__''),
      (''hasOwnProperty'', native ''hasOwnProperty''),
      (''__lookupGetter__'', native ''__lookupGetter__''),
      (''__lookupSetter__'', native ''__lookupSetter__''),
      (''isPrototypeOf'', native ''isPrototypeOf''),
      (''propertyIsEnumerable'', native ''propertyIsEnumerable''),
      (''toString'', native ''toString''),
      (''valueOf'', native ''valueOf''),
      (''__proto__'', ''[object Object]''),
      (''toLocaleString'', native ''toLocaleString'')]"

text \<open>\<^verbatim>\<open>{...}[result.status] || "#6c757d"\<close>, as the text the templates insert.\<close>

definition statusColor :: "jsval \<Rightarrow> string" where
  "statusColor status =
     (case map_of palette (to_str status) of
        Some c \<Rightarrow> c
      | None \<Rightarrow> (case map_of object_prototype (to_str status) of
                   Some member \<Rightarrow> member
                 | None \<Rightarrow> ''#6c757d''))"

text \<open>The template assigned to \<^verbatim>\<open>label.innerHTML\<close>.\<close>

definition label_html :: "jsval \<Rightarrow> string \<Rightarrow> string" where
  "label_html result col =
     ''<strong>'' @ to_str (js_get_opt result ''name'') @ ''</strong> | ''
     @ to_str (js_get_opt result ''score'') @ '' | <span style='' @ [CHR 0x22] @ ''color:''
     @ col @ '';'' @ [CHR 0x22] @ ''>'' @ to_str (js_get_opt result ''status'') @ ''</span>''"

text \<open>What the reader of the page sees of the label when the three parts hold no markup.\<close>

definition label_text :: "jsval \<Rightarrow> string" where
  "label_text result =
     to_str (js_get_opt result ''name'') @ '' | '' @ to_str (js_get_opt result ''score'')
     @ '' | '' @ to_str (js_get_opt result ''status'')"

text \<open>The text content of a piece of markup: everything outside the tags.\<close>

fun strip_tags :: "bool \<Rightarrow> string \<Rightarrow> string" where
  "strip_tags inside [] = []"
| "strip_tags inside (c # cs) =
     (if c = CHR ''<'' then strip_tags True cs
      else if c = CHR ''>'' then strip_tags False cs
      else if inside then strip_tags inside cs
      else c # strip_tags inside cs)"

text \<open>\<^verbatim>\<open>`overlay-${videoId}`\<close>\<close>

definition overlay_id :: "string \<Rightarrow> string" where
  "overlay_id vid = ''overlay-'' @ vid"

section \<open>The synchronous half\<close>

text \<open>\<^verbatim>\<open>requestAnimationFrame(callback)\<close>\<close>

definition requestAnimationFrame :: "raf \<Rightarrow> 'a page_scheme \<Rightarrow> 'a page_scheme" where
  "requestAnimationFrame r p = p\<lparr>animation_queue := animation_queue p @ [r]\<rparr>"

text \<open>
  Lines 98 to 112. The identity arrives as a value of the response and is spliced into
  the selector and the element id by template literals. Reading \<^verbatim>\<open>result.status\<close>
  throws when the result is \<^verbatim>\<open>null\<close> or \<^verbatim>\<open>undefined\<close>, after the element has been
  created; the state at the throw is returned with the error.
\<close>

definition updateOverlay ::
  "jsval \<Rightarrow> jsval \<Rightarrow> 'a page_scheme \<Rightarrow> js_error option \<times> 'a page_scheme" where
  "updateOverlay videoId result p =
     (case query_monitor_id (to_str videoId) p of
        None \<Rightarrow> (None, p)
      | Some videoEl \<Rightarrow>
          let found = ensure_overlay (overlay_id (to_str videoId)) p in
          (case js_get result ''status'' of
             Inl e \<Rightarrow> (Some e, snd found)
           | Inr status \<Rightarrow>
               (None, requestAnimationFrame
                  \<lparr>raf_target = fst found, raf_rect = bounds videoEl,
                    raf_colour = statusColor status, raf_result = result\<rparr> (snd found))))"

section \<open>The half that runs at the next paint\<close>

text \<open>
  Lines 113 to 132 for one queued callback. The scroll offset is read when the callback
  runs, the rectangle is the one read when it was queued. The label child is created on
  the first run; either way its markup is replaced.
\<close>

definition paint :: "raf \<Rightarrow> 'a document_scheme \<Rightarrow> 'a document_scheme" where
  "paint r d =
     (case node_at d (raf_target r) of
        None \<Rightarrow> d
      | Some n \<Rightarrow>
          d\<lparr>nodes := (nodes d)[raf_target r := n
               \<lparr>cssText := Some \<lparr>css_left = scrollX d + rect_left (raf_rect r),
                                 css_top = scrollY d + rect_top (raf_rect r),
                                 css_width = rect_width (raf_rect r),
                                 css_height = rect_height (raf_rect r),
                                 css_border = raf_colour r\<rparr>,
                 label := Some (label_html (raf_result r) (raf_colour r))\<rparr>]\<rparr>)"

text \<open>One animation frame: the queued callbacks run in the order they were queued.\<close>

definition run_frame :: "'a page_scheme \<Rightarrow> 'a page_scheme" where
  "run_frame p = (fold paint (animation_queue p) p)\<lparr>animation_queue := []\<rparr>"

section \<open>Well-formedness of a page\<close>

text \<open>
  The callbacks in the queue point at allocated elements, and no two overlays on the
  page share an element id.
\<close>

definition wf_page :: "'a page_scheme \<Rightarrow> bool" where
  "wf_page p \<longleftrightarrow>
     wf_document p \<and> list_all (\<lambda>r. raf_target r < length (nodes p)) (animation_queue p) \<and>
     distinct (map elem_id (shown p))"

section \<open>Facts about colour and label\<close>

lemma statusColor_known [simp]:
  "statusColor (JStr ''Attentive'') = ''#28a745''"
  "statusColor (JStr ''Distracted'') = ''#ffc107''"
  "statusColor (JStr ''Inattentive'') = ''#dc3545''"
  by (simp_all add: statusColor_def palette_def)

lemma statusColor_fallback:
  "to_str status \<notin> fst ` set palette \<Longrightarrow> to_str status \<notin> fst ` set object_prototype \<Longrightarrow>
   statusColor status = ''#6c757d''"
  by (simp add: statusColor_def map_of_eq_None_iff [THEN iffD2])

lemma statusColor_undefined [simp]: "statusColor JUndefined = ''#6c757d''"
  by (simp add: statusColor_def palette_def object_prototype_def)

lemma strip_tags_plain: "CHR ''<'' \<notin> set s \<Longrightarrow> CHR ''>'' \<notin> set s \<Longrightarrow> strip_tags False s = s"
  by (induction s) auto

lemma strip_tags_append_plain:
  "CHR ''<'' \<notin> set s \<Longrightarrow> CHR ''>'' \<notin> set s \<Longrightarrow> strip_tags False (s @ t) = s @ strip_tags False t"
  by (induction s) auto

lemma strip_tags_inside:
  "CHR ''<'' \<notin> set s \<Longrightarrow> CHR ''>'' \<notin> set s \<Longrightarrow> strip_tags True (s @ CHR ''>'' # t) = strip_tags False t"
  by (induction s) auto

section \<open>Facts about the synchronous half\<close>

text \<open>
  An operation of the document that leaves the extension alone leaves the queue alone:
  the interface through which the document's operations act on a page.
\<close>

lemma page_more_eq:
  fixes p p' :: "'a page_scheme"
  assumes "document.more p' = document.more p"
  shows "animation_queue p' = animation_queue p" and "page.more p' = page.more p"
  using assms by (cases p; cases p'; simp)+

lemmas remove_overlays_page [simp, frame] = page_more_eq [OF remove_overlays_more]

lemma queue_update_passes [simp]:
  "node_at (p\<lparr>animation_queue := q\<rparr>) = node_at p"
  "wf_document (p\<lparr>animation_queue := q\<rparr>) = wf_document p"
  "shown (p\<lparr>animation_queue := q\<rparr>) = shown p"
  "getElementById i (p\<lparr>animation_queue := q\<rparr>) = getElementById i p"
  "query_monitor_id vid (p\<lparr>animation_queue := q\<rparr>) = query_monitor_id vid p"
  by (rule document_eqs; simp)+

lemma requestAnimationFrame_frame [simp, frame]:
  "videos (requestAnimationFrame r p) = videos p"
  "nodes (requestAnimationFrame r p) = nodes p"
  "attached (requestAnimationFrame r p) = attached p"
  "scrollX (requestAnimationFrame r p) = scrollX p"
  "scrollY (requestAnimationFrame r p) = scrollY p"
  "page.more (requestAnimationFrame r p) = page.more p"
  "animation_queue (requestAnimationFrame r p) = animation_queue p @ [r]"
  "shown (requestAnimationFrame r p) = shown p"
  "wf_document (requestAnimationFrame r p) = wf_document p"
  by (simp_all add: requestAnimationFrame_def)

lemma ensure_overlay_page [simp, frame]:
  "animation_queue (snd (ensure_overlay i p)) = animation_queue p"
  "page.more (snd (ensure_overlay i p)) = page.more p"
  by (simp_all add: ensure_overlay_def create_overlay_def split: option.splits)

lemma js_get_ok: "v \<noteq> JUndefined \<Longrightarrow> v \<noteq> JNull \<Longrightarrow> js_get v k = ok (js_get_opt v k)"
  by (cases v) (auto simp: js_get_opt_def)

lemma truthy_js_get: "truthy v \<Longrightarrow> js_get v k = ok (js_get_opt v k)"
  by (rule js_get_ok) auto

lemma updateOverlay_no_video [simp]:
  "query_monitor_id (to_str videoId) p = None \<Longrightarrow> updateOverlay videoId result p = (None, p)"
  by (simp add: updateOverlay_def)

lemma updateOverlay_found:
  assumes "query_monitor_id (to_str videoId) p = Some v" and "truthy result"
  shows "updateOverlay videoId result p =
    (None, requestAnimationFrame
       \<lparr>raf_target = fst (ensure_overlay (overlay_id (to_str videoId)) p), raf_rect = bounds v,
         raf_colour = statusColor (js_get_opt result ''status''), raf_result = result\<rparr>
       (snd (ensure_overlay (overlay_id (to_str videoId)) p)))"
  using assms by (simp add: updateOverlay_def truthy_js_get Let_def)

lemma updateOverlay_nullish:
  assumes "query_monitor_id (to_str videoId) p = Some v" and "result = JNull \<or> result = JUndefined"
  shows "updateOverlay videoId result p =
    (Some TypeError, snd (ensure_overlay (overlay_id (to_str videoId)) p))"
  using assms by (auto simp: updateOverlay_def Let_def)

lemma updateOverlay_truthy_no_error: "truthy result \<Longrightarrow> fst (updateOverlay videoId result p) = None"
  by (cases "query_monitor_id (to_str videoId) p") (simp_all add: updateOverlay_found)

lemma updateOverlay_frame [simp, frame]:
  "videos (snd (updateOverlay videoId result p)) = videos p"
  "scrollX (snd (updateOverlay videoId result p)) = scrollX p"
  "scrollY (snd (updateOverlay videoId result p)) = scrollY p"
  by (simp_all add: updateOverlay_def Let_def split: option.splits sum.splits)

lemma updateOverlay_more [simp, frame]:
  "page.more (snd (updateOverlay videoId result p)) = page.more p"
  by (simp add: updateOverlay_def Let_def split: option.splits sum.splits)

lemma updateOverlay_shown:
  "shown (snd (updateOverlay videoId result p)) =
     (if query_monitor_id (to_str videoId) p = None then shown p
      else shown (snd (ensure_overlay (overlay_id (to_str videoId)) p)))"
  by (simp add: updateOverlay_def Let_def split: option.splits sum.splits)

lemma updateOverlay_wf_document:
  "wf_document p \<Longrightarrow> wf_document (snd (updateOverlay videoId result p))"
  by (simp add: updateOverlay_def Let_def wf_ensure_overlay split: option.splits sum.splits)

lemma updateOverlay_nodes_grow:
  "length (nodes p) \<le> length (nodes (snd (updateOverlay videoId result p)))"
  by (simp add: updateOverlay_def Let_def ensure_overlay_nodes_grow split: option.splits sum.splits)

lemma updateOverlay_queue:
  "set (animation_queue (snd (updateOverlay videoId result p))) \<subseteq>
     set (animation_queue p) \<union>
     {r. raf_target r = fst (ensure_overlay (overlay_id (to_str videoId)) p)
         \<and> query_monitor_id (to_str videoId) p \<noteq> None}"
  by (auto simp: updateOverlay_def Let_def split: option.splits sum.splits)

lemma wf_page_updateOverlay [inv_keep]:
  assumes "wf_page p"
  shows "wf_page (snd (updateOverlay videoId result p))"
proof -
  let ?p' = "snd (updateOverlay videoId result p)"
  let ?i = "overlay_id (to_str videoId)"
  from assms have wf: "wf_document p" and q: "\<forall>r\<in>set (animation_queue p). raf_target r < length (nodes p)"
    and d: "distinct (map elem_id (shown p))"
    by (simp_all add: wf_page_def list_all_iff)
  have 1: "wf_document ?p'" using wf by (rule updateOverlay_wf_document)
  have 2: "raf_target r < length (nodes ?p')" if "r \<in> set (animation_queue ?p')" for r
  proof (cases "r \<in> set (animation_queue p)")
    case True
    with q updateOverlay_nodes_grow [of p videoId result] show ?thesis by force
  next
    case False
    with that updateOverlay_queue [of videoId result p]
    have t: "raf_target r = fst (ensure_overlay ?i p)" and v: "query_monitor_id (to_str videoId) p \<noteq> None"
      by auto
    from v have "nodes ?p' = nodes (snd (ensure_overlay ?i p))"
      by (auto simp: updateOverlay_def Let_def split: sum.splits)
    with t ensure_overlay_allocated [OF wf, of ?i] show ?thesis by simp
  qed
  have 3: "distinct (map elem_id (shown ?p'))"
    using d by (simp add: updateOverlay_shown shown_ids_ensure_overlay [OF wf])
  from 1 2 3 show ?thesis by (simp add: wf_page_def list_all_iff)
qed

lemma shown_ids_updateOverlay:
  assumes "wf_page p"
  shows "set (map elem_id (shown (snd (updateOverlay videoId result p)))) =
    (if query_monitor_id (to_str videoId) p = None then set (map elem_id (shown p))
     else insert (overlay_id (to_str videoId)) (set (map elem_id (shown p))))"
proof -
  from assms have wf: "wf_document p" by (simp add: wf_page_def)
  have "set (map elem_id (shown (snd (ensure_overlay i p)))) = insert i (set (map elem_id (shown p)))"
    for i
    by (subst shown_ids_ensure_overlay [OF wf]) auto
  then show ?thesis by (simp add: updateOverlay_shown del: set_map)
qed

section \<open>Facts about painting\<close>

lemma paint_frame [simp, frame]:
  "videos (paint r d) = videos d"
  "attached (paint r d) = attached d"
  "scrollX (paint r d) = scrollX d"
  "scrollY (paint r d) = scrollY d"
  "length (nodes (paint r d)) = length (nodes d)"
  "map elem_id (nodes (paint r d)) = map elem_id (nodes d)"
  "map className (nodes (paint r d)) = map className (nodes d)"
  by (auto simp: paint_def node_at_def map_update list_update_same_conv split: option.splits)

lemma paint_more [simp, frame]: "document.more (paint r d) = document.more d"
  by (simp add: paint_def split: option.splits)

lemma paint_page [simp, frame]:
  "animation_queue (paint r p) = animation_queue p"
  "page.more (paint r p) = page.more p"
  by (simp_all add: paint_def split: option.splits)

lemma fold_paint_page [simp, frame]:
  "animation_queue (fold paint q p) = animation_queue p"
  "page.more (fold paint q p) = page.more p"
  by (induction q arbitrary: p) simp_all

lemma fold_paint_frame [simp, frame]:
  "videos (fold paint q d) = videos d"
  "attached (fold paint q d) = attached d"
  "scrollX (fold paint q d) = scrollX d"
  "scrollY (fold paint q d) = scrollY d"
  "length (nodes (fold paint q d)) = length (nodes d)"
  "map elem_id (nodes (fold paint q d)) = map elem_id (nodes d)"
  "map className (nodes (fold paint q d)) = map className (nodes d)"
  "document.more (fold paint q d) = document.more d"
  by (induction q arbitrary: d) simp_all

lemma run_frame_frame [simp, frame]:
  "videos (run_frame p) = videos p"
  "attached (run_frame p) = attached p"
  "scrollX (run_frame p) = scrollX p"
  "scrollY (run_frame p) = scrollY p"
  "animation_queue (run_frame p) = []"
  "length (nodes (run_frame p)) = length (nodes p)"
  "map elem_id (nodes (run_frame p)) = map elem_id (nodes p)"
  "map className (nodes (run_frame p)) = map className (nodes p)"
  by (simp_all add: run_frame_def)

lemma run_frame_more [simp, frame]: "page.more (run_frame p) = page.more p"
  by (simp add: run_frame_def)

lemma shown_ids_run_frame [simp]: "map elem_id (shown (run_frame p)) = map elem_id (shown p)"
  by (rule shown_cong) simp_all

lemma wf_document_nodes_cong:
  assumes "videos d' = videos d" and "attached d' = attached d"
    and "length (nodes d') = length (nodes d)"
    and "map className (nodes d') = map className (nodes d)"
  shows "wf_document d' = wf_document d"
proof -
  have "set (map className (nodes d')) = set (map className (nodes d))"
    using assms(4) by simp
  then have "(\<forall>n\<in>set (nodes d'). className n = c) = (\<forall>n\<in>set (nodes d). className n = c)" for c
    by (auto simp: image_iff)
  with assms show ?thesis by (simp add: wf_document_def list_all_iff)
qed

lemma wf_page_run_frame [inv_keep]: "wf_page p \<Longrightarrow> wf_page (run_frame p)"
  using wf_document_nodes_cong [of "run_frame p" p] by (simp add: wf_page_def)

lemma wf_page_remove_overlays [inv_keep]: "wf_page p \<Longrightarrow> wf_page (remove_overlays p)"
  by (simp add: wf_page_def wf_remove_overlays shown_def)

lemma node_at_paint:
  "node_at (paint r d) a =
     (if a = raf_target r then
        map_option (\<lambda>n. n\<lparr>cssText := Some \<lparr>css_left = scrollX d + rect_left (raf_rect r),
                                 css_top = scrollY d + rect_top (raf_rect r),
                                 css_width = rect_width (raf_rect r),
                                 css_height = rect_height (raf_rect r),
                                 css_border = raf_colour r\<rparr>,
                 label := Some (label_html (raf_result r) (raf_colour r))\<rparr>) (node_at d a)
      else node_at d a)"
  by (auto simp: paint_def node_at_def split: option.splits)

section \<open>The contract of the renderer\<close>

lemma getElementById_cong:
  assumes "attached d' = attached d" and "map elem_id (nodes d') = map elem_id (nodes d)"
  shows "getElementById i d' = getElementById i d"
proof -
  have len: "length (nodes d') = length (nodes d)"
    using assms(2) by (rule map_eq_imp_length_eq)
  have "elem_id (nodes d' ! a) = elem_id (nodes d ! a)" if "a < length (nodes d)" for a
    using that assms(2) len by (metis nth_map)
  then have "(case node_at d' a of Some n \<Rightarrow> elem_id n = i | None \<Rightarrow> False) =
             (case node_at d a of Some n \<Rightarrow> elem_id n = i | None \<Rightarrow> False)" for a
    by (simp add: node_at_def len)
  then show ?thesis by (simp add: getElementById_def assms(1))
qed

lemma paint_queue_comm:
  "paint r (p\<lparr>animation_queue := q\<rparr>) = (paint r p)\<lparr>animation_queue := q\<rparr>"
  by (simp add: paint_def split: option.splits)

lemma fold_paint_queue_comm:
  "fold paint rs (p\<lparr>animation_queue := q\<rparr>) = (fold paint rs p)\<lparr>animation_queue := q\<rparr>"
  by (induction rs arbitrary: p) (simp_all add: paint_queue_comm)

lemma run_frame_snoc:
  "run_frame (requestAnimationFrame r p) =
     (paint r (fold paint (animation_queue p) p))\<lparr>animation_queue := []\<rparr>"
  by (simp add: run_frame_def requestAnimationFrame_def fold_paint_queue_comm paint_queue_comm)

lemma node_at_fold_paint:
  assumes "node_at d a = Some n"
  shows "\<exists>n'. node_at (fold paint q d) a = Some n' \<and> elem_id n' = elem_id n \<and>
              className n' = className n"
proof -
  from assms have a: "a < length (nodes d)" and n: "n = nodes d ! a"
    by (auto simp: node_at_Some_iff)
  have "elem_id (nodes (fold paint q d) ! a) = elem_id (nodes d ! a)"
    using a fold_paint_frame(6) [of q d] by (metis fold_paint_frame(5) nth_map)
  moreover have "className (nodes (fold paint q d) ! a) = className (nodes d ! a)"
    using a fold_paint_frame(7) [of q d] by (metis fold_paint_frame(5) nth_map)
  ultimately show ?thesis using a n by (simp add: node_at_def)
qed

text \<open>A paint reads the elements, the queue and the scroll offset, and nothing else.\<close>

lemma nodes_paint_cong:
  "nodes d' = nodes d \<Longrightarrow> scrollX d' = scrollX d \<Longrightarrow> scrollY d' = scrollY d \<Longrightarrow>
   nodes (paint r d') = nodes (paint r d)"
  by (simp add: paint_def node_at_def)

lemma nodes_fold_paint_cong:
  "nodes d' = nodes d \<Longrightarrow> scrollX d' = scrollX d \<Longrightarrow> scrollY d' = scrollY d \<Longrightarrow>
   nodes (fold paint q d') = nodes (fold paint q d)"
proof (induction q arbitrary: d d')
  case Nil
  then show ?case by simp
next
  case (Cons r q)
  from Cons.prems have "nodes (paint r d') = nodes (paint r d)" by (rule nodes_paint_cong)
  moreover from Cons.prems have "scrollX (paint r d') = scrollX (paint r d)"
    and "scrollY (paint r d') = scrollY (paint r d)"
    by simp_all
  ultimately have "nodes (fold paint q (paint r d')) = nodes (fold paint q (paint r d))"
    by (rule Cons.IH)
  then show ?case by simp
qed

lemma nodes_run_frame_cong:
  assumes "nodes p' = nodes p" and "animation_queue p' = animation_queue p"
    and "scrollX p' = scrollX p" and "scrollY p' = scrollY p"
  shows "nodes (run_frame p') = nodes (run_frame p)"
  using nodes_fold_paint_cong [OF assms(1,3,4)] by (simp add: run_frame_def assms(2))

text \<open>The element of an overlay after the paint that follows its judgment.\<close>

lemma drawn_at_next_paint:
  assumes "wf_page p" and "query_monitor_id (to_str videoId) p = Some v" and "truthy result"
  shows "Option.bind (getElementById (overlay_id (to_str videoId))
                        (run_frame (snd (updateOverlay videoId result p))))
           (node_at (run_frame (snd (updateOverlay videoId result p)))) =
         Some \<lparr>elem_id = overlay_id (to_str videoId), className = ''monitor-overlay'',
                cssText = Some \<lparr>css_left = scrollX p + rect_left (bounds v),
                                 css_top = scrollY p + rect_top (bounds v),
                                 css_width = rect_width (bounds v),
                                 css_height = rect_height (bounds v),
                                 css_border = statusColor (js_get_opt result ''status'')\<rparr>,
                label = Some (label_html result (statusColor (js_get_opt result ''status'')))\<rparr> \<and>
         animation_queue (run_frame (snd (updateOverlay videoId result p))) = []"
proof -
  let ?i = "overlay_id (to_str videoId)"
  let ?a = "fst (ensure_overlay ?i p)" and ?p1 = "snd (ensure_overlay ?i p)"
  let ?r = "\<lparr>raf_target = ?a, raf_rect = bounds v,
             raf_colour = statusColor (js_get_opt result ''status''), raf_result = result\<rparr>"
  let ?p' = "run_frame (snd (updateOverlay videoId result p))"
  let ?y = "fold paint (animation_queue ?p1) ?p1"
  from assms(1) have wf: "wf_document p" by (simp add: wf_page_def)
  then have wf1: "wf_document ?p1" by (rule wf_ensure_overlay)
  have p': "?p' = (paint ?r ?y)\<lparr>animation_queue := []\<rparr>"
    using assms(2,3) by (simp add: updateOverlay_found run_frame_snoc)
  have found: "getElementById ?i ?p1 = Some ?a" using wf by (rule ensure_overlay_found)
  then obtain n where n: "node_at ?p1 ?a = Some n" "elem_id n = ?i"
    by (auto dest: getElementById_Some)
  with wf1 have cls: "className n = ''monitor-overlay''"
    by (auto simp: wf_document_def list_all_iff node_at_Some_iff)
  from node_at_fold_paint [OF n(1), of "animation_queue ?p1"] n(2) cls obtain n'
    where n': "node_at ?y ?a = Some n'" "elem_id n' = ?i" "className n' = ''monitor-overlay''"
    by auto
  have "getElementById ?i ?p' = getElementById ?i ?p1"
    unfolding p' by (rule getElementById_cong) simp_all
  with found n' show ?thesis
    by (simp add: p' node_at_paint node_at_eq [of "_\<lparr>animation_queue := []\<rparr>" "paint ?r ?y"])
qed

text \<open>
  C14. A judgment for a participant whose video is on the page is drawn at the next
  paint. The page then has the element \<^verbatim>\<open>overlay-<id>\<close>; its style places it on the
  rectangle the video had when the judgment arrived, shifted by the scroll offset at the
  paint, with a border in the colour of the status, and its label is the markup made of
  name, score and status. Nothing is left in the queue.
\<close>

theorem judgment_is_drawn:
  assumes "wf_page p" and "query_monitor_id (to_str videoId) p = Some v" and "truthy result"
  shows "Option.bind (getElementById (overlay_id (to_str videoId))
                        (run_frame (snd (updateOverlay videoId result p))))
           (node_at (run_frame (snd (updateOverlay videoId result p)))) =
         Some \<lparr>elem_id = overlay_id (to_str videoId), className = ''monitor-overlay'',
                cssText = Some \<lparr>css_left = scrollX p + rect_left (bounds v),
                                 css_top = scrollY p + rect_top (bounds v),
                                 css_width = rect_width (bounds v),
                                 css_height = rect_height (bounds v),
                                 css_border = statusColor (js_get_opt result ''status'')\<rparr>,
                label = Some (label_html result (statusColor (js_get_opt result ''status'')))\<rparr> \<and>
         animation_queue (run_frame (snd (updateOverlay videoId result p))) = []"
  using assms by (rule drawn_at_next_paint)

theorem judgment_is_drawn_witness:
  "Option.bind (getElementById (overlay_id (to_str (JStr ''p-1'')))
      (run_frame (snd (updateOverlay (JStr ''p-1'')
         (JObj [(''name'', JStr ''Alice''), (''score'', JNum 92), (''status'', JStr ''Attentive'')])
         \<lparr>videos = [\<lparr>node = 0, readyState = 4, offsetHeight = 180, offsetWidth = 320,
              videoWidth = 640, videoHeight = 360, monitorId = Some ''p-1'',
              bounds = \<lparr>rect_left = 10, rect_top = 20, rect_width = 320, rect_height = 180\<rparr>,
              origin_clean = True\<rparr>],
           nodes = [], attached = [], scrollX = 0, scrollY = 5, animation_queue = []\<rparr>))))
     (node_at (run_frame (snd (updateOverlay (JStr ''p-1'')
         (JObj [(''name'', JStr ''Alice''), (''score'', JNum 92), (''status'', JStr ''Attentive'')])
         \<lparr>videos = [\<lparr>node = 0, readyState = 4, offsetHeight = 180, offsetWidth = 320,
              videoWidth = 640, videoHeight = 360, monitorId = Some ''p-1'',
              bounds = \<lparr>rect_left = 10, rect_top = 20, rect_width = 320, rect_height = 180\<rparr>,
              origin_clean = True\<rparr>],
           nodes = [], attached = [], scrollX = 0, scrollY = 5, animation_queue = []\<rparr>)))) =
   Some \<lparr>elem_id = ''overlay-p-1'', className = ''monitor-overlay'',
          cssText = Some \<lparr>css_left = 10, css_top = 25, css_width = 320, css_height = 180,
                           css_border = ''#28a745''\<rparr>,
          label = Some (label_html
            (JObj [(''name'', JStr ''Alice''), (''score'', JNum 92), (''status'', JStr ''Attentive'')])
            ''#28a745'')\<rparr>"
  using judgment_is_drawn [of
      "\<lparr>videos = [\<lparr>node = 0, readyState = 4, offsetHeight = 180, offsetWidth = 320,
              videoWidth = 640, videoHeight = 360, monitorId = Some ''p-1'',
              bounds = \<lparr>rect_left = 10, rect_top = 20, rect_width = 320, rect_height = 180\<rparr>,
              origin_clean = True\<rparr>],
           nodes = [], attached = [], scrollX = 0, scrollY = 5, animation_queue = []\<rparr>"
      "JStr ''p-1''" _
      "JObj [(''name'', JStr ''Alice''), (''score'', JNum 92), (''status'', JStr ''Attentive'')]"]
  by (simp add: wf_page_def wf_document_def shown_def query_monitor_id_def overlay_id_def
      js_get_opt_def)

section \<open>Colour and label of a judgment\<close>

text \<open>
  C23. The colour of a status: green, yellow and red for the three keys of the table, the
  text of the inherited member for a status that names a member of \<^verbatim>\<open>Object.prototype\<close>,
  and grey for every other status, the missing one included.
\<close>

theorem statusColor_total:
  "statusColor status =
     (if to_str status = ''Attentive'' then ''#28a745''
      else if to_str status = ''Distracted'' then ''#ffc107''
      else if to_str status = ''Inattentive'' then ''#dc3545''
      else if to_str status \<in> fst ` set object_prototype
        then the (map_of object_prototype (to_str status))
      else ''#6c757d'') \<and>
   statusColor JUndefined = ''#6c757d''"
proof (cases "to_str status \<in> fst ` set object_prototype")
  case True
  then obtain m where "map_of object_prototype (to_str status) = Some m"
    by (metis map_of_eq_None_iff not_Some_eq)
  moreover from True have "to_str status \<notin> {''Attentive'', ''Distracted'', ''Inattentive''}"
    by (auto simp: object_prototype_def)
  ultimately show ?thesis using True by (simp add: statusColor_def [of status] palette_def)
next
  case False
  then have "map_of object_prototype (to_str status) = None" by (simp add: map_of_eq_None_iff)
  then show ?thesis using False by (simp add: statusColor_def [of status] palette_def)
qed

definition plain :: "string \<Rightarrow> bool" where
  "plain s \<longleftrightarrow> CHR ''<'' \<notin> set s \<and> CHR ''>'' \<notin> set s"

lemma strip_tags_plain_append [simp]:
  "plain s \<Longrightarrow> strip_tags False (s @ t) = s @ strip_tags False t"
  by (simp add: plain_def strip_tags_append_plain)

lemma strip_tags_skip_plain [simp]: "plain s \<Longrightarrow> strip_tags True (s @ t) = strip_tags True t"
  by (induction s) (auto simp: plain_def)

lemma plain_statusColor [simp]: "plain (statusColor status)"
proof -
  have "statusColor status \<in> snd ` set palette \<union> snd ` set object_prototype \<union> {''#6c757d''}"
    by (auto simp: statusColor_def split: option.splits dest!: map_of_SomeD intro: rev_image_eqI)
  then show ?thesis
    by (auto simp: palette_def object_prototype_def native_def plain_def)
qed

text \<open>
  C24. When name, score and status hold no angle bracket, the text of the label, read
  with the tags taken out, is \<^verbatim>\<open>name | score | status\<close>.
\<close>

theorem label_reads_name_score_status:
  assumes "plain (to_str (js_get_opt result ''name''))"
    and "plain (to_str (js_get_opt result ''score''))"
    and "plain (to_str (js_get_opt result ''status''))"
  shows "strip_tags False (label_html result (statusColor (js_get_opt result ''status''))) =
         label_text result"
  using assms by (simp add: label_html_def label_text_def)

theorem label_reads_name_score_status_witness:
  "strip_tags False (label_html
      (JObj [(''name'', JStr ''Alice''), (''score'', JNum 92), (''status'', JStr ''Attentive'')])
      (statusColor (js_get_opt
         (JObj [(''name'', JStr ''Alice''), (''score'', JNum 92), (''status'', JStr ''Attentive'')])
         ''status''))) = ''Alice | 92 | Attentive''"
  using label_reads_name_score_status
    [of "JObj [(''name'', JStr ''Alice''), (''score'', JNum 92), (''status'', JStr ''Attentive'')]"]
  by (simp add: plain_def js_get_opt_def label_text_def show_int_def show_nat.simps
      digit_char_def)

text \<open>
  The label is assigned to \<^verbatim>\<open>innerHTML\<close> as it comes, so the hypothesis of the theorem
  is needed: a name that holds markup is part of the markup of the page, and the reader
  of the label does not see it as text.
\<close>

lemma label_markup_is_not_escaped:
  "label_html (JObj [(''name'', JStr ''<img src=x onerror=alert(1)>''), (''score'', JNum 0),
                     (''status'', JStr ''Attentive'')]) ''#28a745'' =
     ''<strong><img src=x onerror=alert(1)></strong> | 0 | <span style='' @ [CHR 0x22] @
     ''color:#28a745;'' @ [CHR 0x22] @ ''>Attentive</span>'' \<and>
   strip_tags False (label_html (JObj [(''name'', JStr ''<img src=x onerror=alert(1)>''),
       (''score'', JNum 0), (''status'', JStr ''Attentive'')]) ''#28a745'') = '' | 0 | Attentive''"
  by (simp add: label_html_def js_get_opt_def show_int_def show_nat.simps digit_char_def)

end
