(* ===== verification/Gateway.thy ===== *)
theory Gateway
  imports Sampler Overlay
begin

text \<open>
  The analysis request gateway: \<^verbatim>\<open>captureAndSendFrame\<close>. Its synchronous half samples
  the video and issues the request; the half after the two \<^verbatim>\<open>await\<close>s runs when the
  response has arrived and been parsed, and hands the judgment to the overlay renderer.
  Everything the \<^verbatim>\<open>try\<close> block can throw ends in the \<^verbatim>\<open>catch\<close>, which logs it. The
  tab record extends the page by the canvas, the requests in flight and the console.
\<close>

section \<open>Requests, outcomes, promises\<close>

record request =
  request_id :: nat
  cycle :: nat           \<comment> \<open>the invocation of \<^verbatim>\<open>runAnalysisCycle\<close> whose promise list holds it\<close>
  student_id :: string   \<comment> \<open>the \<^verbatim>\<open>student_id\<close> of the body\<close>
  image :: frame         \<comment> \<open>the \<^verbatim>\<open>image\<close> of the body\<close>

text \<open>What the network does with a request: it fails, or it answers with a status and a
  body that \<^verbatim>\<open>response.json()\<close> can parse or not.\<close>

datatype outcome = Unreachable | Answered nat "jsval option"

text \<open>The state of the promise a call of \<^verbatim>\<open>captureAndSendFrame\<close> returns when it yields.\<close>

datatype promise = Settled | Failed js_error | Awaiting nat

record tab = page +
  canvasElement :: canvas
  inflight :: "request list"
  next_request :: nat
  console :: "js_error list"   \<comment> \<open>the errors passed to \<^verbatim>\<open>console.error\<close>\<close>

section \<open>The synchronous half\<close>

text \<open>Lines 73 to 86, up to the first \<^verbatim>\<open>await\<close>.\<close>

definition captureAndSendFrame ::
  "string \<Rightarrow> video \<Rightarrow> nat \<Rightarrow> 'a tab_scheme \<Rightarrow> promise \<times> 'a tab_scheme" where
  "captureAndSendFrame videoId videoEl cyc t =
     (case sample videoEl (canvasElement t) of
        (Skipped, c) \<Rightarrow> (Settled, t)
      | (Blocked, c) \<Rightarrow> (Failed SecurityError, t\<lparr>canvasElement := c\<rparr>)
      | (Drawn img, c) \<Rightarrow>
          (Awaiting (next_request t),
           t\<lparr>canvasElement := c,
             inflight := inflight t @
               [\<lparr>request_id = next_request t, cycle = cyc, student_id = videoId, image = img\<rparr>],
             next_request := Suc (next_request t)\<rparr>))"

section \<open>The half after the response\<close>

definition console_error :: "js_error \<Rightarrow> 'a tab_scheme \<Rightarrow> 'a tab_scheme" where
  "console_error e t = t\<lparr>console := console t @ [e]\<rparr>"

text \<open>\<^verbatim>\<open>response.ok\<close>\<close>

definition response_ok :: "nat \<Rightarrow> bool" where
  "response_ok status \<longleftrightarrow> 200 \<le> status \<and> status \<le> 299"

text \<open>Lines 89 to 91, inside the \<^verbatim>\<open>try\<close>: the parsed body is in hand.\<close>

definition handle_body :: "jsval \<Rightarrow> 'a tab_scheme \<Rightarrow> 'a tab_scheme" where
  "handle_body data t =
     (case js_get data ''result'' of
        Inl e \<Rightarrow> console_error e t
      | Inr result \<Rightarrow>
          if truthy result then
            (case js_get data ''student_id'' of
               Inl e \<Rightarrow> console_error e t
             | Inr sid \<Rightarrow>
                 (case updateOverlay sid result t of
                    (None, t') \<Rightarrow> t'
                  | (Some e, t') \<Rightarrow> console_error e t'))
          else t)"

text \<open>Lines 87 to 94: from the settled \<^verbatim>\<open>fetch\<close> to the end of the function.\<close>

definition receive :: "outcome \<Rightarrow> 'a tab_scheme \<Rightarrow> 'a tab_scheme" where
  "receive out t =
     (case out of
        Unreachable \<Rightarrow> console_error NetworkError t
      | Answered status body \<Rightarrow>
          if \<not> response_ok status then console_error (ServerError status) t
          else (case body of
                  None \<Rightarrow> console_error SyntaxError t
                | Some data \<Rightarrow> handle_body data t))"

text \<open>An outcome that carries a judgment: a 2xx answer whose body has a truthy \<^verbatim>\<open>result\<close>.\<close>

definition judgment_of :: "outcome \<Rightarrow> (jsval \<times> jsval) option" where
  "judgment_of out =
     (case out of
        Answered status (Some data) \<Rightarrow>
          if response_ok status \<and> truthy (js_get_opt data ''result'')
          then Some (js_get_opt data ''student_id'', js_get_opt data ''result'') else None
      | _ \<Rightarrow> None)"

section \<open>The tab as an extension of the page\<close>

lemma tab_more_eq:
  fixes t t' :: "'a tab_scheme"
  assumes "page.more t' = page.more t"
  shows "canvasElement t' = canvasElement t" and "inflight t' = inflight t"
    and "next_request t' = next_request t" and "console t' = console t"
    and "tab.more t' = tab.more t"
  using assms by (cases t; cases t'; simp)+

lemmas run_frame_tab [simp, frame] = tab_more_eq [OF run_frame_more]
lemmas remove_overlays_tab [simp, frame] = tab_more_eq [OF remove_overlays_page(2)]
lemmas updateOverlay_tab [simp, frame] = tab_more_eq [OF updateOverlay_more]

section \<open>Facts about the synchronous half\<close>

lemma captureAndSendFrame_skipped:
  "videoWidth v = 0 \<Longrightarrow> captureAndSendFrame vid v cyc t = (Settled, t)"
  by (simp add: captureAndSendFrame_def)

lemma captureAndSendFrame_blocked:
  "videoWidth v \<noteq> 0 \<Longrightarrow> \<not> origin_clean v \<Longrightarrow>
   captureAndSendFrame vid v cyc t =
     (Failed SecurityError,
      t\<lparr>canvasElement := \<lparr>canvas_width = MAX_WIDTH, canvas_height = scaled_height v\<rparr>\<rparr>)"
  by (simp add: captureAndSendFrame_def sample_def)

lemma captureAndSendFrame_sent:
  "videoWidth v \<noteq> 0 \<Longrightarrow> origin_clean v \<Longrightarrow>
   captureAndSendFrame vid v cyc t =
     (Awaiting (next_request t),
      t\<lparr>canvasElement := \<lparr>canvas_width = MAX_WIDTH, canvas_height = scaled_height v\<rparr>,
        inflight := inflight t @
          [\<lparr>request_id = next_request t, cycle = cyc, student_id = vid,
            image = \<lparr>source = node v, image_width = MAX_WIDTH, image_height = scaled_height v\<rparr>\<rparr>],
        next_request := Suc (next_request t)\<rparr>)"
  by (simp add: captureAndSendFrame_def sample_def)

lemmas captureAndSendFrame_cases =
  captureAndSendFrame_skipped captureAndSendFrame_blocked captureAndSendFrame_sent

lemma captureAndSendFrame_page [simp, frame]:
  "videos (snd (captureAndSendFrame vid v cyc t)) = videos t"
  "nodes (snd (captureAndSendFrame vid v cyc t)) = nodes t"
  "attached (snd (captureAndSendFrame vid v cyc t)) = attached t"
  "scrollX (snd (captureAndSendFrame vid v cyc t)) = scrollX t"
  "scrollY (snd (captureAndSendFrame vid v cyc t)) = scrollY t"
  "animation_queue (snd (captureAndSendFrame vid v cyc t)) = animation_queue t"
  "console (snd (captureAndSendFrame vid v cyc t)) = console t"
  by (simp_all add: captureAndSendFrame_def split: prod.splits capture.splits)

lemma captureAndSendFrame_more [simp, frame]:
  "tab.more (snd (captureAndSendFrame vid v cyc t)) = tab.more t"
  by (simp add: captureAndSendFrame_def split: prod.splits capture.splits)

lemma captureAndSendFrame_inflight:
  "inflight (snd (captureAndSendFrame vid v cyc t)) =
     (case fst (captureAndSendFrame vid v cyc t) of
        Awaiting r \<Rightarrow> inflight t @
          [\<lparr>request_id = r, cycle = cyc, student_id = vid,
            image = \<lparr>source = node v, image_width = MAX_WIDTH, image_height = scaled_height v\<rparr>\<rparr>]
      | _ \<Rightarrow> inflight t)"
  by (cases "videoWidth v = 0"; cases "origin_clean v") (simp_all add: captureAndSendFrame_cases)

lemma captureAndSendFrame_next_request:
  "next_request (snd (captureAndSendFrame vid v cyc t)) =
     (case fst (captureAndSendFrame vid v cyc t) of
        Awaiting r \<Rightarrow> Suc (next_request t) | _ \<Rightarrow> next_request t)"
  by (cases "videoWidth v = 0"; cases "origin_clean v") (simp_all add: captureAndSendFrame_cases)

lemma captureAndSendFrame_Awaiting:
  "fst (captureAndSendFrame vid v cyc t) = Awaiting r \<longleftrightarrow>
     videoWidth v \<noteq> 0 \<and> origin_clean v \<and> r = next_request t"
  by (cases "videoWidth v = 0"; cases "origin_clean v") (auto simp: captureAndSendFrame_cases)

lemma captureAndSendFrame_Failed:
  "fst (captureAndSendFrame vid v cyc t) = Failed e \<longleftrightarrow>
     videoWidth v \<noteq> 0 \<and> \<not> origin_clean v \<and> e = SecurityError"
  by (cases "videoWidth v = 0"; cases "origin_clean v") (auto simp: captureAndSendFrame_cases)

section \<open>Facts about the half after the response\<close>

lemma console_error_frame [simp, frame]:
  "videos (console_error e t) = videos t"
  "nodes (console_error e t) = nodes t"
  "attached (console_error e t) = attached t"
  "scrollX (console_error e t) = scrollX t"
  "scrollY (console_error e t) = scrollY t"
  "animation_queue (console_error e t) = animation_queue t"
  "canvasElement (console_error e t) = canvasElement t"
  "inflight (console_error e t) = inflight t"
  "next_request (console_error e t) = next_request t"
  "console (console_error e t) = console t @ [e]"
  "tab.more (console_error e t) = tab.more t"
  by (simp_all add: console_error_def)

text \<open>The page queries do not read the fields the tab adds.\<close>

lemma tab_update_passes [simp]:
  "shown (t\<lparr>console := es\<rparr>) = shown t"
  "shown (t\<lparr>inflight := rs\<rparr>) = shown t"
  "shown (t\<lparr>next_request := k\<rparr>) = shown t"
  "shown (t\<lparr>canvasElement := c\<rparr>) = shown t"
  "wf_document (t\<lparr>console := es\<rparr>) = wf_document t"
  "wf_document (t\<lparr>inflight := rs\<rparr>) = wf_document t"
  "wf_document (t\<lparr>next_request := k\<rparr>) = wf_document t"
  "wf_document (t\<lparr>canvasElement := c\<rparr>) = wf_document t"
  "getElementById i (t\<lparr>console := es\<rparr>) = getElementById i t"
  "getElementById i (t\<lparr>inflight := rs\<rparr>) = getElementById i t"
  "getElementById i (t\<lparr>next_request := k\<rparr>) = getElementById i t"
  "getElementById i (t\<lparr>canvasElement := c\<rparr>) = getElementById i t"
  "query_monitor_id vid (t\<lparr>console := es\<rparr>) = query_monitor_id vid t"
  "query_monitor_id vid (t\<lparr>inflight := rs\<rparr>) = query_monitor_id vid t"
  "query_monitor_id vid (t\<lparr>next_request := k\<rparr>) = query_monitor_id vid t"
  "query_monitor_id vid (t\<lparr>canvasElement := c\<rparr>) = query_monitor_id vid t"
  by (rule document_eqs; simp)+

lemma wf_page_tab_update [simp]:
  "wf_page (t\<lparr>console := es\<rparr>) = wf_page t"
  "wf_page (t\<lparr>inflight := rs\<rparr>) = wf_page t"
  "wf_page (t\<lparr>next_request := k\<rparr>) = wf_page t"
  "wf_page (t\<lparr>canvasElement := c\<rparr>) = wf_page t"
  by (simp_all add: wf_page_def)

lemma console_error_passes [simp]:
  "shown (console_error e t) = shown t"
  "wf_document (console_error e t) = wf_document t"
  "wf_page (console_error e t) = wf_page t"
  by (simp_all add: console_error_def)

text \<open>With a judgment in hand the half after the response is one call of the renderer.\<close>

lemma receive_judgment:
  assumes "judgment_of out = Some (sid, result)"
  shows "receive out t = snd (updateOverlay sid result t)"
proof -
  from assms obtain status data where out: "out = Answered status (Some data)"
    and ok: "response_ok status" and tr: "truthy (js_get_opt data ''result'')"
    and sid: "sid = js_get_opt data ''student_id''" and res: "result = js_get_opt data ''result''"
    by (auto simp: judgment_of_def split: outcome.splits option.splits if_splits)
  from tr have nn: "data \<noteq> JUndefined" "data \<noteq> JNull" by auto
  have "fst (updateOverlay sid result t) = None"
    using tr res by (simp add: updateOverlay_truthy_no_error)
  then obtain t' where "updateOverlay sid result t = (None, t')"
    by (cases "updateOverlay sid result t") auto
  then show ?thesis
    using out ok tr sid res nn by (simp add: receive_def handle_body_def js_get_ok)
qed

text \<open>Without one it only writes to the console, or does nothing at all.\<close>

lemma receive_no_judgment:
  assumes "judgment_of out = None"
  shows "\<exists>es. receive out t = t\<lparr>console := console t @ es\<rparr>"
proof (cases out)
  case Unreachable
  then show ?thesis by (auto simp: receive_def console_error_def)
next
  case (Answered status body)
  show ?thesis
  proof (cases "response_ok status")
    case False
    with Answered show ?thesis by (auto simp: receive_def console_error_def)
  next
    case True
    show ?thesis
    proof (cases body)
      case None
      with Answered True show ?thesis by (auto simp: receive_def console_error_def)
    next
      case (Some data)
      with assms Answered True have nt: "\<not> truthy (js_get_opt data ''result'')"
        by (simp add: judgment_of_def split: if_splits)
      have "handle_body data t = t \<or> handle_body data t = console_error TypeError t"
        using nt by (cases data) (auto simp: handle_body_def js_get_opt_def)
      then have "\<exists>es. handle_body data t = t\<lparr>console := console t @ es\<rparr>"
        by (auto simp: console_error_def intro: exI [of _ "[]"])
      with Answered True Some show ?thesis by (simp add: receive_def)
    qed
  qed
qed

lemma judgment_of_truthy: "judgment_of out = Some (sid, result) \<Longrightarrow> truthy result"
  by (auto simp: judgment_of_def split: outcome.splits option.splits if_splits)

lemma receive_shape:
  "(\<exists>es. judgment_of out = None \<and> receive out t = t\<lparr>console := console t @ es\<rparr>) \<or>
   (\<exists>sid result. judgment_of out = Some (sid, result) \<and> truthy result \<and>
      receive out t = snd (updateOverlay sid result t))"
proof (cases "judgment_of out")
  case None
  then show ?thesis using receive_no_judgment [of out t] by blast
next
  case (Some j)
  obtain sid result where j: "j = (sid, result)" by (cases j)
  with Some have "truthy result" and "receive out t = snd (updateOverlay sid result t)"
    by (auto intro: judgment_of_truthy receive_judgment)
  with Some j show ?thesis by blast
qed

lemma receive_frame [simp, frame]:
  "videos (receive out t) = videos t"
  "scrollX (receive out t) = scrollX t"
  "scrollY (receive out t) = scrollY t"
  "canvasElement (receive out t) = canvasElement t"
  "inflight (receive out t) = inflight t"
  "next_request (receive out t) = next_request t"
  using receive_shape [of out t] by auto

lemma receive_more [simp, frame]: "tab.more (receive out t) = tab.more t"
  using receive_shape [of out t] by auto

lemma wf_page_receive [inv_keep]: "wf_page t \<Longrightarrow> wf_page (receive out t)"
  using receive_shape [of out t] by (auto simp: wf_page_updateOverlay)

lemma receive_shown_quiet: "judgment_of out = None \<Longrightarrow> shown (receive out t) = shown t"
  using receive_shape [of out t] by auto

end
