(* ===== verification/Samples.thy ===== *)
theory Samples
  imports Gateway
begin

text \<open>
  Concrete videos and responses, on which the theorems of the other theories are
  instantiated.
\<close>

section \<open>Sample data\<close>

text \<open>
  A participant tile of 320 by 180 pixels that plays a 640 by 360 stream; the tiles lie in
  a row.
\<close>

definition tile :: "nat \<Rightarrow> video" where
  "tile n =
     \<lparr>node = n, readyState = 4, offsetHeight = 180, offsetWidth = 320,
      videoWidth = 640, videoHeight = 360, monitorId = None,
      bounds = \<lparr>rect_left = 10 + 330 * int n, rect_top = 20, rect_width = 320,
                rect_height = 180\<rparr>,
      origin_clean = True\<rparr>"

text \<open>A tile whose stream comes from another origin, so that drawing it taints the canvas.\<close>

definition foreign_tile :: "nat \<Rightarrow> video" where
  "foreign_tile n = (tile n)\<lparr>origin_clean := False\<rparr>"

text \<open>A filmstrip thumbnail: tall enough for \<^verbatim>\<open>startAnalysis\<close>, too narrow for the cycle.\<close>

definition thumbnail :: "nat \<Rightarrow> video" where
  "thumbnail n = (tile n)\<lparr>offsetWidth := 80\<rparr>"

text \<open>The body \<^verbatim>\<open>{student_id, result: {name, score, status}}\<close> with status 200.\<close>

definition verdict :: "string \<Rightarrow> string \<Rightarrow> int \<Rightarrow> string \<Rightarrow> outcome" where
  "verdict sid name score status =
     Answered 200 (Some (JObj [(''student_id'', JStr sid),
       (''result'', JObj [(''name'', JStr name), (''score'', JNum score),
                          (''status'', JStr status)])]))"

text \<open>The stream of a tile is drawn 270 rows high: \<open>360 / 640\<close> is a double.\<close>

lemma scaled_height_tile:
  "videoWidth v = 640 \<Longrightarrow> videoHeight v = 360 \<Longrightarrow> scaled_height v = 270"
  by (simp add: scaled_height_def MAX_WIDTH_def double_eval)

lemmas sample_data = tile_def foreign_tile_def thumbnail_def verdict_def scaled_height_tile

end
