(* ===== verification/Content.thy ===== *)
theory Content
  imports Identity Gateway Samples
begin

text \<open>
  The content script as a whole: its two global variables, the message listener,
  \<^verbatim>\<open>startAnalysis\<close>, \<^verbatim>\<open>stopAnalysis\<close> and \<^verbatim>\<open>runAnalysisCycle\<close>, and the event loop
  of the tab that drives them. A task of the event loop runs to completion, so each
  event below is one atomic step: a message from the control panel, the arrival of a
  response, the firing of a timer, an animation frame, and the moves of the host page
  and of the clock. The world record extends the tab by the script's globals, the
  pending timers, the cycles suspended at their barrier and the clock.
\<close>

section \<open>State\<close>

text \<open>
  What the listener passes to \<^verbatim>\<open>sendResponse\<close>: \<^verbatim>\<open>{status: 'success'}\<close>,
  \<^verbatim>\<open>{status: 'error', message}\<close> and \<^verbatim>\<open>{status: 'stopped'}\<close>.
\<close>

datatype reply = Succeeded | Refused string | Halted

record timer =
  timer_id :: nat
  due :: nat

record world = tab +
  isAnalyzing :: bool
  analysisTimeoutId :: "nat option"   \<comment> \<open>\<open>None\<close> is \<^verbatim>\<open>undefined\<close>\<close>
  timers :: "timer list"              \<comment> \<open>the timeouts that have not fired\<close>
  next_timer :: nat
  waiting :: "nat list"               \<comment> \<open>cycles suspended at \<^verbatim>\<open>await Promise.all(...)\<close>\<close>
  next_cycle :: nat
  now :: nat                          \<comment> \<open>\<^verbatim>\<open>Date.now()\<close>\<close>
  replies :: "reply list"             \<comment> \<open>what \<^verbatim>\<open>sendResponse\<close> has been called with\<close>

section \<open>Timers\<close>

text \<open>\<^verbatim>\<open>setTimeout(runAnalysisCycle, delay)\<close> returns the handle of a new pending timer.\<close>

definition setTimeout :: "nat \<Rightarrow> 'a world_scheme \<Rightarrow> nat \<times> 'a world_scheme" where
  "setTimeout delay w =
     (next_timer w,
      w\<lparr>timers := timers w @ [\<lparr>timer_id = next_timer w, due = now w + delay\<rparr>],
        next_timer := Suc (next_timer w)\<rparr>)"

text \<open>\<^verbatim>\<open>clearTimeout(handle)\<close>: nothing happens for \<^verbatim>\<open>undefined\<close> or a timer that has fired.\<close>

definition clearTimeout :: "nat option \<Rightarrow> 'a world_scheme \<Rightarrow> 'a world_scheme" where
  "clearTimeout h w =
     (case h of None \<Rightarrow> w
      | Some i \<Rightarrow> w\<lparr>timers := filter (\<lambda>t. timer_id t \<noteq> i) (timers w)\<rparr>)"

section \<open>The cycle\<close>

text \<open>
  The body of the \<^verbatim>\<open>forEach\<close> callback for the video at position \<open>k\<close> (lines 55 to
  62): the promises it pushes (none or one) and the state after it.
\<close>

definition visit :: "nat \<Rightarrow> nat \<Rightarrow> 'a world_scheme \<Rightarrow> promise list \<times> 'a world_scheme" where
  "visit cyc k w =
     (let videoEl = videos w ! k in
      if eligible videoEl then
        let stamped = ensure_id (now w) k videoEl;
            sent = captureAndSendFrame (id_of (now w) k videoEl) stamped cyc
                     (w\<lparr>videos := (videos w)[k := stamped]\<rparr>)
        in ([fst sent], snd sent)
      else ([], w))"

text \<open>\<^verbatim>\<open>forEach\<close> over the positions of a static node list, collecting what the body pushes.\<close>

fun forEach :: "(nat \<Rightarrow> 's \<Rightarrow> 'p list \<times> 's) \<Rightarrow> nat list \<Rightarrow> 's \<Rightarrow> 'p list \<times> 's" where
  "forEach body [] s = ([], s)"
| "forEach body (k # ks) s =
     (let r = body k s; r' = forEach body ks (snd r) in (fst r @ fst r', snd r'))"

text \<open>Lines 67 to 69: what runs once the barrier has been passed.\<close>

definition schedule_next :: "'a world_scheme \<Rightarrow> 'a world_scheme" where
  "schedule_next w =
     (if isAnalyzing w
      then let t = setTimeout 1000 w in (snd t)\<lparr>analysisTimeoutId := Some (fst t)\<rparr>
      else w)"

definition is_failed :: "promise \<Rightarrow> bool" where
  "is_failed p \<longleftrightarrow> (case p of Failed e \<Rightarrow> True | _ \<Rightarrow> False)"

text \<open>
  \<^verbatim>\<open>await Promise.all(analysisPromises)\<close> at the moment the synchronous part ends. A
  rejected promise rejects the whole: the rest of the function never runs. If nothing is
  pending the rest runs in the same task. Otherwise the cycle is suspended.
\<close>

definition await_all :: "nat \<Rightarrow> promise list \<Rightarrow> 'a world_scheme \<Rightarrow> 'a world_scheme" where
  "await_all cyc ps w =
     (if list_ex is_failed ps then w
      else if list_all (\<lambda>p. p = Settled) ps then schedule_next w
      else w\<lparr>waiting := waiting w @ [cyc]\<rparr>)"

definition runAnalysisCycle :: "'a world_scheme \<Rightarrow> 'a world_scheme" where
  "runAnalysisCycle w =
     (if \<not> isAnalyzing w then w
      else
        let cyc = next_cycle w;
            looped = forEach (visit cyc) [0..<length (videos w)] (w\<lparr>next_cycle := Suc cyc\<rparr>)
        in await_all cyc (fst looped) (snd looped))"

section \<open>Start and stop\<close>

definition startAnalysis :: "'a world_scheme \<Rightarrow> reply \<times> 'a world_scheme" where
  "startAnalysis w =
     (if isAnalyzing w then (Refused ''Analysis is already running.'', w)
      else if visibleVideos (videos w) = [] then (Refused ''No participant videos found.'', w)
      else (Succeeded, runAnalysisCycle (w\<lparr>isAnalyzing := True\<rparr>)))"

definition stopAnalysis :: "'a world_scheme \<Rightarrow> 'a world_scheme" where
  "stopAnalysis w =
     (if \<not> isAnalyzing w then w
      else remove_overlays (clearTimeout (analysisTimeoutId w) (w\<lparr>isAnalyzing := False\<rparr>)))"

text \<open>The listener: a command other than the two it knows gets no answer.\<close>

definition onMessage :: "string \<Rightarrow> 'a world_scheme \<Rightarrow> 'a world_scheme" where
  "onMessage command w =
     (if command = ''start'' then
        let r = startAnalysis w in (snd r)\<lparr>replies := replies (snd r) @ [fst r]\<rparr>
      else if command = ''stop'' then
        (stopAnalysis w)\<lparr>replies := replies (stopAnalysis w) @ [Halted]\<rparr>
      else w)"

section \<open>The event loop\<close>

datatype event =
    Message string            \<comment> \<open>the control panel sends a command\<close>
  | Response nat outcome      \<comment> \<open>the request with this id is answered\<close>
  | Timeout nat               \<comment> \<open>the timer with this handle fires\<close>
  | Paint                     \<comment> \<open>an animation frame\<close>
  | Host "video list" int int \<comment> \<open>the host page changes its videos and scrolls\<close>
  | Tick nat                  \<comment> \<open>time passes\<close>

text \<open>
  The response to a request: the second half of \<^verbatim>\<open>captureAndSendFrame\<close> runs, its
  promise settles, and if it was the last one a suspended cycle was waiting for, that
  cycle passes its barrier in the same task.
\<close>

definition settle :: "nat \<Rightarrow> outcome \<Rightarrow> 'a world_scheme \<Rightarrow> 'a world_scheme option" where
  "settle rid out w =
     (case List.find (\<lambda>r. request_id r = rid) (inflight w) of
        None \<Rightarrow> None
      | Some r \<Rightarrow>
          let w1 = receive out w;
              w2 = w1\<lparr>inflight := filter (\<lambda>q. request_id q \<noteq> rid) (inflight w1)\<rparr>
          in if cycle r \<in> set (waiting w2) \<and> \<not> list_ex (\<lambda>q. cycle q = cycle r) (inflight w2)
             then Some (schedule_next (w2\<lparr>waiting := removeAll (cycle r) (waiting w2)\<rparr>))
             else Some w2)"

text \<open>A timer fires no earlier than it is due, once, and calls \<^verbatim>\<open>runAnalysisCycle\<close>.\<close>

definition fire :: "nat \<Rightarrow> 'a world_scheme \<Rightarrow> 'a world_scheme option" where
  "fire i w =
     (case List.find (\<lambda>t. timer_id t = i) (timers w) of
        None \<Rightarrow> None
      | Some t \<Rightarrow>
          if now w < due t then None
          else Some (runAnalysisCycle (w\<lparr>timers := filter (\<lambda>t. timer_id t \<noteq> i) (timers w)\<rparr>)))"

text \<open>
  What the host page may do to the videos: rearrange, change and remove them, and add new
  elements. It does not touch the attribute the script stamps, and a new element has
  none. A node occurs once in the tree.
\<close>

definition host_keeps :: "video list \<Rightarrow> video list \<Rightarrow> bool" where
  "host_keeps old new \<longleftrightarrow>
     distinct (map node new) \<and>
     list_all (\<lambda>v'. case List.find (\<lambda>v. node v = node v') old of
                       Some v \<Rightarrow> monitorId v' = monitorId v
                     | None \<Rightarrow> monitorId v' = None) new"

definition step :: "event \<Rightarrow> 'a world_scheme \<Rightarrow> 'a world_scheme option" where
  "step e w =
     (case e of
        Message command \<Rightarrow> Some (onMessage command w)
      | Response rid out \<Rightarrow> settle rid out w
      | Timeout i \<Rightarrow> fire i w
      | Paint \<Rightarrow> Some (run_frame w)
      | Host vs x y \<Rightarrow>
          if host_keeps (videos w) vs then Some (w\<lparr>videos := vs, scrollX := x, scrollY := y\<rparr>)
          else None
      | Tick n \<Rightarrow> Some (w\<lparr>now := now w + n\<rparr>))"

text \<open>A run: the events in order; \<open>None\<close> when one of them is not enabled.\<close>

fun run :: "event list \<Rightarrow> 'a world_scheme \<Rightarrow> 'a world_scheme option" where
  "run [] w = Some w"
| "run (e # es) w = (case step e w of None \<Rightarrow> None | Some w' \<Rightarrow> run es w')"

text \<open>The tab right after the script has been injected into a page with these videos.\<close>

definition boot :: "video list \<Rightarrow> world" where
  "boot vs =
     \<lparr>videos = vs, nodes = [], attached = [], scrollX = 0, scrollY = 0,
      animation_queue = [],
      canvasElement = \<lparr>canvas_width = 300, canvas_height = 150\<rparr>,
      inflight = [], next_request = 0, console = [],
      isAnalyzing = False, analysisTimeoutId = None, timers = [], next_timer = 1,
      waiting = [], next_cycle = 0, now = 0, replies = []\<rparr>"

definition fresh_page :: "video list \<Rightarrow> bool" where
  "fresh_page vs \<longleftrightarrow> distinct (map node vs) \<and> list_all (\<lambda>v. monitorId v = None) vs"

text \<open>
  The states the tab can be in: those an injection into a fresh page leads to by enabled
  events. The parameter says which events the environment may choose in which state, so
  that a property can be stated for all runs or for the runs of a disciplined
  environment.
\<close>

inductive reachable_by :: "(world \<Rightarrow> event \<Rightarrow> bool) \<Rightarrow> world \<Rightarrow> bool"
  for allowed :: "world \<Rightarrow> event \<Rightarrow> bool" where
  boot: "fresh_page vs \<Longrightarrow> reachable_by allowed (boot vs)"
| step: "reachable_by allowed w \<Longrightarrow> allowed w e \<Longrightarrow> step e w = Some w'
         \<Longrightarrow> reachable_by allowed w'"

definition any_event :: "world \<Rightarrow> event \<Rightarrow> bool" where
  "any_event w e \<longleftrightarrow> True"

abbreviation reachable :: "world \<Rightarrow> bool" where
  "reachable \<equiv> reachable_by any_event"

lemma is_failed_simps [simp]:
  "is_failed Settled = False" "is_failed (Failed e) = True" "is_failed (Awaiting r) = False"
  by (simp_all add: is_failed_def)

section \<open>The world as an extension of the tab\<close>

lemma world_more_eq:
  fixes w w' :: "'a world_scheme"
  assumes "tab.more w' = tab.more w"
  shows "isAnalyzing w' = isAnalyzing w" and "analysisTimeoutId w' = analysisTimeoutId w"
    and "timers w' = timers w" and "next_timer w' = next_timer w"
    and "waiting w' = waiting w" and "next_cycle w' = next_cycle w"
    and "now w' = now w" and "replies w' = replies w" and "world.more w' = world.more w"
  using assms by (cases w; cases w'; simp)+

lemmas receive_world [simp, frame] = world_more_eq [OF receive_more]
lemmas captureAndSendFrame_world [simp, frame] = world_more_eq [OF captureAndSendFrame_more]
lemmas run_frame_world [simp, frame] = world_more_eq [OF run_frame_tab(5)]
lemmas remove_overlays_world [simp, frame] = world_more_eq [OF remove_overlays_tab(5)]

lemma world_update_passes [simp]:
  "shown (w\<lparr>isAnalyzing := b\<rparr>) = shown w"
  "shown (w\<lparr>analysisTimeoutId := h\<rparr>) = shown w"
  "shown (w\<lparr>timers := ts\<rparr>) = shown w"
  "shown (w\<lparr>next_timer := k\<rparr>) = shown w"
  "shown (w\<lparr>waiting := cs\<rparr>) = shown w"
  "shown (w\<lparr>next_cycle := k\<rparr>) = shown w"
  "shown (w\<lparr>now := k\<rparr>) = shown w"
  "shown (w\<lparr>replies := rs\<rparr>) = shown w"
  "wf_document (w\<lparr>isAnalyzing := b\<rparr>) = wf_document w"
  "wf_document (w\<lparr>analysisTimeoutId := h\<rparr>) = wf_document w"
  "wf_document (w\<lparr>timers := ts\<rparr>) = wf_document w"
  "wf_document (w\<lparr>next_timer := k\<rparr>) = wf_document w"
  "wf_document (w\<lparr>waiting := cs\<rparr>) = wf_document w"
  "wf_document (w\<lparr>next_cycle := k\<rparr>) = wf_document w"
  "wf_document (w\<lparr>now := k\<rparr>) = wf_document w"
  "wf_document (w\<lparr>replies := rs\<rparr>) = wf_document w"
  by (rule document_eqs; simp)+

lemma wf_page_world_update [simp]:
  "wf_page (w\<lparr>isAnalyzing := b\<rparr>) = wf_page w"
  "wf_page (w\<lparr>analysisTimeoutId := h\<rparr>) = wf_page w"
  "wf_page (w\<lparr>timers := ts\<rparr>) = wf_page w"
  "wf_page (w\<lparr>next_timer := k\<rparr>) = wf_page w"
  "wf_page (w\<lparr>waiting := cs\<rparr>) = wf_page w"
  "wf_page (w\<lparr>next_cycle := k\<rparr>) = wf_page w"
  "wf_page (w\<lparr>now := k\<rparr>) = wf_page w"
  "wf_page (w\<lparr>replies := rs\<rparr>) = wf_page w"
  by (simp_all add: wf_page_def)

declare setTimeout_def [model_defs] clearTimeout_def [model_defs] schedule_next_def [model_defs]
  await_all_def [model_defs]

section \<open>One pass of the loop, as a function of the videos\<close>

text \<open>
  The reference for the \<^verbatim>\<open>forEach\<close> loop: structural recursion over the videos from
  position \<open>i\<close> on, with the next request id and the canvas threaded through. It yields
  the videos as stamped, the promises pushed, the requests issued and the canvas as the
  last sampled video left it.
\<close>

record pass =
  stamped :: "video list"
  promises :: "promise list"
  sent :: "request list"
  surface :: canvas

fun sweep :: "nat \<Rightarrow> nat \<Rightarrow> nat \<Rightarrow> nat \<Rightarrow> canvas \<Rightarrow> video list \<Rightarrow> pass" where
  "sweep t0 cyc i rid c [] = \<lparr>stamped = [], promises = [], sent = [], surface = c\<rparr>"
| "sweep t0 cyc i rid c (v # vs) =
     (if \<not> eligible v then
        (let r = sweep t0 cyc (Suc i) rid c vs in r\<lparr>stamped := v # stamped r\<rparr>)
      else
        (case sample v c of
           (Skipped, c') \<Rightarrow>
             (let r = sweep t0 cyc (Suc i) rid c vs
              in r\<lparr>stamped := ensure_id t0 i v # stamped r, promises := Settled # promises r\<rparr>)
         | (Blocked, c') \<Rightarrow>
             (let r = sweep t0 cyc (Suc i) rid c' vs
              in r\<lparr>stamped := ensure_id t0 i v # stamped r,
                   promises := Failed SecurityError # promises r\<rparr>)
         | (Drawn img, c') \<Rightarrow>
             (let r = sweep t0 cyc (Suc i) (Suc rid) c' vs
              in r\<lparr>stamped := ensure_id t0 i v # stamped r,
                   promises := Awaiting rid # promises r,
                   sent := \<lparr>request_id = rid, cycle = cyc, student_id = id_of t0 i v,
                            image = img\<rparr> # sent r\<rparr>)))"

section \<open>Facts about the loop\<close>

lemma forEach_preserves:
  assumes "P s" and "\<And>k s. k \<in> set ks \<Longrightarrow> P s \<Longrightarrow> P (snd (body k s))"
  shows "P (snd (forEach body ks s))"
  using assms by (induction ks arbitrary: s) (auto simp: Let_def)

lemma sample_ensure_id [simp]: "sample (ensure_id t0 i v) c = sample v c"
  by (simp add: sample_def scaled_height_def Let_def)

lemma visit_skip: "\<not> eligible (videos w ! k) \<Longrightarrow> visit cyc k w = ([], w)"
  by (simp add: visit_def)

lemma visit_eligible:
  "eligible (videos w ! k) \<Longrightarrow>
   visit cyc k w =
     (case sample (videos w ! k) (canvasElement w) of
        (Skipped, c') \<Rightarrow>
          ([Settled], w\<lparr>videos := (videos w)[k := ensure_id (now w) k (videos w ! k)]\<rparr>)
      | (Blocked, c') \<Rightarrow>
          ([Failed SecurityError],
           w\<lparr>videos := (videos w)[k := ensure_id (now w) k (videos w ! k)], canvasElement := c'\<rparr>)
      | (Drawn img, c') \<Rightarrow>
          ([Awaiting (next_request w)],
           w\<lparr>videos := (videos w)[k := ensure_id (now w) k (videos w ! k)], canvasElement := c',
             inflight := inflight w @
               [\<lparr>request_id = next_request w, cycle = cyc,
                 student_id = id_of (now w) k (videos w ! k), image = img\<rparr>],
             next_request := Suc (next_request w)\<rparr>))"
  by (simp add: visit_def Let_def captureAndSendFrame_def split: prod.splits capture.splits)

text \<open>
  The loop from position \<open>i\<close> to the end of the list computes what \<open>sweep\<close> computes
  on the videos from \<open>i\<close> on, and changes nothing else.
\<close>

lemma forEach_visit_sweep:
  assumes "i \<le> length (videos w)"
  shows "forEach (visit cyc) [i..<length (videos w)] w =
    (let r = sweep (now w) cyc i (next_request w) (canvasElement w) (drop i (videos w))
     in (promises r,
         w\<lparr>videos := take i (videos w) @ stamped r, canvasElement := surface r,
           inflight := inflight w @ sent r,
           next_request := next_request w + length (sent r)\<rparr>))"
  using assms
proof (induction "length (videos w) - i" arbitrary: i w)
  case 0
  then show ?case by simp
next
  case (Suc d)
  let ?vs = "videos w" and ?v = "videos w ! i"
  from Suc.hyps(2) have i: "i < length ?vs" by simp
  then have upt: "[i..<length ?vs] = i # [Suc i..<length ?vs]"
    by (simp add: upt_conv_Cons)
  have drop: "drop i ?vs = ?v # drop (Suc i) ?vs"
    using i by (simp add: Cons_nth_drop_Suc)
  have tk: "take (Suc i) (?vs[i := x]) = take i ?vs @ [x]" for x
    using i by (simp add: take_Suc_conv_app_nth)
  show ?case
  proof (cases "eligible ?v")
    case False
    from Suc.hyps(1) [of w "Suc i"] Suc.hyps(2) i
    have "forEach (visit cyc) [Suc i..<length ?vs] w =
      (let r = sweep (now w) cyc (Suc i) (next_request w) (canvasElement w) (drop (Suc i) ?vs)
       in (promises r,
           w\<lparr>videos := take (Suc i) ?vs @ stamped r, canvasElement := surface r,
             inflight := inflight w @ sent r,
             next_request := next_request w + length (sent r)\<rparr>))"
      by simp
    with False i show ?thesis
      by (simp add: upt drop visit_skip Let_def take_Suc_conv_app_nth)
  next
    case True
    obtain ps w1 where v: "visit cyc i w = (ps, w1)" by (cases "visit cyc i w")
    have len: "length (videos w1) = length ?vs" and nw: "now w1 = now w"
      and dr: "drop (Suc i) (videos w1) = drop (Suc i) ?vs"
      and tk1: "take (Suc i) (videos w1) = take i ?vs @ [ensure_id (now w) i ?v]"
      using v True tk by (auto simp: visit_eligible split: prod.splits capture.splits)
    from Suc.hyps(1) [of w1 "Suc i"] Suc.hyps(2) i len
    have IH: "forEach (visit cyc) [Suc i..<length ?vs] w1 =
      (let r = sweep (now w) cyc (Suc i) (next_request w1) (canvasElement w1) (drop (Suc i) ?vs)
       in (promises r,
           w1\<lparr>videos := take i ?vs @ ensure_id (now w) i ?v # stamped r, canvasElement := surface r,
             inflight := inflight w1 @ sent r,
             next_request := next_request w1 + length (sent r)\<rparr>))"
      by (simp add: nw dr tk1)
    show ?thesis
      using v True IH
      by (auto simp: upt drop visit_eligible Let_def split: prod.splits capture.splits)
  qed
qed

section \<open>Facts about one pass\<close>

text \<open>A video the pass samples: eligible, of non-zero width, and readable through a canvas.\<close>

definition drawable :: "video \<Rightarrow> bool" where
  "drawable v \<longleftrightarrow> eligible v \<and> videoWidth v \<noteq> 0 \<and> origin_clean v"

definition tainting :: "video \<Rightarrow> bool" where
  "tainting v \<longleftrightarrow> eligible v \<and> videoWidth v \<noteq> 0 \<and> \<not> origin_clean v"

lemma sample_cases:
  obtains (skipped) "videoWidth v = 0" "sample v c = (Skipped, c)"
  | (blocked) "videoWidth v \<noteq> 0" "\<not> origin_clean v"
      "sample v c = (Blocked, \<lparr>canvas_width = MAX_WIDTH, canvas_height = scaled_height v\<rparr>)"
  | (drawn) "videoWidth v \<noteq> 0" "origin_clean v"
      "sample v c =
        (Drawn \<lparr>source = node v, image_width = MAX_WIDTH, image_height = scaled_height v\<rparr>,
         \<lparr>canvas_width = MAX_WIDTH, canvas_height = scaled_height v\<rparr>)"
  by (cases "videoWidth v = 0"; cases "origin_clean v") (auto simp: sample_def Let_def)

lemma stamped_sweep [simp]: "stamped (sweep t0 cyc i rid c vs) = assign_ids t0 i vs"
  by (induction vs arbitrary: i rid c)
     (auto simp: Let_def split: prod.splits capture.splits)

lemma sent_sweep_ids:
  "map request_id (sent (sweep t0 cyc i rid c vs)) =
     map (\<lambda>k. rid + k) [0..<length (filter drawable vs)]"
proof (induction vs arbitrary: i rid c)
  case Nil
  then show ?case by simp
next
  case (Cons v vs)
  show ?case
    by (cases v c rule: sample_cases)
       (simp_all add: Cons Let_def map_upt_Suc drawable_def [of v] del: upt_Suc)
qed

lemma sent_sweep_cycle: "q \<in> set (sent (sweep t0 cyc i rid c vs)) \<Longrightarrow> cycle q = cyc"
proof (induction vs arbitrary: i rid c)
  case Nil
  then show ?case by simp
next
  case (Cons v vs)
  then show ?case
    by (cases v c rule: sample_cases) (auto simp: Let_def split: if_splits)
qed

lemma sent_sweep_sources:
  "map (\<lambda>q. source (image q)) (sent (sweep t0 cyc i rid c vs)) = map node (filter drawable vs)"
proof (induction vs arbitrary: i rid c)
  case Nil
  then show ?case by simp
next
  case (Cons v vs)
  show ?case
    by (cases v c rule: sample_cases) (simp_all add: Cons Let_def drawable_def [of v])
qed

lemma sent_sweep_length: "length (sent (sweep t0 cyc i rid c vs)) = length (filter drawable vs)"
  using sent_sweep_ids [of t0 cyc i rid c vs, THEN arg_cong, of length] by simp

lemma promises_sweep_failed:
  "list_ex is_failed (promises (sweep t0 cyc i rid c vs)) \<longleftrightarrow> list_ex tainting vs"
proof (induction vs arbitrary: i rid c)
  case Nil
  then show ?case by simp
next
  case (Cons v vs)
  show ?case
    by (cases v c rule: sample_cases) (simp_all add: Cons Let_def tainting_def [of v])
qed

lemma promises_sweep_settled:
  "list_all (\<lambda>p. p = Settled) (promises (sweep t0 cyc i rid c vs)) \<longleftrightarrow>
     \<not> list_ex drawable vs \<and> \<not> list_ex tainting vs"
proof (induction vs arbitrary: i rid c)
  case Nil
  then show ?case by simp
next
  case (Cons v vs)
  show ?case
    by (cases v c rule: sample_cases)
       (auto simp: Cons Let_def tainting_def [of v] drawable_def [of v])
qed

lemma sent_sweep_student_ids:
  "map student_id (sent (sweep t0 cyc i rid c vs)) =
     map (\<lambda>v. the (monitorId v)) (filter drawable (assign_ids t0 i vs))"
proof (induction vs arbitrary: i rid c)
  case Nil
  then show ?case by simp
next
  case (Cons v vs)
  have d: "drawable (ensure_id t0 i v) = drawable v" by (simp add: drawable_def)
  show ?case
    by (cases v c rule: sample_cases)
       (auto simp: Cons Let_def d drawable_def [of v] monitorId_ensure_id)
qed

section \<open>Facts about the cycle, start and stop\<close>

text \<open>The cycle of a running script, with the loop replaced by its reference.\<close>

lemma runAnalysisCycle_running:
  assumes "isAnalyzing w"
  shows "runAnalysisCycle w =
    (let r = sweep (now w) (next_cycle w) 0 (next_request w) (canvasElement w) (videos w)
     in await_all (next_cycle w) (promises r)
          (w\<lparr>next_cycle := Suc (next_cycle w), videos := stamped r, canvasElement := surface r,
             inflight := inflight w @ sent r,
             next_request := next_request w + length (sent r)\<rparr>))"
  using assms forEach_visit_sweep [of 0 "w\<lparr>next_cycle := Suc (next_cycle w)\<rparr>" "next_cycle w"]
  by (simp add: runAnalysisCycle_def Let_def)

lemma runAnalysisCycle_stopped [simp]: "\<not> isAnalyzing w \<Longrightarrow> runAnalysisCycle w = w"
  by (simp add: runAnalysisCycle_def)

lemma startAnalysis_running [simp]:
  "isAnalyzing w \<Longrightarrow> startAnalysis w = (Refused ''Analysis is already running.'', w)"
  by (simp add: startAnalysis_def)

lemma startAnalysis_no_video [simp]:
  "\<not> isAnalyzing w \<Longrightarrow> visibleVideos (videos w) = [] \<Longrightarrow>
   startAnalysis w = (Refused ''No participant videos found.'', w)"
  by (simp add: startAnalysis_def)

lemma startAnalysis_started:
  "\<not> isAnalyzing w \<Longrightarrow> visibleVideos (videos w) \<noteq> [] \<Longrightarrow>
   startAnalysis w = (Succeeded, runAnalysisCycle (w\<lparr>isAnalyzing := True\<rparr>))"
  by (simp add: startAnalysis_def)

lemma stopAnalysis_stopped [simp]: "\<not> isAnalyzing w \<Longrightarrow> stopAnalysis w = w"
  by (simp add: stopAnalysis_def)

lemma stopAnalysis_running:
  "isAnalyzing w \<Longrightarrow>
   stopAnalysis w = remove_overlays (clearTimeout (analysisTimeoutId w) (w\<lparr>isAnalyzing := False\<rparr>))"
  by (simp add: stopAnalysis_def)

lemma clearTimeout_fields [simp]:
  "isAnalyzing (clearTimeout h w) = isAnalyzing w"
  "analysisTimeoutId (clearTimeout h w) = analysisTimeoutId w"
  "timers (clearTimeout h w) =
     (case h of None \<Rightarrow> timers w | Some i \<Rightarrow> filter (\<lambda>t. timer_id t \<noteq> i) (timers w))"
  "waiting (clearTimeout h w) = waiting w"
  "inflight (clearTimeout h w) = inflight w"
  "next_timer (clearTimeout h w) = next_timer w"
  "next_cycle (clearTimeout h w) = next_cycle w"
  "next_request (clearTimeout h w) = next_request w"
  "now (clearTimeout h w) = now w"
  "replies (clearTimeout h w) = replies w"
  "videos (clearTimeout h w) = videos w"
  "nodes (clearTimeout h w) = nodes w"
  "attached (clearTimeout h w) = attached w"
  "animation_queue (clearTimeout h w) = animation_queue w"
  "console (clearTimeout h w) = console w"
  "canvasElement (clearTimeout h w) = canvasElement w"
  by (simp_all add: clearTimeout_def split: option.splits)

lemma clearTimeout_passes [simp]:
  "wf_page (clearTimeout h w) = wf_page w"
  "shown (clearTimeout h w) = shown w"
  by (simp_all add: clearTimeout_def split: option.splits)

lemma isAnalyzing_stopAnalysis [simp]: "\<not> isAnalyzing (stopAnalysis w)"
  by (simp add: stopAnalysis_def)

lemma stopAnalysis_idem [simp]: "stopAnalysis (stopAnalysis w) = stopAnalysis w"
  by simp

section \<open>The cycle, field by field\<close>

text \<open>How a cycle leaves its barrier, as a function of the videos it finds.\<close>

datatype barrier = Rejected | Passed | Suspended

definition outlook :: "video list \<Rightarrow> barrier" where
  "outlook vs =
     (if list_ex tainting vs then Rejected
      else if list_ex drawable vs then Suspended else Passed)"

lemma await_all_outlook:
  "await_all cyc (promises (sweep t0 cyc' i rid c vs)) w =
     (case outlook vs of
        Rejected \<Rightarrow> w
      | Passed \<Rightarrow> schedule_next w
      | Suspended \<Rightarrow> w\<lparr>waiting := waiting w @ [cyc]\<rparr>)"
  by (simp add: await_all_def outlook_def promises_sweep_failed promises_sweep_settled)

text \<open>The requests a cycle issues when it runs in state \<open>w\<close>.\<close>

definition issued :: "'a world_scheme \<Rightarrow> request list" where
  "issued w = sent (sweep (now w) (next_cycle w) 0 (next_request w) (canvasElement w) (videos w))"

lemma issued_facts:
  "map request_id (issued w) = map (\<lambda>k. next_request w + k) [0..<length (filter drawable (videos w))]"
  "length (issued w) = length (filter drawable (videos w))"
  "q \<in> set (issued w) \<Longrightarrow> cycle q = next_cycle w"
  "map (\<lambda>q. source (image q)) (issued w) = map node (filter drawable (videos w))"
  "map student_id (issued w) =
     map (\<lambda>v. the (monitorId v)) (filter drawable (discover (now w) (videos w)))"
  by (simp_all add: issued_def sent_sweep_ids sent_sweep_length sent_sweep_cycle
      sent_sweep_sources sent_sweep_student_ids discover_def)

lemma issued_empty_iff: "issued w = [] \<longleftrightarrow> \<not> list_ex drawable (videos w)"
  using issued_facts(2) [of w] by (auto simp: list_ex_iff filter_empty_conv)

lemma runAnalysisCycle_fields:
  assumes "isAnalyzing w"
  shows "isAnalyzing (runAnalysisCycle w)"
    and "videos (runAnalysisCycle w) = discover (now w) (videos w)"
    and "inflight (runAnalysisCycle w) = inflight w @ issued w"
    and "next_request (runAnalysisCycle w) = next_request w + length (issued w)"
    and "next_cycle (runAnalysisCycle w) = Suc (next_cycle w)"
    and "waiting (runAnalysisCycle w) =
           (if outlook (videos w) = Suspended then waiting w @ [next_cycle w] else waiting w)"
    and "timers (runAnalysisCycle w) =
           (if outlook (videos w) = Passed
            then timers w @ [\<lparr>timer_id = next_timer w, due = now w + 1000\<rparr>] else timers w)"
    and "analysisTimeoutId (runAnalysisCycle w) =
           (if outlook (videos w) = Passed then Some (next_timer w) else analysisTimeoutId w)"
    and "next_timer (runAnalysisCycle w) =
           (if outlook (videos w) = Passed then Suc (next_timer w) else next_timer w)"
    and "now (runAnalysisCycle w) = now w"
    and "replies (runAnalysisCycle w) = replies w"
    and "nodes (runAnalysisCycle w) = nodes w"
    and "attached (runAnalysisCycle w) = attached w"
    and "animation_queue (runAnalysisCycle w) = animation_queue w"
    and "console (runAnalysisCycle w) = console w"
    and "scrollX (runAnalysisCycle w) = scrollX w"
    and "scrollY (runAnalysisCycle w) = scrollY w"
  using assms
  by (simp_all add: runAnalysisCycle_running await_all_outlook Let_def issued_def discover_def
      schedule_next_def setTimeout_def split: barrier.splits)

lemma shown_runAnalysisCycle [simp]: "shown (runAnalysisCycle w) = shown w"
proof (cases "isAnalyzing w")
  case True
  then show ?thesis by (intro shown_eq) (simp_all add: runAnalysisCycle_fields)
qed simp

section \<open>The response, field by field\<close>

text \<open>Whether the request is the last one its cycle is suspended on.\<close>

definition releases :: "request \<Rightarrow> 'a world_scheme \<Rightarrow> bool" where
  "releases r w \<longleftrightarrow>
     cycle r \<in> set (waiting w) \<and>
     \<not> list_ex (\<lambda>q. cycle q = cycle r) (filter (\<lambda>q. request_id q \<noteq> request_id r) (inflight w))"

lemma settle_Some:
  assumes "settle rid out w = Some w'"
  obtains r where "List.find (\<lambda>r. request_id r = rid) (inflight w) = Some r"
    and "request_id r = rid"
    and "w' = (if releases r w
               then schedule_next ((receive out w)
                      \<lparr>inflight := filter (\<lambda>q. request_id q \<noteq> rid) (inflight w),
                        waiting := removeAll (cycle r) (waiting w)\<rparr>)
               else (receive out w)\<lparr>inflight := filter (\<lambda>q. request_id q \<noteq> rid) (inflight w)\<rparr>)"
proof -
  from assms obtain r where f: "List.find (\<lambda>r. request_id r = rid) (inflight w) = Some r"
    by (auto simp: settle_def split: option.splits)
  then have i: "request_id r = rid" by (auto dest: find_Some_mem)
  with assms f that [of r] show ?thesis
    by (auto simp: settle_def Let_def releases_def split: if_splits)
qed

lemma settle_None: "settle rid out w = None \<longleftrightarrow> rid \<notin> request_id ` set (inflight w)"
proof (cases "List.find (\<lambda>r. request_id r = rid) (inflight w)")
  case None
  then have "rid \<notin> request_id ` set (inflight w)" by (auto simp: find_None_conv)
  moreover from None have "settle rid out w = None" by (simp add: settle_def)
  ultimately show ?thesis by simp
next
  case (Some r)
  then have "rid \<in> request_id ` set (inflight w)" by (force dest: find_Some_mem)
  moreover from Some have "settle rid out w \<noteq> None" by (simp add: settle_def Let_def)
  ultimately show ?thesis by simp
qed

lemma fire_Some:
  assumes "fire i w = Some w'"
  obtains t where "List.find (\<lambda>t. timer_id t = i) (timers w) = Some t" and "due t \<le> now w"
    and "w' = runAnalysisCycle (w\<lparr>timers := filter (\<lambda>t. timer_id t \<noteq> i) (timers w)\<rparr>)"
  using assms by (auto simp: fire_def split: option.splits if_splits)

section \<open>The contract of the cycle\<close>

text \<open>
  C17. The \<^verbatim>\<open>forEach\<close> loop of \<^verbatim>\<open>runAnalysisCycle\<close>, with its calls of
  \<^verbatim>\<open>captureAndSendFrame\<close> on the shared canvas, computes what the structural recursion
  \<open>sweep\<close> computes on the list of videos: the same promises, the same stamped videos,
  the same requests with the same ids, and the same canvas at the end. It changes
  nothing else of the state.
\<close>

theorem loop_refines_sweep:
  "forEach (visit cyc) [0..<length (videos w)] w =
     (promises (sweep (now w) cyc 0 (next_request w) (canvasElement w) (videos w)),
      w\<lparr>videos := discover (now w) (videos w),
        canvasElement := surface (sweep (now w) cyc 0 (next_request w) (canvasElement w) (videos w)),
        inflight := inflight w @
          sent (sweep (now w) cyc 0 (next_request w) (canvasElement w) (videos w)),
        next_request := next_request w +
          length (sent (sweep (now w) cyc 0 (next_request w) (canvasElement w) (videos w)))\<rparr>)"
  using forEach_visit_sweep [of 0 w cyc] by (simp add: Let_def discover_def)

text \<open>
  C12. What one cycle of a running script does. It issues one request for every video
  that is eligible, has decoded frames and a clean origin, in the order of the page; the
  request carries the image of that video and the identity the video has after
  discovery; the request ids are fresh and consecutive and all requests belong to this
  cycle. If there is nothing to wait for and no frame was refused, the timer of the next
  cycle is set, due in 1000 milliseconds.
\<close>

theorem cycle_issues_one_request_per_surface:
  assumes "isAnalyzing w"
  shows "inflight (runAnalysisCycle w) = inflight w @ issued w \<and>
         map (\<lambda>q. source (image q)) (issued w) = map node (filter drawable (videos w)) \<and>
         map student_id (issued w) =
           map (\<lambda>v. the (monitorId v)) (filter drawable (discover (now w) (videos w))) \<and>
         map request_id (issued w) =
           map (\<lambda>k. next_request w + k) [0..<length (filter drawable (videos w))] \<and>
         list_all (\<lambda>q. cycle q = next_cycle w) (issued w) \<and>
         videos (runAnalysisCycle w) = discover (now w) (videos w) \<and>
         timers (runAnalysisCycle w) =
           (if outlook (videos w) = Passed
            then timers w @ [\<lparr>timer_id = next_timer w, due = now w + 1000\<rparr>] else timers w)"
  using assms by (simp add: runAnalysisCycle_fields issued_facts list_all_iff)

theorem cycle_issues_one_request_per_surface_witness:
  "map (\<lambda>q. (request_id q, cycle q, student_id q, source (image q)))
     (inflight (runAnalysisCycle ((boot [tile 0, thumbnail 1, tile 2])\<lparr>isAnalyzing := True\<rparr>))) =
   [(0, 0, ''participant-0-0'', 0), (1, 0, ''participant-0-2'', 2)]"
  using cycle_issues_one_request_per_surface
    [of "(boot [tile 0, thumbnail 1, tile 2])\<lparr>isAnalyzing := True\<rparr>"]
  by (simp add: boot_def sample_data runAnalysisCycle_def visit_def eligible_def ensure_id_def
      id_of_def needs_id_def mint_id_def show_nat.simps digit_char_def captureAndSendFrame_def
      sample_def MAX_WIDTH_def await_all_def Let_def issued_def drawable_def
      tainting_def outlook_def discover_def)

section \<open>Responses without effect on the page\<close>

text \<open>
  A response applies to the page when it carries a judgment and names the identity of a
  video on the page.
\<close>

definition applies :: "outcome \<Rightarrow> 'a document_scheme \<Rightarrow> bool" where
  "applies out d \<longleftrightarrow>
     (case judgment_of out of
        None \<Rightarrow> False
      | Some (sid, result) \<Rightarrow> query_monitor_id (to_str sid) d \<noteq> None)"

lemma receive_quiet:
  assumes "\<not> applies out t"
  shows "\<exists>es. receive out t = t\<lparr>console := console t @ es\<rparr>"
proof (cases "judgment_of out")
  case None
  then show ?thesis by (rule receive_no_judgment)
next
  case (Some j)
  obtain sid result where j: "j = (sid, result)" by (cases j)
  with Some assms have "receive out t = t" by (simp add: applies_def receive_judgment)
  then show ?thesis by (auto intro: exI [of _ "[]"])
qed

text \<open>
  C13. Failure isolation. A request that fails (no connection, a status outside 2xx, a
  body that is not JSON, a body without judgment) or whose answer names an identity no
  video has, leaves every overlay, the paint queue and the videos as they were. The
  request still counts as settled for the barrier of its cycle.
\<close>

theorem failed_response_is_isolated:
  assumes "settle rid out w = Some w'" and "\<not> applies out w"
  shows "nodes w' = nodes w \<and> attached w' = attached w \<and>
         animation_queue w' = animation_queue w \<and> videos w' = videos w \<and>
         isAnalyzing w' = isAnalyzing w \<and>
         inflight w' = filter (\<lambda>q. request_id q \<noteq> rid) (inflight w)"
proof -
  from receive_quiet [OF assms(2)] obtain es
    where "receive out w = w\<lparr>console := console w @ es\<rparr>" by blast
  with assms(1) show ?thesis
    by (elim settle_Some) (simp add: schedule_next_def setTimeout_def Let_def)
qed

theorem failed_response_is_isolated_witness:
  "inflight (the (settle 0 (Answered 503 None)
      (runAnalysisCycle ((boot [tile 0])\<lparr>isAnalyzing := True\<rparr>)))) = [] \<and>
   nodes (the (settle 0 (Answered 503 None)
      (runAnalysisCycle ((boot [tile 0])\<lparr>isAnalyzing := True\<rparr>)))) = []"
  using failed_response_is_isolated
    [of 0 "Answered 503 None" "runAnalysisCycle ((boot [tile 0])\<lparr>isAnalyzing := True\<rparr>)"
        "the (settle 0 (Answered 503 None)
           (runAnalysisCycle ((boot [tile 0])\<lparr>isAnalyzing := True\<rparr>)))"]
  by (simp add: boot_def sample_data runAnalysisCycle_def visit_def eligible_def ensure_id_def
      id_of_def needs_id_def mint_id_def show_nat.simps digit_char_def captureAndSendFrame_def
      sample_def MAX_WIDTH_def await_all_def Let_def settle_def receive_def
      response_ok_def console_error_def schedule_next_def setTimeout_def applies_def
      judgment_of_def)

end
