(* ===== verification/Examples.thy ===== *)
theory Examples
  imports Content
begin

text \<open>
  The unfoldings that evaluate a run of the event loop on a concrete page: every
  operation of the content script down to the page queries, and the sample data.
\<close>

section \<open>Evaluating a run\<close>

lemmas exec =
  step_def onMessage_def startAnalysis_def stopAnalysis_def runAnalysisCycle_def visit_def
  await_all_def schedule_next_def setTimeout_def clearTimeout_def settle_def fire_def
  boot_def visibleVideos_def eligible_def ensure_id_def id_of_def needs_id_def mint_id_def
  show_nat.simps digit_char_def captureAndSendFrame_def sample_def
  MAX_WIDTH_def receive_def handle_body_def response_ok_def console_error_def
  updateOverlay_def query_monitor_id_def ensure_overlay_def getElementById_def
  create_overlay_def overlay_id_def requestAnimationFrame_def statusColor_def palette_def
  object_prototype_def native_def run_frame_def paint_def node_at_def shown_def
  remove_overlays_def label_html_def label_text_def js_get_opt_def show_int_def
  host_keeps_def fresh_page_def Let_def
  sample_data

end
