(* ===== verification/Invariants.thy ===== *)
theory Invariants
  imports Content Examples
begin

text \<open>
  What holds in every state the tab can reach. Each invariant is a predicate on the
  world, shown to hold after injection and to be kept by every operation of the content
  script, and lifted to the reachable states by rule induction.
\<close>

section \<open>Reachability\<close>

lemma reachable_by_weaken:
  assumes "reachable_by P w" and "\<And>w e. P w e \<Longrightarrow> Q w e"
  shows "reachable_by Q w"
  using assms(1)
proof (induction rule: reachable_by.induct)
  case (boot vs)
  then show ?case by (rule reachable_by.boot)
next
  case (step w e w')
  then show ?case by (blast intro: reachable_by.step assms(2))
qed

lemma reachable_by_reachable: "reachable_by P w \<Longrightarrow> reachable w"
  by (erule reachable_by_weaken) (simp add: any_event_def)

text \<open>A run of allowed events from a reachable state ends in a reachable state.\<close>

fun allowed_run :: "(world \<Rightarrow> event \<Rightarrow> bool) \<Rightarrow> event list \<Rightarrow> world \<Rightarrow> bool" where
  "allowed_run P [] w = True"
| "allowed_run P (e # es) w =
     (P w e \<and> (case step e w of None \<Rightarrow> False | Some w' \<Rightarrow> allowed_run P es w'))"

lemma run_reachable_by:
  "reachable_by P w \<Longrightarrow> allowed_run P es w \<Longrightarrow> run es w = Some w' \<Longrightarrow> reachable_by P w'"
proof (induction es arbitrary: w)
  case Nil
  then show ?case by simp
next
  case (Cons e es)
  then show ?case
    by (auto split: option.splits intro: reachable_by.step)
qed

text \<open>The rule by which the invariants below are lifted.\<close>

lemma allowed_run_enabled: "allowed_run P es w \<Longrightarrow> run es w \<noteq> None"
  by (induction es arbitrary: w) (auto split: option.splits)

lemma reachable_by_run:
  assumes "fresh_page vs" "allowed_run P es (boot vs)"
  shows "reachable_by P (the (run es (boot vs)))"
  using allowed_run_enabled [OF assms(2)] run_reachable_by [OF reachable_by.boot [OF assms(1)] assms(2)]
  by auto

lemma invariant_rule:
  assumes "reachable_by P w"
    and "\<And>vs. fresh_page vs \<Longrightarrow> I (boot vs)"
    and "\<And>w e w'. reachable_by P w \<Longrightarrow> I w \<Longrightarrow> P w e \<Longrightarrow> step e w = Some w' \<Longrightarrow> I w'"
  shows "I w"
  using assms(1)
  by (induction rule: reachable_by.induct) (auto intro: assms(2,3))

section \<open>The page stays well formed\<close>

lemma wf_page_videos:
  "map node vs = map node (videos w) \<Longrightarrow> wf_page (w\<lparr>videos := vs\<rparr>) = wf_page w"
  by (simp add: wf_page_def wf_document_def shown_def node_at_def getElementById_def)

lemma wf_page_host:
  "wf_page w \<Longrightarrow> distinct (map node vs) \<Longrightarrow> wf_page (w\<lparr>videos := vs, scrollX := x, scrollY := y\<rparr>)"
  by (simp add: wf_page_def wf_document_def shown_def node_at_def)

lemma wf_page_schedule_next [simp]: "wf_page (schedule_next w) = wf_page w"
  by (simp add: model_defs Let_def)

lemma wf_page_await_all [simp]: "wf_page (await_all cyc ps w) = wf_page w"
  by (simp add: await_all_def)

lemma wf_page_runAnalysisCycle [inv_keep]: "wf_page w \<Longrightarrow> wf_page (runAnalysisCycle w)"
  by (cases "isAnalyzing w") (simp_all add: runAnalysisCycle_running Let_def wf_page_videos)

lemma wf_page_startAnalysis [inv_keep]: "wf_page w \<Longrightarrow> wf_page (snd (startAnalysis w))"
  by (simp add: startAnalysis_def wf_page_runAnalysisCycle)

lemma wf_page_stopAnalysis [inv_keep]: "wf_page w \<Longrightarrow> wf_page (stopAnalysis w)"
  by (simp add: stopAnalysis_def wf_page_remove_overlays)

lemma wf_page_onMessage [inv_keep]: "wf_page w \<Longrightarrow> wf_page (onMessage c w)"
  by (simp add: onMessage_def Let_def wf_page_startAnalysis wf_page_stopAnalysis)

lemma wf_page_settle [inv_keep]: "wf_page w \<Longrightarrow> settle rid out w = Some w' \<Longrightarrow> wf_page w'"
  by (auto simp: settle_def Let_def wf_page_receive split: option.splits if_splits)

lemma wf_page_fire [inv_keep]: "wf_page w \<Longrightarrow> fire i w = Some w' \<Longrightarrow> wf_page w'"
  by (auto simp: fire_def wf_page_runAnalysisCycle split: option.splits if_splits)

lemma wf_page_step [inv_keep]:
  assumes "wf_page w" and "step e w = Some w'"
  shows "wf_page w'"
proof (cases e)
  case (Message c)
  with assms show ?thesis by (auto simp: step_def wf_page_onMessage)
next
  case (Response rid out)
  with assms show ?thesis by (auto simp: step_def intro: wf_page_settle)
next
  case (Timeout i)
  with assms show ?thesis by (auto simp: step_def intro: wf_page_fire)
next
  case Paint
  with assms show ?thesis by (auto simp: step_def wf_page_run_frame)
next
  case (Host vs x y)
  with assms show ?thesis
    by (auto simp: step_def host_keeps_def wf_page_host split: if_splits)
next
  case (Tick n)
  with assms show ?thesis by (auto simp: step_def)
qed

lemma wf_page_boot: "fresh_page vs \<Longrightarrow> wf_page (boot vs)"
  by (simp add: wf_page_def wf_document_def boot_def fresh_page_def shown_def)

lemma reachable_wf_page: "reachable_by P w \<Longrightarrow> wf_page w"
  by (erule invariant_rule) (auto intro: wf_page_boot wf_page_step)

section \<open>Handles are fresh and no suspended cycle is forgotten\<close>

text \<open>
  Timer handles, request ids and cycle numbers are used once, and every cycle suspended
  at its barrier still has a request in flight, so that it will be resumed.
\<close>

definition sched_inv :: "'a world_scheme \<Rightarrow> bool" where
  "sched_inv w \<longleftrightarrow>
     distinct (map timer_id (timers w)) \<and>
     list_all (\<lambda>t. timer_id t < next_timer w) (timers w) \<and>
     distinct (map request_id (inflight w)) \<and>
     list_all (\<lambda>r. request_id r < next_request w \<and> cycle r < next_cycle w) (inflight w) \<and>
     distinct (waiting w) \<and>
     list_all (\<lambda>c. c < next_cycle w \<and> list_ex (\<lambda>r. cycle r = c) (inflight w)) (waiting w)"

lemma sched_inv_eq:
  assumes "timers w' = timers w" and "next_timer w' = next_timer w"
    and "inflight w' = inflight w" and "next_request w' = next_request w"
    and "waiting w' = waiting w" and "next_cycle w' = next_cycle w"
  shows "sched_inv w' = sched_inv w"
  using assms by (simp add: sched_inv_def)

lemma sched_inv_passes [simp]:
  "sched_inv (run_frame w) = sched_inv w"
  "sched_inv (remove_overlays w) = sched_inv w"
  "sched_inv (receive out w) = sched_inv w"
  "sched_inv (w\<lparr>isAnalyzing := b\<rparr>) = sched_inv w"
  "sched_inv (w\<lparr>analysisTimeoutId := h\<rparr>) = sched_inv w"
  "sched_inv (w\<lparr>now := k\<rparr>) = sched_inv w"
  "sched_inv (w\<lparr>replies := rs\<rparr>) = sched_inv w"
  "sched_inv (w\<lparr>videos := vs\<rparr>) = sched_inv w"
  "sched_inv (w\<lparr>scrollX := x\<rparr>) = sched_inv w"
  "sched_inv (w\<lparr>scrollY := y\<rparr>) = sched_inv w"
  "sched_inv (w\<lparr>canvasElement := c\<rparr>) = sched_inv w"
  by (rule sched_inv_eq; simp)+

lemma sched_inv_boot: "sched_inv (boot vs)"
  by (simp add: sched_inv_def boot_def)

lemma sched_inv_schedule_next [inv_keep]: "sched_inv w \<Longrightarrow> sched_inv (schedule_next w)"
  by (auto simp: sched_inv_def model_defs Let_def list_all_iff)

lemma sched_inv_clearTimeout [inv_keep]: "sched_inv w \<Longrightarrow> sched_inv (clearTimeout h w)"
  by (auto simp: sched_inv_def list_all_iff distinct_map_filter split: option.splits)

text \<open>Issuing the requests of a new cycle.\<close>

lemma sched_inv_issue:
  assumes "sched_inv w"
    and ids: "map request_id new = map (\<lambda>k. next_request w + k) [0..<length new]"
    and cyc: "\<forall>q\<in>set new. cycle q = next_cycle w"
  shows "sched_inv (w\<lparr>next_cycle := Suc (next_cycle w), inflight := inflight w @ new,
                      next_request := next_request w + length new\<rparr>)"
proof -
  have new_ids: "request_id ` set new = {next_request w..<next_request w + length new}"
  proof -
    have "request_id ` set new = set (map request_id new)" by simp
    also have "\<dots> = (\<lambda>k. next_request w + k) ` {0..<length new}"
      unfolding ids by simp
    also have "\<dots> = {next_request w..<next_request w + length new}"
      by (auto simp: image_iff)
    finally show ?thesis .
  qed
  have "distinct (map request_id new)"
    unfolding ids by (simp add: distinct_map inj_on_def)
  moreover have "request_id ` set (inflight w) \<inter> request_id ` set new = {}"
    using assms(1) unfolding new_ids by (auto simp: sched_inv_def list_all_iff)
  ultimately have d: "distinct (map request_id (inflight w @ new))"
    using assms(1) by (simp add: sched_inv_def)
  have b: "\<forall>q\<in>set new. request_id q < next_request w + length new"
    using new_ids by auto
  from assms(1) cyc d b show ?thesis
    by (auto simp: sched_inv_def list_all_iff list_ex_iff less_Suc_eq)
qed

lemma sched_inv_suspend:
  assumes "sched_inv w" and "cyc < next_cycle w" and "cyc \<notin> set (waiting w)"
    and "list_ex (\<lambda>r. cycle r = cyc) (inflight w)"
  shows "sched_inv (w\<lparr>waiting := waiting w @ [cyc]\<rparr>)"
  using assms by (auto simp: sched_inv_def list_all_iff)

lemma sched_inv_runAnalysisCycle [inv_keep]:
  assumes "sched_inv w"
  shows "sched_inv (runAnalysisCycle w)"
proof (cases "isAnalyzing w")
  case False
  with assms show ?thesis by simp
next
  case True
  let ?r = "sweep (now w) (next_cycle w) 0 (next_request w) (canvasElement w) (videos w)"
  let ?w = "w\<lparr>next_cycle := Suc (next_cycle w), inflight := inflight w @ sent ?r,
               next_request := next_request w + length (sent ?r)\<rparr>"
  let ?w' = "w\<lparr>next_cycle := Suc (next_cycle w), videos := stamped ?r,
                canvasElement := surface ?r, inflight := inflight w @ sent ?r,
                next_request := next_request w + length (sent ?r)\<rparr>"
  have issue: "sched_inv ?w"
    using assms by (rule sched_inv_issue) (simp_all add: sent_sweep_ids sent_sweep_length sent_sweep_cycle)
  moreover have "sched_inv ?w' = sched_inv ?w" by (rule sched_inv_eq; simp)
  ultimately have w': "sched_inv ?w'" by simp
  have run: "runAnalysisCycle w = await_all (next_cycle w) (promises ?r) ?w'"
    using True by (simp add: runAnalysisCycle_running Let_def)
  show ?thesis
  proof (cases "list_ex is_failed (promises ?r) \<or> list_all (\<lambda>p. p = Settled) (promises ?r)")
    case True
    with w' show ?thesis
      unfolding run by (auto simp: await_all_def intro: sched_inv_schedule_next)
  next
    case False
    then have "list_ex drawable (videos w)"
      by (auto simp: promises_sweep_settled promises_sweep_failed)
    then have "sent ?r \<noteq> []"
      using sent_sweep_length [of "now w" "next_cycle w" 0 "next_request w" "canvasElement w" "videos w"]
      by (auto simp: list_ex_iff filter_empty_conv)
    then obtain q where q: "q \<in> set (sent ?r)" by (cases "sent ?r") auto
    then have "cycle q = next_cycle w" by (rule sent_sweep_cycle)
    with q have ex: "list_ex (\<lambda>r. cycle r = next_cycle w) (inflight ?w')"
      by (auto simp: list_ex_iff)
    have "next_cycle w \<notin> set (waiting ?w')"
      using assms by (auto simp: sched_inv_def list_all_iff)
    with w' ex have "sched_inv (?w'\<lparr>waiting := waiting ?w' @ [next_cycle w]\<rparr>)"
      by (intro sched_inv_suspend) simp_all
    with False show ?thesis unfolding run by (simp add: await_all_def)
  qed
qed

lemma sched_inv_onMessage [inv_keep]: "sched_inv w \<Longrightarrow> sched_inv (onMessage c w)"
  by (auto simp: onMessage_def Let_def startAnalysis_def stopAnalysis_def
      intro!: sched_inv_runAnalysisCycle sched_inv_clearTimeout)

lemma find_request:
  assumes "List.find (\<lambda>r. request_id r = rid) rs = Some r" and "distinct (map request_id rs)"
  shows "r \<in> set rs" and "request_id r = rid"
    and "filter (\<lambda>q. request_id q \<noteq> rid) rs = removeAll r rs"
proof -
  from assms(1) show r: "r \<in> set rs" and i: "request_id r = rid"
    by (auto dest: find_Some_mem)
  have "request_id q \<noteq> rid \<longleftrightarrow> q \<noteq> r" if "q \<in> set rs" for q
    using that r i assms(2) by (auto simp: distinct_map inj_on_def)
  then have "filter (\<lambda>q. request_id q \<noteq> rid) rs = filter (\<lambda>q. r \<noteq> q) rs"
    by (intro filter_cong) auto
  then show "filter (\<lambda>q. request_id q \<noteq> rid) rs = removeAll r rs"
    by (simp add: removeAll_filter_not_eq)
qed

lemma sched_inv_settle [inv_keep]:
  assumes "sched_inv w" and "settle rid out w = Some w'"
  shows "sched_inv w'"
proof -
  from assms(2) obtain r where f: "List.find (\<lambda>r. request_id r = rid) (inflight w) = Some r"
    by (auto simp: settle_def split: option.splits)
  let ?rest = "filter (\<lambda>q. request_id q \<noteq> rid) (inflight w)"
  let ?w2 = "(receive out w)\<lparr>inflight := ?rest\<rparr>"
  from assms(1) have d: "distinct (map request_id (inflight w))" by (simp add: sched_inv_def)
  have rest: "?rest = removeAll r (inflight w)" using f d by (rule find_request)
  have keep: "list_ex (\<lambda>q. cycle q = c) ?rest"
    if "list_ex (\<lambda>q. cycle q = c) (inflight w)" and "c \<noteq> cycle r" for c
    using that unfolding rest by (auto simp: list_ex_iff)
  show ?thesis
  proof (cases "cycle r \<in> set (waiting w) \<and> \<not> list_ex (\<lambda>q. cycle q = cycle r) ?rest")
    case True
    then have w': "w' = schedule_next (?w2\<lparr>waiting := removeAll (cycle r) (waiting w)\<rparr>)"
      using assms(2) f by (simp add: settle_def Let_def)
    have "sched_inv (?w2\<lparr>waiting := removeAll (cycle r) (waiting w)\<rparr>)"
      using assms(1) keep
      by (auto simp: sched_inv_def list_all_iff distinct_removeAll distinct_map_filter)
    then show ?thesis unfolding w' by (rule sched_inv_schedule_next)
  next
    case False
    then have w': "w' = ?w2"
      using assms(2) f by (auto simp: settle_def Let_def)
    have "list_ex (\<lambda>q. cycle q = c) ?rest" if "c \<in> set (waiting w)" for c
    proof (cases "c = cycle r")
      case True
      with that False show ?thesis by simp
    next
      case False
      with that assms(1) show ?thesis by (intro keep) (auto simp: sched_inv_def list_all_iff)
    qed
    with assms(1) show ?thesis
      unfolding w' by (auto simp: sched_inv_def list_all_iff distinct_map_filter)
  qed
qed

lemma sched_inv_fire [inv_keep]:
  assumes "sched_inv w" and "fire i w = Some w'"
  shows "sched_inv w'"
proof -
  have "sched_inv (w\<lparr>timers := filter (\<lambda>t. timer_id t \<noteq> i) (timers w)\<rparr>)"
    using assms(1) by (auto simp: sched_inv_def list_all_iff distinct_map_filter)
  then have "sched_inv (runAnalysisCycle (w\<lparr>timers := filter (\<lambda>t. timer_id t \<noteq> i) (timers w)\<rparr>))"
    by (rule sched_inv_runAnalysisCycle)
  with assms(2) show ?thesis by (auto simp: fire_def split: option.splits if_splits)
qed

lemma sched_inv_step [inv_keep]:
  assumes "sched_inv w" and "step e w = Some w'"
  shows "sched_inv w'"
proof (cases e)
  case (Message c)
  with assms show ?thesis by (auto simp: step_def sched_inv_onMessage)
next
  case (Response rid out)
  with assms show ?thesis by (auto simp: step_def intro: sched_inv_settle)
next
  case (Timeout i)
  with assms show ?thesis by (auto simp: step_def intro: sched_inv_fire)
next
  case Paint
  with assms show ?thesis by (auto simp: step_def)
next
  case (Host vs x y)
  with assms show ?thesis by (auto simp: step_def split: if_splits)
next
  case (Tick n)
  with assms show ?thesis by (auto simp: step_def)
qed

lemma reachable_sched_inv: "reachable_by P w \<Longrightarrow> sched_inv w"
  by (erule invariant_rule) (auto intro: sched_inv_boot sched_inv_step)

section \<open>The overlays of a session\<close>

text \<open>
  C15. In every state the tab can reach, no two overlays on the page share an element id,
  every callback in the paint queue points at an element that exists, and no video node
  occurs twice.
\<close>

theorem overlay_ids_are_unique:
  assumes "reachable_by P w"
  shows "distinct (map elem_id (shown w)) \<and>
         list_all (\<lambda>r. raf_target r < length (nodes w)) (animation_queue w) \<and>
         distinct (map node (videos w)) \<and> distinct (attached w)"
  using reachable_wf_page [OF assms] by (simp add: wf_page_def wf_document_def)

theorem overlay_ids_are_unique_witness:
  "distinct (map elem_id (shown (the (run
      [Message ''start'', Response 1 (verdict ''participant-0-0'' ''Alice'' 92 ''Attentive''),
       Response 0 (verdict ''participant-0-0'' ''Alice'' 40 ''Distracted'')]
      (boot [tile 0, tile 1])))))"
  using overlay_ids_are_unique [OF reachable_by_run [of "[tile 0, tile 1]" any_event
      "[Message ''start'', Response 1 (verdict ''participant-0-0'' ''Alice'' 92 ''Attentive''),
        Response 0 (verdict ''participant-0-0'' ''Alice'' 40 ''Distracted'')]"]]
  by (simp add: any_event_def fresh_page_def sample_data allowed_run_enabled step_def
      onMessage_def startAnalysis_def visibleVideos_def settle_def boot_def
      runAnalysisCycle_def visit_def eligible_def captureAndSendFrame_def sample_def
      await_all_def Let_def)

lemma shown_schedule_next [simp]: "shown (schedule_next w) = shown w"
  by (rule shown_eq) (simp_all add: schedule_next_def setTimeout_def Let_def)

lemma shown_ids_receive:
  assumes "wf_page t"
  shows "set (map elem_id (shown t)) \<subseteq> set (map elem_id (shown (receive out t)))"
  using receive_shape [of out t] shown_ids_updateOverlay [OF assms]
  by (auto simp del: set_map)

lemma shown_ids_settle:
  assumes "wf_page w" "settle rid out w = Some w'"
  shows "set (map elem_id (shown w)) \<subseteq> set (map elem_id (shown w'))"
  using assms(2) shown_ids_receive [OF assms(1), of out]
  by (elim settle_Some) (simp split: if_splits del: set_map)

text \<open>
  C16. Nothing but \<^verbatim>\<open>stop\<close> takes an overlay off the page: across every other event the
  element ids of the overlays on the page stay, in a state the tab can reach.
\<close>

theorem overlays_stay_until_stop:
  assumes "reachable_by P w" and "step e w = Some w'" and "e \<noteq> Message ''stop''"
  shows "set (map elem_id (shown w)) \<subseteq> set (map elem_id (shown w'))"
proof (cases e)
  case (Message c)
  with assms(2,3) show ?thesis
    by (auto simp: step_def onMessage_def startAnalysis_def Let_def)
next
  case (Response rid out)
  with assms(2) have "settle rid out w = Some w'" by (simp add: step_def)
  then show ?thesis by (rule shown_ids_settle [OF reachable_wf_page [OF assms(1)]])
next
  case (Timeout i)
  with assms(2) have "fire i w = Some w'" by (simp add: step_def)
  then show ?thesis by (rule fire_Some) simp
next
  case Paint
  with assms(2) show ?thesis by (auto simp: step_def simp del: set_map)
next
  case (Host vs x y)
  with assms(2) have "w' = w\<lparr>videos := vs, scrollX := x, scrollY := y\<rparr>"
    by (simp add: step_def split: if_splits)
  then have "shown w' = shown w" by (intro shown_eq) simp_all
  then show ?thesis by simp
next
  case (Tick n)
  with assms(2) show ?thesis by (auto simp: step_def)
qed

theorem overlays_stay_until_stop_witness:
  "map elem_id (shown (the (step (Host [] 0 0) (the (run [Message ''start'',
       Response 0 (verdict ''participant-0-0'' ''Alice'' 92 ''Attentive'')] (boot [tile 0])))))) =
   [''overlay-participant-0-0'']"
  using overlays_stay_until_stop [of any_event
      "the (run [Message ''start'',
         Response 0 (verdict ''participant-0-0'' ''Alice'' 92 ''Attentive'')] (boot [tile 0]))"
      "Host [] 0 0"
      "the (step (Host [] 0 0) (the (run [Message ''start'',
         Response 0 (verdict ''participant-0-0'' ''Alice'' 92 ''Attentive'')] (boot [tile 0]))))",
      OF reachable_by_run [of "[tile 0]" any_event "[Message ''start'',
         Response 0 (verdict ''participant-0-0'' ''Alice'' 92 ''Attentive'')]"]]
  by (simp add: exec any_event_def)

end
