(* ===== verification/Barrier.thy ===== *)
theory Barrier
  imports Invariants Examples
begin

text \<open>
  The contract of the cycle scheduler. First the two-state machine the specification
  describes, with the proof that the content script refines it. Then the backpressure
  guarantee: as long as the control panel does not restart the analysis while requests
  of a stopped analysis are still in flight, there is one chain of cycles, and the
  requests in flight belong to one cycle. Last the progress guarantee: while the script
  is running and no video taints the canvas, a timer is pending or a request is in
  flight.
\<close>

section \<open>The specified machine and its refinement\<close>

datatype phase = Stopped | Running

datatype command = Start bool | Stop | Unknown

text \<open>
  The transitions of the specification. \<open>Start\<close> carries whether a surface is visible.
  Starting while running is refused.
\<close>

fun spec_step :: "phase \<Rightarrow> command \<Rightarrow> phase \<times> reply option" where
  "spec_step Stopped (Start True) = (Running, Some Succeeded)"
| "spec_step Stopped (Start False) = (Stopped, Some (Refused ''No participant videos found.''))"
| "spec_step Running (Start b) = (Running, Some (Refused ''Analysis is already running.''))"
| "spec_step p Stop = (Stopped, Some Halted)"
| "spec_step p Unknown = (p, None)"

definition phase_of :: "'a world_scheme \<Rightarrow> phase" where
  "phase_of w = (if isAnalyzing w then Running else Stopped)"

definition command_of :: "string \<Rightarrow> 'a world_scheme \<Rightarrow> command" where
  "command_of c w =
     (if c = ''start'' then Start (visibleVideos (videos w) \<noteq> [])
      else if c = ''stop'' then Stop else Unknown)"

lemma isAnalyzing_runAnalysisCycle [simp]: "isAnalyzing (runAnalysisCycle w) = isAnalyzing w"
  by (cases "isAnalyzing w") (simp_all add: runAnalysisCycle_fields)

lemma replies_runAnalysisCycle [simp]: "replies (runAnalysisCycle w) = replies w"
  by (cases "isAnalyzing w") (simp_all add: runAnalysisCycle_fields)

lemma stopAnalysis_world [simp]:
  "replies (stopAnalysis w) = replies w"
  "waiting (stopAnalysis w) = waiting w"
  "inflight (stopAnalysis w) = inflight w"
  "videos (stopAnalysis w) = videos w"
  "now (stopAnalysis w) = now w"
  "timers (stopAnalysis w) =
     (if isAnalyzing w
      then (case analysisTimeoutId w of None \<Rightarrow> timers w
            | Some i \<Rightarrow> filter (\<lambda>t. timer_id t \<noteq> i) (timers w))
      else timers w)"
  by (simp_all add: stopAnalysis_def split: option.split)

lemma schedule_next_world [simp]:
  "isAnalyzing (schedule_next w) = isAnalyzing w"
  "replies (schedule_next w) = replies w"
  "waiting (schedule_next w) = waiting w"
  "inflight (schedule_next w) = inflight w"
  "videos (schedule_next w) = videos w"
  "now (schedule_next w) = now w"
  by (simp_all add: schedule_next_def setTimeout_def Let_def)

lemma onMessage_refines:
  "phase_of (onMessage c w) = fst (spec_step (phase_of w) (command_of c w))"
  "replies (onMessage c w) =
     replies w @ (case snd (spec_step (phase_of w) (command_of c w)) of
                    None \<Rightarrow> [] | Some r \<Rightarrow> [r])"
  by (cases "isAnalyzing w"; cases "visibleVideos (videos w) = []";
      simp add: onMessage_def phase_of_def command_of_def startAnalysis_def Let_def)+

lemma phase_settle: "settle rid out w = Some w' \<Longrightarrow> phase_of w' = phase_of w"
  by (erule settle_Some) (simp add: phase_of_def)

lemma phase_fire: "fire i w = Some w' \<Longrightarrow> phase_of w' = phase_of w"
  by (erule fire_Some) (simp add: phase_of_def)

section \<open>One chain of cycles\<close>

text \<open>
  The control panel is \<open>calm\<close> when it starts the analysis only while no request is in
  flight. Every other event is unrestricted.
\<close>

definition calm :: "world \<Rightarrow> event \<Rightarrow> bool" where
  "calm w e \<longleftrightarrow> e \<noteq> Message ''start'' \<or> inflight w = []"

text \<open>
  A cycle is alive while it is suspended on its barrier or while the timer that starts
  its successor is pending. The invariant: at most one is alive; a pending timer is the
  one \<^verbatim>\<open>analysisTimeoutId\<close> names, and it is pending only while the script is running;
  no request is in flight while a timer is pending; the requests in flight are of one
  cycle and of different videos.
\<close>

definition same_cycle :: "request list \<Rightarrow> bool" where
  "same_cycle rs \<longleftrightarrow> list_all (\<lambda>q. cycle q = cycle (hd rs)) rs"

definition one_chain :: "'a world_scheme \<Rightarrow> bool" where
  "one_chain w \<longleftrightarrow>
     length (timers w) + length (waiting w) \<le> 1 \<and>
     list_all (\<lambda>t. isAnalyzing w \<and> analysisTimeoutId w = Some (timer_id t)) (timers w) \<and>
     (timers w = [] \<or> inflight w = []) \<and>
     same_cycle (inflight w) \<and>
     distinct (map (\<lambda>q. source (image q)) (inflight w))"

lemma same_cycle_Nil [simp]: "same_cycle []"
  by (simp add: same_cycle_def)

lemma same_cycleI: "\<forall>q\<in>set rs. cycle q = c \<Longrightarrow> same_cycle rs"
  by (cases rs) (simp_all add: same_cycle_def list_all_iff)

lemma same_cycleD: "same_cycle rs \<Longrightarrow> q \<in> set rs \<Longrightarrow> r \<in> set rs \<Longrightarrow> cycle q = cycle r"
  by (simp add: same_cycle_def list_all_iff)

lemma same_cycle_filter: "same_cycle rs \<Longrightarrow> same_cycle (filter P rs)"
  by (rule same_cycleI [of _ "cycle (hd rs)"]) (simp add: same_cycle_def list_all_iff)

lemma one_chain_eq:
  assumes "timers w' = timers w" "waiting w' = waiting w" "inflight w' = inflight w"
    "isAnalyzing w' = isAnalyzing w" "analysisTimeoutId w' = analysisTimeoutId w"
  shows "one_chain w' = one_chain w"
  by (simp add: one_chain_def assms)

lemma one_chain_boot: "one_chain (boot vs)"
  by (simp add: one_chain_def boot_def)

lemma distinct_issued:
  "distinct (map node (videos w)) \<Longrightarrow> distinct (map (\<lambda>q. source (image q)) (issued w))"
  by (simp add: issued_facts(4) distinct_map_filter)

lemma one_chain_cycle:
  assumes "isAnalyzing w" "timers w = []" "waiting w = []" "inflight w = []"
    and "distinct (map node (videos w))"
  shows "one_chain (runAnalysisCycle w)"
  using assms issued_empty_iff [of w]
  by (auto simp: one_chain_def runAnalysisCycle_fields list_all_iff issued_facts(3)
      distinct_issued outlook_def intro!: same_cycleI [of _ "next_cycle w"])

lemma one_chain_quiet:
  assumes "one_chain w" "sched_inv w" "inflight w = []" "\<not> isAnalyzing w"
  shows "timers w = []" "waiting w = []"
  using assms by (cases "timers w"; cases "waiting w"; simp add: one_chain_def sched_inv_def)+

lemma one_chain_startAnalysis:
  assumes "one_chain w" "sched_inv w" "inflight w = []" "distinct (map node (videos w))"
  shows "one_chain (snd (startAnalysis w))"
proof (cases "isAnalyzing w \<or> visibleVideos (videos w) = []")
  case True
  with assms(1) show ?thesis by (auto simp: startAnalysis_def)
next
  case False
  with assms one_chain_quiet [OF assms(1-3)] show ?thesis
    by (simp add: startAnalysis_def one_chain_cycle)
qed

lemma timers_stopAnalysis:
  assumes "one_chain w" "isAnalyzing w"
  shows "timers (stopAnalysis w) = []"
  using assms by (cases "timers w") (auto simp: one_chain_def split: option.splits)

lemma one_chain_stopAnalysis:
  assumes "one_chain w"
  shows "one_chain (stopAnalysis w)"
proof (cases "isAnalyzing w")
  case True
  with assms timers_stopAnalysis [OF assms True] show ?thesis
    by (simp add: one_chain_def)
qed (simp add: assms)

lemma one_chain_onMessage:
  assumes "one_chain w" "sched_inv w" "distinct (map node (videos w))"
    and "c \<noteq> ''start'' \<or> inflight w = []"
  shows "one_chain (onMessage c w)"
proof -
  have "one_chain ((snd (startAnalysis w))\<lparr>replies := rs\<rparr>)" if "inflight w = []" for rs
    using one_chain_startAnalysis [OF assms(1,2) that assms(3)]
    by (simp add: one_chain_eq [of "_\<lparr>replies := rs\<rparr>" "snd (startAnalysis w)"])
  moreover have "one_chain ((stopAnalysis w)\<lparr>replies := rs\<rparr>)" for rs
    using one_chain_stopAnalysis [OF assms(1)]
    by (simp add: one_chain_eq [of "_\<lparr>replies := rs\<rparr>" "stopAnalysis w"])
  ultimately show ?thesis
    using assms(1,4) by (auto simp: onMessage_def Let_def split_beta)
qed

lemma one_chain_release:
  assumes "one_chain w" "r \<in> set (inflight w)" "releases r w"
  shows "timers w = []" "removeAll (cycle r) (waiting w) = []"
    "filter (\<lambda>q. request_id q \<noteq> request_id r) (inflight w) = []"
proof -
  from assms(1) have "same_cycle (inflight w)" by (simp add: one_chain_def)
  with assms(2) have same: "\<forall>q\<in>set (inflight w). cycle q = cycle r"
    by (blast dest: same_cycleD)
  from assms(1) have "length (timers w) + length (waiting w) \<le> 1"
    by (simp add: one_chain_def)
  moreover from assms(3) have "cycle r \<in> set (waiting w)" by (simp add: releases_def)
  ultimately have "timers w = [] \<and> waiting w = [cycle r]"
    by (cases "waiting w") auto
  then show "timers w = []" "removeAll (cycle r) (waiting w) = []" by simp_all
  from assms(3) have "\<forall>q\<in>set (inflight w). request_id q \<noteq> request_id r \<longrightarrow> cycle q \<noteq> cycle r"
    by (auto simp: releases_def list_ex_iff)
  with same show "filter (\<lambda>q. request_id q \<noteq> request_id r) (inflight w) = []"
    by (simp add: filter_empty_conv)
qed

lemma one_chain_settle:
  assumes "one_chain w" "settle rid out w = Some w'"
  shows "one_chain w'"
  using assms(2)
proof (rule settle_Some)
  fix r
  assume f: "List.find (\<lambda>r. request_id r = rid) (inflight w) = Some r"
    and i: "request_id r = rid"
    and w': "w' = (if releases r w
               then schedule_next ((receive out w)
                      \<lparr>inflight := filter (\<lambda>q. request_id q \<noteq> rid) (inflight w),
                        waiting := removeAll (cycle r) (waiting w)\<rparr>)
               else (receive out w)\<lparr>inflight := filter (\<lambda>q. request_id q \<noteq> rid) (inflight w)\<rparr>)"
  from f have m: "r \<in> set (inflight w)" by (auto dest: find_Some_mem)
  show ?thesis
  proof (cases "releases r w")
    case True
    with w' i one_chain_release [OF assms(1) m True] show ?thesis
      by (simp add: one_chain_def schedule_next_def setTimeout_def Let_def)
  next
    case False
    from assms(1) m have "timers w = []" by (auto simp: one_chain_def)
    with False w' assms(1) show ?thesis
      by (auto simp: one_chain_def distinct_map_filter same_cycle_filter)
  qed
qed

lemma one_chain_fire:
  assumes "one_chain w" "distinct (map node (videos w))" "fire i w = Some w'"
  shows "one_chain w'"
  using assms(3)
proof (rule fire_Some)
  fix t
  assume f: "List.find (\<lambda>t. timer_id t = i) (timers w) = Some t"
    and w': "w' = runAnalysisCycle (w\<lparr>timers := filter (\<lambda>t. timer_id t \<noteq> i) (timers w)\<rparr>)"
  from f have "t \<in> set (timers w)" "timer_id t = i" by (auto dest: find_Some_mem)
  with assms(1) have "timers w = [t]" "waiting w = []" "inflight w = []" "isAnalyzing w"
    by (cases "timers w"; cases "waiting w"; auto simp: one_chain_def)+
  with w' \<open>timer_id t = i\<close> assms(2) show ?thesis
    by (simp add: one_chain_cycle)
qed

lemma one_chain_step:
  assumes "one_chain w" "sched_inv w" "wf_page w" "calm w e" "step e w = Some w'"
  shows "one_chain w'"
proof (cases e)
  case (Message c)
  from assms(3) have d: "distinct (map node (videos w))"
    by (simp add: wf_page_def wf_document_def)
  from assms(4) Message have "c \<noteq> ''start'' \<or> inflight w = []" by (simp add: calm_def)
  from one_chain_onMessage [OF assms(1,2) d this] Message assms(5) show ?thesis
    by (simp add: step_def)
next
  case (Response rid out)
  with assms(5) have "settle rid out w = Some w'" by (simp add: step_def)
  then show ?thesis by (rule one_chain_settle [OF assms(1)])
next
  case (Timeout i)
  from assms(3) have d: "distinct (map node (videos w))"
    by (simp add: wf_page_def wf_document_def)
  from Timeout assms(5) have "fire i w = Some w'" by (simp add: step_def)
  then show ?thesis by (rule one_chain_fire [OF assms(1) d])
next
  case Paint
  with assms(5) have "w' = run_frame w" by (simp add: step_def)
  with assms(1) show ?thesis by (simp add: one_chain_eq [of "run_frame w" w])
next
  case (Host vs x y)
  with assms(5) have "w' = w\<lparr>videos := vs, scrollX := x, scrollY := y\<rparr>"
    by (simp add: step_def split: if_splits)
  with assms(1) show ?thesis by (simp add: one_chain_def)
next
  case (Tick n)
  with assms(5) have "w' = w\<lparr>now := now w + n\<rparr>" by (simp add: step_def)
  with assms(1) show ?thesis by (simp add: one_chain_def)
qed

lemma reachable_one_chain:
  assumes "reachable_by calm w"
  shows "one_chain w"
  using assms
proof (rule invariant_rule)
  fix u e u'
  assume "reachable_by calm u" "one_chain u" "calm u e" "step e u = Some u'"
  then show "one_chain u'"
    by (intro one_chain_step [of u e u'] reachable_sched_inv reachable_wf_page)
qed (rule one_chain_boot)

text \<open>
  C1. The all-settle barrier. In every state the tab reaches while the control panel is
  calm, at most one cycle is alive (suspended on its barrier, or waiting for the timer
  that starts its successor), no request is in flight while that timer is pending, the
  requests in flight are all of one cycle, and no video has two of them.
\<close>

theorem all_settle_barrier:
  assumes "reachable_by calm w"
  shows "length (timers w) + length (waiting w) \<le> 1 \<and>
         (timers w = [] \<or> inflight w = []) \<and>
         same_cycle (inflight w) \<and>
         distinct (map (\<lambda>q. source (image q)) (inflight w))"
  using reachable_one_chain [OF assms] by (simp add: one_chain_def)

theorem all_settle_barrier_witness:
  "length (timers (the (run [Message ''start'', Tick 40, Response 1 Unreachable]
                     (boot [tile 0, tile 1])))) +
   length (waiting (the (run [Message ''start'', Tick 40, Response 1 Unreachable]
                     (boot [tile 0, tile 1])))) \<le> 1 \<and>
   (timers (the (run [Message ''start'', Tick 40, Response 1 Unreachable]
              (boot [tile 0, tile 1]))) = [] \<or>
    inflight (the (run [Message ''start'', Tick 40, Response 1 Unreachable]
                (boot [tile 0, tile 1]))) = []) \<and>
   same_cycle (inflight (the (run [Message ''start'', Tick 40, Response 1 Unreachable]
                           (boot [tile 0, tile 1])))) \<and>
   distinct (map (\<lambda>q. source (image q))
     (inflight (the (run [Message ''start'', Tick 40, Response 1 Unreachable]
                  (boot [tile 0, tile 1])))))"
  by (rule all_settle_barrier [OF reachable_by_run]) (simp_all add: exec calm_def)

section \<open>Stopping\<close>

lemma shown_stopAnalysis: "wf_page w \<Longrightarrow> isAnalyzing w \<Longrightarrow> shown (stopAnalysis w) = []"
  by (simp add: stopAnalysis_def wf_page_def wf_document_eq [of "clearTimeout _ _" w])

text \<open>
  C5. Stopping a running analysis, in a state reached under a calm control panel: no
  overlay is left on the page, no timer is left pending, the script is stopped, and the
  panel is answered \<^verbatim>\<open>{status: 'stopped'}\<close>. The requests in flight are not
  cancelled.
\<close>

theorem stop_clears_page_and_timer:
  assumes "reachable_by calm w" and "isAnalyzing w"
  shows "shown (onMessage ''stop'' w) = [] \<and> timers (onMessage ''stop'' w) = [] \<and>
         isAnalyzing (onMessage ''stop'' w) = False \<and>
         inflight (onMessage ''stop'' w) = inflight w \<and>
         replies (onMessage ''stop'' w) = replies w @ [Halted]"
  using assms reachable_wf_page [OF assms(1)]
    timers_stopAnalysis [OF reachable_one_chain [OF assms(1)] assms(2)]
  by (simp add: onMessage_def shown_stopAnalysis
      shown_eq [of "(stopAnalysis w)\<lparr>replies := replies w @ [Halted]\<rparr>" "stopAnalysis w"])

theorem stop_clears_page_and_timer_witness:
  "shown (onMessage ''stop'' (the (run [Message ''start'', Response 0
       (verdict ''participant-0-0'' ''Alice'' 92 ''Attentive''), Paint] (boot [tile 0])))) = [] \<and>
   timers (onMessage ''stop'' (the (run [Message ''start'', Response 0
       (verdict ''participant-0-0'' ''Alice'' 92 ''Attentive''), Paint] (boot [tile 0])))) = []"
  using stop_clears_page_and_timer [OF reachable_by_run [of "[tile 0]" calm
      "[Message ''start'', Response 0 (verdict ''participant-0-0'' ''Alice'' 92 ''Attentive''),
        Paint]"]]
  by (simp add: exec calm_def)

lemma schedule_next_stopped [simp]: "\<not> isAnalyzing w \<Longrightarrow> schedule_next w = w"
  by (simp add: schedule_next_def)

lemma settle_stopped:
  assumes "\<not> isAnalyzing w" "settle rid out w = Some w'"
  shows "\<not> isAnalyzing w'" "next_request w' = next_request w" "next_timer w' = next_timer w"
    "next_cycle w' = next_cycle w" "timers w' = timers w"
  using assms(2) by (rule settle_Some; simp add: assms(1))+

text \<open>
  C6. While the script is stopped, no event other than the \<^verbatim>\<open>start\<close> command makes it
  run, issue a request, set a timer or begin a cycle: not a late response, not a timer
  that is still pending, not a change of the page.
\<close>

theorem stopped_issues_nothing:
  assumes "\<not> isAnalyzing w" and "e \<noteq> Message ''start''" and "step e w = Some w'"
  shows "isAnalyzing w' = False \<and> next_request w' = next_request w \<and>
         next_timer w' = next_timer w \<and> next_cycle w' = next_cycle w"
proof (cases e)
  case (Message c)
  with assms show ?thesis by (auto simp: step_def onMessage_def split: if_splits)
next
  case (Response rid out)
  with assms(3) have "settle rid out w = Some w'" by (simp add: step_def)
  from settle_stopped [OF assms(1) this] show ?thesis by simp
next
  case (Timeout i)
  with assms(3) have "fire i w = Some w'" by (simp add: step_def)
  then show ?thesis by (rule fire_Some) (simp add: assms(1))
qed (use assms in \<open>auto simp: step_def split: if_splits\<close>)

theorem stopped_issues_nothing_witness:
  "isAnalyzing (the (step (Response 0 (verdict ''participant-0-0'' ''Alice'' 92 ''Attentive''))
      (the (run [Message ''start'', Message ''stop''] (boot [tile 0]))))) = False \<and>
   next_request (the (step (Response 0 (verdict ''participant-0-0'' ''Alice'' 92 ''Attentive''))
      (the (run [Message ''start'', Message ''stop''] (boot [tile 0]))))) = 1"
  using stopped_issues_nothing [of "the (run [Message ''start'', Message ''stop''] (boot [tile 0]))"
      "Response 0 (verdict ''participant-0-0'' ''Alice'' 92 ''Attentive'')"
      "the (step (Response 0 (verdict ''participant-0-0'' ''Alice'' 92 ''Attentive''))
         (the (run [Message ''start'', Message ''stop''] (boot [tile 0]))))"]
  by (simp add: exec)

section \<open>Progress\<close>

text \<open>
  The page is \<open>clean\<close> when none of its videos would taint the canvas. While it is, a
  running script always has a timer pending or a cycle suspended on its requests.
\<close>

definition clean :: "world \<Rightarrow> event \<Rightarrow> bool" where
  "clean w e \<longleftrightarrow> list_all (\<lambda>v. \<not> tainting v) (videos w)"

definition alive :: "'a world_scheme \<Rightarrow> bool" where
  "alive w \<longleftrightarrow> isAnalyzing w = False \<or> timers w \<noteq> [] \<or> waiting w \<noteq> []"

lemma outlook_clean: "list_all (\<lambda>v. \<not> tainting v) vs \<Longrightarrow> outlook vs \<noteq> Rejected"
  by (simp add: outlook_def list_all_iff list_ex_iff)

lemma alive_cycle:
  "list_all (\<lambda>v. \<not> tainting v) (videos w) \<Longrightarrow> alive (runAnalysisCycle w)"
  using outlook_clean [of "videos w"]
  by (cases "isAnalyzing w"; cases "outlook (videos w)")
     (simp_all add: alive_def runAnalysisCycle_fields)

lemma alive_onMessage:
  "list_all (\<lambda>v. \<not> tainting v) (videos w) \<Longrightarrow> alive w \<Longrightarrow> alive (onMessage c w)"
  using alive_cycle [of "w\<lparr>isAnalyzing := True\<rparr>"]
  by (auto simp: onMessage_def startAnalysis_def alive_def Let_def)

lemma alive_settle: "alive w \<Longrightarrow> settle rid out w = Some w' \<Longrightarrow> alive w'"
  by (erule settle_Some) (auto simp: alive_def schedule_next_def setTimeout_def Let_def)

lemma alive_fire:
  "list_all (\<lambda>v. \<not> tainting v) (videos w) \<Longrightarrow> fire i w = Some w' \<Longrightarrow> alive w'"
  using alive_cycle [of "w\<lparr>timers := filter (\<lambda>t. timer_id t \<noteq> i) (timers w)\<rparr>"]
  by (erule_tac fire_Some) simp

lemma alive_step:
  assumes "alive w" "clean w e" "step e w = Some w'"
  shows "alive w'"
proof (cases e)
  case (Message c)
  with assms show ?thesis by (auto simp: step_def clean_def intro: alive_onMessage)
next
  case (Response rid out)
  with assms show ?thesis by (auto simp: step_def intro: alive_settle)
next
  case (Timeout i)
  with assms show ?thesis by (auto simp: step_def clean_def intro: alive_fire)
qed (use assms in \<open>auto simp: step_def alive_def split: if_splits\<close>)

lemma reachable_alive:
  assumes "reachable_by clean w"
  shows "alive w"
  using assms
proof (rule invariant_rule)
  fix u e u'
  assume "alive u" "clean u e" "step e u = Some u'"
  then show "alive u'" by (rule alive_step)
qed (simp add: alive_def boot_def)

text \<open>
  C3. Progress. In every state the tab reaches while no video taints the canvas, a
  running script has a timer pending or a request in flight: the chain of cycles does
  not end silently.
\<close>

theorem running_never_stalls:
  assumes "reachable_by clean w" and "isAnalyzing w"
  shows "0 < length (timers w) + length (inflight w)"
proof (cases "timers w = []")
  case True
  with reachable_alive [OF assms(1)] assms(2) obtain c where "c \<in> set (waiting w)"
    by (cases "waiting w") (auto simp: alive_def)
  with reachable_sched_inv [OF assms(1)] have "list_ex (\<lambda>r. cycle r = c) (inflight w)"
    by (simp add: sched_inv_def list_all_iff)
  then show ?thesis by (cases "inflight w") simp_all
qed simp

theorem running_never_stalls_witness:
  "0 < length (timers (the (run [Message ''start'', Response 0 Unreachable, Tick 1000, Timeout 1]
                             (boot [tile 0])))) +
       length (inflight (the (run [Message ''start'', Response 0 Unreachable, Tick 1000, Timeout 1]
                               (boot [tile 0]))))"
  by (rule running_never_stalls [OF reachable_by_run])
     (simp_all add: exec clean_def tainting_def)

section \<open>The machine, step by step\<close>

lemma replies_settle: "settle rid out w = Some w' \<Longrightarrow> replies w' = replies w"
  by (erule settle_Some) simp

lemma replies_fire: "fire i w = Some w' \<Longrightarrow> replies w' = replies w"
  by (erule fire_Some) simp

text \<open>
  C8. The content script refines the machine of the specification. A command moves the
  phase and answers the panel as the machine says, where \<^verbatim>\<open>start\<close> counts as given a
  surface when a video passes the filter of \<^verbatim>\<open>startAnalysis\<close>; every other event
  leaves the phase alone and answers nobody.
\<close>

theorem step_refines_machine:
  assumes "step e w = Some w'"
  shows "phase_of w' =
           (case e of Message c \<Rightarrow> fst (spec_step (phase_of w) (command_of c w))
            | _ \<Rightarrow> phase_of w) \<and>
         replies w' = replies w @
           (case e of
              Message c \<Rightarrow> (case snd (spec_step (phase_of w) (command_of c w)) of
                              None \<Rightarrow> [] | Some r \<Rightarrow> [r])
            | _ \<Rightarrow> [])"
proof (cases e)
  case (Message c)
  with assms show ?thesis by (auto simp: step_def onMessage_refines)
next
  case (Response rid out)
  with assms show ?thesis by (auto simp: step_def phase_settle replies_settle)
next
  case (Timeout i)
  with assms show ?thesis by (auto simp: step_def phase_fire replies_fire)
qed (use assms in \<open>auto simp: step_def phase_of_def split: if_splits\<close>)

theorem step_refines_machine_witness:
  "phase_of (the (step (Message ''start'') (boot [tile 0]))) = Running \<and>
   replies (the (step (Message ''start'') (boot [tile 0]))) = [Succeeded]"
  using step_refines_machine [of "Message ''start''" "boot [tile 0]"
      "the (step (Message ''start'') (boot [tile 0]))"]
  by (simp add: step_def phase_of_def command_of_def boot_def visibleVideos_def tile_def)

end
