(* ===== verification/Chains.thy ===== *)
theory Chains
  imports Barrier
begin

text \<open>
  The chains of cycles beyond the barrier theorem. A chain is a cycle suspended on its
  requests or the timer that will start its successor. While the script runs on a page
  that does not taint the canvas, no event but \<^verbatim>\<open>stop\<close> changes the number of chains.
  A \<^verbatim>\<open>stop\<close> followed by a \<^verbatim>\<open>start\<close> while a cycle is suspended adds a chain; a video
  that taints the canvas ends one; a page without an eligible video keeps the chain
  running without a request.
\<close>

section \<open>Counting\<close>

lemma length_removeAll_distinct:
  "distinct xs \<Longrightarrow> x \<in> set xs \<Longrightarrow> Suc (length (removeAll x xs)) = length xs"
  by (induction xs) auto

lemma length_filter_other:
  assumes "distinct (map f xs)" and "x \<in> set xs"
  shows "Suc (length (filter (\<lambda>y. f y \<noteq> f x) xs)) = length xs"
  using assms
proof (induction xs)
  case Nil
  then show ?case by simp
next
  case (Cons y ys)
  show ?case
  proof (cases "y = x")
    case True
    with Cons.prems have "\<forall>z\<in>set ys. f z \<noteq> f x" by (auto simp: image_iff)
    then have "filter (\<lambda>z. f z \<noteq> f x) ys = ys" by (simp add: filter_id_conv)
    with True show ?thesis by simp
  next
    case False
    with Cons show ?thesis by auto
  qed
qed

lemma drawable_visible: "list_ex drawable vs \<Longrightarrow> visibleVideos vs \<noteq> []"
  by (auto simp: list_ex_iff drawable_def eligible_def visibleVideos_def filter_empty_conv)

lemma outlook_cases:
  "outlook vs = Rejected \<longleftrightarrow> list_ex tainting vs"
  "outlook vs = Suspended \<longleftrightarrow> \<not> list_ex tainting vs \<and> list_ex drawable vs"
  "outlook vs = Passed \<longleftrightarrow> \<not> list_ex tainting vs \<and> \<not> list_ex drawable vs"
  by (simp_all add: outlook_def)

section \<open>The number of chains\<close>

definition live :: "'a world_scheme \<Rightarrow> nat" where
  "live w = length (timers w) + length (waiting w)"

lemma live_cycle:
  assumes "isAnalyzing w"
  shows "live (runAnalysisCycle w) =
           (if list_ex tainting (videos w) then live w else Suc (live w))"
  using assms
  by (cases "outlook (videos w)")
     (auto simp: live_def runAnalysisCycle_fields outlook_cases)

lemma live_settle:
  assumes "sched_inv w" and "isAnalyzing w" and "settle rid out w = Some w'"
  shows "live w' = live w"
  using assms(3)
proof (rule settle_Some)
  fix r
  assume w': "w' = (if releases r w
               then schedule_next ((receive out w)
                      \<lparr>inflight := filter (\<lambda>q. request_id q \<noteq> rid) (inflight w),
                        waiting := removeAll (cycle r) (waiting w)\<rparr>)
               else (receive out w)\<lparr>inflight := filter (\<lambda>q. request_id q \<noteq> rid) (inflight w)\<rparr>)"
  show ?thesis
  proof (cases "releases r w")
    case True
    with assms(1) have "Suc (length (removeAll (cycle r) (waiting w))) = length (waiting w)"
      by (intro length_removeAll_distinct) (simp_all add: sched_inv_def releases_def)
    with True w' assms(2) show ?thesis
      by (simp add: live_def schedule_next_def setTimeout_def Let_def)
  next
    case False
    with w' show ?thesis by (simp add: live_def)
  qed
qed

lemma live_fire:
  assumes "sched_inv w" and "isAnalyzing w" and "fire i w = Some w'"
  shows "live w' = (if list_ex tainting (videos w) then live w - 1 else live w)"
  using assms(3)
proof (rule fire_Some)
  fix t
  assume f: "List.find (\<lambda>t. timer_id t = i) (timers w) = Some t"
    and w': "w' = runAnalysisCycle (w\<lparr>timers := filter (\<lambda>t. timer_id t \<noteq> i) (timers w)\<rparr>)"
  from f have t: "t \<in> set (timers w)" "timer_id t = i" by (auto dest: find_Some_mem)
  with assms(1) have "Suc (length (filter (\<lambda>u. timer_id u \<noteq> timer_id t) (timers w))) =
      length (timers w)"
    by (intro length_filter_other) (simp_all add: sched_inv_def)
  with t(2) have "Suc (live (w\<lparr>timers := filter (\<lambda>t. timer_id t \<noteq> i) (timers w)\<rparr>)) = live w"
    by (simp add: live_def)
  with assms(2) show ?thesis unfolding w' by (auto simp: live_cycle)
qed

lemma next_cycle_settle: "settle rid out w = Some w' \<Longrightarrow> next_cycle w' = next_cycle w"
  by (erule settle_Some) (simp add: schedule_next_def setTimeout_def Let_def)

lemma next_request_settle: "settle rid out w = Some w' \<Longrightarrow> next_request w' = next_request w"
  by (erule settle_Some) (simp add: schedule_next_def setTimeout_def Let_def)

lemma onMessage_refused:
  "isAnalyzing w \<Longrightarrow> c \<noteq> ''stop'' \<Longrightarrow>
   onMessage c w =
     (if c = ''start'' then w\<lparr>replies := replies w @ [Refused ''Analysis is already running.'']\<rparr>
      else w)"
  by (simp add: onMessage_def)

text \<open>
  C27. While the script runs on a page none of whose videos taints the canvas, no event
  other than \<^verbatim>\<open>stop\<close> changes the number of chains: a second \<^verbatim>\<open>start\<close> is refused, a
  response that releases a cycle sets one timer, a timer that fires starts one cycle,
  and that cycle is suspended or sets its timer. A chain neither ends nor splits.
\<close>

theorem chains_are_conserved:
  assumes "reachable_by P w" and "isAnalyzing w" and "\<not> list_ex tainting (videos w)"
    and "e \<noteq> Message ''stop''" and "step e w = Some w'"
  shows "length (timers w') + length (waiting w') = length (timers w) + length (waiting w) \<and>
         isAnalyzing w' = True"
proof (cases e)
  case (Message c)
  with assms(2,4,5) show ?thesis by (auto simp: step_def onMessage_refused)
next
  case (Response rid out)
  with assms(5) have s: "settle rid out w = Some w'" by (simp add: step_def)
  from live_settle [OF reachable_sched_inv [OF assms(1)] assms(2) s] phase_settle [OF s] assms(2)
  show ?thesis by (simp add: live_def phase_of_def split: if_splits)
next
  case (Timeout i)
  with assms(5) have f: "fire i w = Some w'" by (simp add: step_def)
  from live_fire [OF reachable_sched_inv [OF assms(1)] assms(2) f] phase_fire [OF f] assms(2,3)
  show ?thesis by (simp add: live_def phase_of_def split: if_splits)
qed (use assms(2,5) in \<open>auto simp: step_def split: if_splits\<close>)

theorem chains_are_conserved_witness:
  "length (timers (the (step (Response 0 Unreachable) (the (run [Message ''start'']
      (boot [tile 0])))))) +
   length (waiting (the (step (Response 0 Unreachable) (the (run [Message ''start'']
      (boot [tile 0])))))) = 1"
  using chains_are_conserved [of any_event "the (run [Message ''start''] (boot [tile 0]))"
      "Response 0 Unreachable"
      "the (step (Response 0 Unreachable) (the (run [Message ''start''] (boot [tile 0]))))",
      OF reachable_by_run [of "[tile 0]" any_event "[Message ''start'']"]]
  by (simp add: exec any_event_def tainting_def)

section \<open>Restarting while a request is in flight\<close>

lemma restart:
  assumes "isAnalyzing w" and "visibleVideos (videos w) \<noteq> []"
  shows "onMessage ''start'' (onMessage ''stop'' w) =
    (runAnalysisCycle ((stopAnalysis w)\<lparr>replies := replies w @ [Halted], isAnalyzing := True\<rparr>))
      \<lparr>replies := replies w @ [Halted, Succeeded]\<rparr>"
  using assms by (simp add: onMessage_def startAnalysis_def Let_def)

lemma next_stopAnalysis [simp]:
  "next_cycle (stopAnalysis w) = next_cycle w"
  "next_request (stopAnalysis w) = next_request w"
  by (simp_all add: stopAnalysis_def)

text \<open>
  C2. The barrier is per chain, and \<^verbatim>\<open>stop\<close> does not end the chain of a cycle that is
  suspended on its requests. In any state the tab can reach in which the script runs, a
  cycle is suspended and the page has a video to sample and none that taints the
  canvas, \<^verbatim>\<open>stop\<close> followed by \<^verbatim>\<open>start\<close> leaves the old cycle suspended and suspends a
  new one beside it: requests of both are in flight, which the barrier theorem excludes
  for a calm control panel. By the conservation of chains both go on.
\<close>

theorem restart_doubles_the_chain:
  assumes "reachable_by P w" and "isAnalyzing w" and "c \<in> set (waiting w)"
    and "list_ex drawable (videos w)" and "\<not> list_ex tainting (videos w)"
  shows "isAnalyzing (onMessage ''start'' (onMessage ''stop'' w)) = True \<and>
         waiting (onMessage ''start'' (onMessage ''stop'' w)) = waiting w @ [next_cycle w] \<and>
         c < next_cycle w \<and>
         list_ex (\<lambda>q. cycle q = c) (inflight (onMessage ''start'' (onMessage ''stop'' w))) \<and>
         list_ex (\<lambda>q. cycle q = next_cycle w)
           (inflight (onMessage ''start'' (onMessage ''stop'' w))) \<and>
         same_cycle (inflight (onMessage ''start'' (onMessage ''stop'' w))) = False \<and>
         replies (onMessage ''start'' (onMessage ''stop'' w)) = replies w @ [Halted, Succeeded]"
proof -
  let ?u = "(stopAnalysis w)\<lparr>replies := replies w @ [Halted], isAnalyzing := True\<rparr>"
  let ?w2 = "onMessage ''start'' (onMessage ''stop'' w)"
  have w2: "?w2 = (runAnalysisCycle ?u)\<lparr>replies := replies w @ [Halted, Succeeded]\<rparr>"
    using assms(2) drawable_visible [OF assms(4)] by (rule restart)
  have u: "isAnalyzing ?u" "videos ?u = videos w" "waiting ?u = waiting w"
    "inflight ?u = inflight w" "next_cycle ?u = next_cycle w"
    by simp_all
  from assms(4,5) have out: "outlook (videos w) = Suspended" by (simp add: outlook_cases)
  from assms(4) have "issued ?u \<noteq> []" by (simp add: issued_empty_iff)
  then obtain q where q: "q \<in> set (issued ?u)" by (cases "issued ?u") auto
  then have qc: "cycle q = next_cycle w" using issued_facts(3) [of q ?u] by simp
  from reachable_sched_inv [OF assms(1)] assms(3)
  obtain r where r: "r \<in> set (inflight w)" "cycle r = c" and c: "c < next_cycle w"
    by (auto simp: sched_inv_def list_all_iff list_ex_iff)
  have inflight: "inflight ?w2 = inflight w @ issued ?u"
    unfolding w2 by (simp add: runAnalysisCycle_fields(3) [OF u(1)])
  have "\<not> same_cycle (inflight ?w2)"
    using same_cycleD [of "inflight ?w2" r q] r q qc c unfolding inflight by auto
  moreover have "waiting ?w2 = waiting w @ [next_cycle w]"
    unfolding w2 using out by (simp add: runAnalysisCycle_fields(6) [OF u(1)])
  moreover have "isAnalyzing ?w2" "replies ?w2 = replies w @ [Halted, Succeeded]"
    unfolding w2 by simp_all
  ultimately show ?thesis
    using r q qc c unfolding inflight by (auto simp: list_ex_iff)
qed

theorem restart_doubles_the_chain_witness:
  "waiting (onMessage ''start'' (onMessage ''stop''
      (the (run [Message ''start''] (boot [tile 0]))))) = [0, 1] \<and>
   map cycle (inflight (onMessage ''start'' (onMessage ''stop''
      (the (run [Message ''start''] (boot [tile 0])))))) = [0, 1] \<and>
   map student_id (inflight (onMessage ''start'' (onMessage ''stop''
      (the (run [Message ''start''] (boot [tile 0])))))) =
     [''participant-0-0'', ''participant-0-0'']"
  using restart_doubles_the_chain [of any_event "the (run [Message ''start''] (boot [tile 0]))" 0,
      OF reachable_by_run [of "[tile 0]" any_event "[Message ''start'']"]]
  by (simp add: exec any_event_def tainting_def drawable_def)

section \<open>A video that taints the canvas\<close>

text \<open>
  A running script is \<open>stalled\<close> when no timer is pending and no cycle is suspended:
  nothing is left that would call \<^verbatim>\<open>runAnalysisCycle\<close>.
\<close>

definition stalled :: "'a world_scheme \<Rightarrow> bool" where
  "stalled w \<longleftrightarrow> isAnalyzing w \<and> timers w = [] \<and> waiting w = []"

lemma stalled_step:
  assumes "stalled w" and "e \<noteq> Message ''stop''" and "step e w = Some w'"
  shows "stalled w'" and "next_cycle w' = next_cycle w" and "next_request w' = next_request w"
proof -
  have "stalled w' \<and> next_cycle w' = next_cycle w \<and> next_request w' = next_request w"
  proof (cases e)
    case (Message c)
    with assms show ?thesis by (auto simp: step_def stalled_def onMessage_refused)
  next
    case (Response rid out)
    with assms(3) have "settle rid out w = Some w'" by (simp add: step_def)
    then show ?thesis
      using assms(1) by (elim settle_Some) (simp add: stalled_def releases_def)
  next
    case (Timeout i)
    with assms(1,3) show ?thesis by (simp add: step_def fire_def stalled_def)
  qed (use assms(1,3) in \<open>auto simp: step_def stalled_def split: if_splits\<close>)
  then show "stalled w'" and "next_cycle w' = next_cycle w"
    and "next_request w' = next_request w"
    by simp_all
qed

lemma stalled_run:
  assumes "stalled w" and "Message ''stop'' \<notin> set es" and "run es w = Some w'"
  shows "stalled w' \<and> next_cycle w' = next_cycle w \<and> next_request w' = next_request w"
  using assms
proof (induction es arbitrary: w)
  case Nil
  then show ?case by simp
next
  case (Cons e es)
  from Cons.prems(3) obtain u where u: "step e w = Some u" and r: "run es u = Some w'"
    by (auto split: option.splits)
  from Cons.prems(2) have e: "e \<noteq> Message ''stop''" and es: "Message ''stop'' \<notin> set es"
    by auto
  from stalled_step [OF Cons.prems(1) e u] Cons.IH [OF _ es r] show ?case by simp
qed

lemma next_cycle_onMessage:
  "next_cycle (onMessage c w) \<noteq> next_cycle w \<Longrightarrow>
   c = ''start'' \<and> \<not> isAnalyzing w \<and> visibleVideos (videos w) \<noteq> []"
  by (auto simp: onMessage_def startAnalysis_def Let_def split: if_splits)

text \<open>Under a calm control panel, a cycle over a video that taints the canvas is the last.\<close>

lemma tainted_cycle_stalls:
  assumes "reachable_by calm w" and "calm w e" and "list_ex tainting (videos w)"
    and "step e w = Some w'" and "next_cycle w' \<noteq> next_cycle w"
  shows "stalled w'"
proof (cases e)
  case (Message c)
  with assms(4) have w': "w' = onMessage c w" by (simp add: step_def)
  with assms(5) have c: "c = ''start''" "\<not> isAnalyzing w" "visibleVideos (videos w) \<noteq> []"
    by (auto dest: next_cycle_onMessage)
  with assms(2) Message have "inflight w = []" by (simp add: calm_def)
  from one_chain_quiet [OF reachable_one_chain [OF assms(1)] reachable_sched_inv [OF assms(1)]
      this c(2)] assms(3) c
  show ?thesis
    by (simp add: w' onMessage_def startAnalysis_def stalled_def runAnalysisCycle_fields
        outlook_def)
next
  case (Response rid out)
  with assms(4,5) show ?thesis by (auto simp: step_def dest: next_cycle_settle)
next
  case (Timeout i)
  with assms(4) have "fire i w = Some w'" by (simp add: step_def)
  then show ?thesis
  proof (rule fire_Some)
    fix t
    assume f: "List.find (\<lambda>t. timer_id t = i) (timers w) = Some t"
      and w': "w' = runAnalysisCycle (w\<lparr>timers := filter (\<lambda>t. timer_id t \<noteq> i) (timers w)\<rparr>)"
    from f have "t \<in> set (timers w)" "timer_id t = i" by (auto dest: find_Some_mem)
    with reachable_one_chain [OF assms(1)]
    have "timers w = [t]" "waiting w = []" "isAnalyzing w"
      by (cases "timers w"; cases "waiting w"; auto simp: one_chain_def)+
    with \<open>timer_id t = i\<close> assms(3) show ?thesis
      by (simp add: w' stalled_def runAnalysisCycle_fields outlook_def)
  qed
qed (use assms(4,5) in \<open>auto simp: step_def split: if_splits\<close>)

text \<open>
  C4. \<^verbatim>\<open>toDataURL\<close> is called outside the \<^verbatim>\<open>try\<close> block, so a video of another origin
  makes the promise of its \<^verbatim>\<open>captureAndSendFrame\<close> reject, \<^verbatim>\<open>Promise.all\<close> rejects with
  it, and the cycle ends before it sets the timer. Under a calm control panel, once a
  cycle has run over such a video the script is running with no timer pending and no
  cycle suspended, and it stays so through every later event short of \<^verbatim>\<open>stop\<close>: no
  further cycle begins and no further request is issued, whatever the responses, the
  host page and the clock do.
\<close>

theorem tainted_video_ends_the_chain:
  assumes "reachable_by calm w" and "calm w e" and "list_ex tainting (videos w)"
    and "step e w = Some w1" and "next_cycle w1 \<noteq> next_cycle w"
    and "run es w1 = Some w2" and "Message ''stop'' \<notin> set es"
  shows "isAnalyzing w2 = True \<and> timers w2 = [] \<and> waiting w2 = [] \<and>
         next_cycle w2 = next_cycle w1 \<and> next_request w2 = next_request w1"
  using stalled_run [OF tainted_cycle_stalls [OF assms(1-5)] assms(7,6)]
  by (simp add: stalled_def)

theorem tainted_video_ends_the_chain_witness:
  "isAnalyzing (the (run [Response 0 (verdict ''participant-0-0'' ''Alice'' 92 ''Attentive''),
       Paint, Tick 5000] (the (step (Message ''start'') (boot [tile 0, foreign_tile 1]))))) = True \<and>
   timers (the (run [Response 0 (verdict ''participant-0-0'' ''Alice'' 92 ''Attentive''),
       Paint, Tick 5000] (the (step (Message ''start'') (boot [tile 0, foreign_tile 1]))))) = [] \<and>
   next_request (the (run [Response 0 (verdict ''participant-0-0'' ''Alice'' 92 ''Attentive''),
       Paint, Tick 5000] (the (step (Message ''start'') (boot [tile 0, foreign_tile 1]))))) = 1"
  using tainted_video_ends_the_chain [of "boot [tile 0, foreign_tile 1]" "Message ''start''"
      "the (step (Message ''start'') (boot [tile 0, foreign_tile 1]))"
      "[Response 0 (verdict ''participant-0-0'' ''Alice'' 92 ''Attentive''), Paint, Tick 5000]"
      "the (run [Response 0 (verdict ''participant-0-0'' ''Alice'' 92 ''Attentive''),
         Paint, Tick 5000] (the (step (Message ''start'') (boot [tile 0, foreign_tile 1]))))",
      OF reachable_by.boot [of "[tile 0, foreign_tile 1]"]]
  by (simp add: exec calm_def tainting_def)

section \<open>A page without an eligible video\<close>

lemma idle_cycle:
  assumes "isAnalyzing w" and "\<not> list_ex eligible (videos w)"
  shows "inflight (runAnalysisCycle w) = inflight w"
    and "next_request (runAnalysisCycle w) = next_request w"
    and "timers (runAnalysisCycle w) = timers w @ [\<lparr>timer_id = next_timer w, due = now w + 1000\<rparr>]"
    and "waiting (runAnalysisCycle w) = waiting w"
proof -
  from assms(2) have "\<not> list_ex drawable (videos w)" "\<not> list_ex tainting (videos w)"
    by (auto simp: list_ex_iff drawable_def tainting_def)
  then have "outlook (videos w) = Passed" "issued w = []"
    by (simp_all add: outlook_cases issued_empty_iff)
  with assms(1) show "inflight (runAnalysisCycle w) = inflight w"
    and "next_request (runAnalysisCycle w) = next_request w"
    and "timers (runAnalysisCycle w) = timers w @ [\<lparr>timer_id = next_timer w, due = now w + 1000\<rparr>]"
    and "waiting (runAnalysisCycle w) = waiting w"
    by (simp_all add: runAnalysisCycle_fields)
qed

text \<open>
  C25. \<^verbatim>\<open>startAnalysis\<close> filters the videos by ready state and height only, the cycle
  also by width. On a page that has a video for the first filter and none for the
  second, \<^verbatim>\<open>start\<close> is answered \<^verbatim>\<open>success\<close> and the script runs, but the cycle issues no
  request: it passes its barrier at once and sets the timer of the next cycle.
\<close>

theorem start_succeeds_without_surface:
  assumes "\<not> isAnalyzing w" and "visibleVideos (videos w) \<noteq> []"
    and "\<not> list_ex eligible (videos w)"
  shows "replies (onMessage ''start'' w) = replies w @ [Succeeded] \<and>
         isAnalyzing (onMessage ''start'' w) = True \<and>
         inflight (onMessage ''start'' w) = inflight w \<and>
         next_request (onMessage ''start'' w) = next_request w \<and>
         waiting (onMessage ''start'' w) = waiting w \<and>
         timers (onMessage ''start'' w) =
           timers w @ [\<lparr>timer_id = next_timer w, due = now w + 1000\<rparr>]"
  using assms idle_cycle [of "w\<lparr>isAnalyzing := True\<rparr>"]
  by (simp add: onMessage_def startAnalysis_def Let_def)

theorem start_succeeds_without_surface_witness:
  "replies (onMessage ''start'' (boot [thumbnail 0])) = [Succeeded] \<and>
   inflight (onMessage ''start'' (boot [thumbnail 0])) = [] \<and>
   timers (onMessage ''start'' (boot [thumbnail 0])) = [\<lparr>timer_id = 1, due = 1000\<rparr>]"
  using start_succeeds_without_surface [of "boot [thumbnail 0]"]
  by (simp add: exec)

text \<open>
  C28. While the page has no eligible video, no event makes the script issue a request:
  the cycles of a running script go on from timer to timer and sample nothing.
\<close>

theorem idle_page_issues_nothing:
  assumes "\<not> list_ex eligible (videos w)" and "step e w = Some w'"
  shows "next_request w' = next_request w \<and> set (inflight w') \<subseteq> set (inflight w)"
proof (cases e)
  case (Message c)
  with assms(2) have w': "w' = onMessage c w" by (simp add: step_def)
  show ?thesis
  proof (cases "c = ''start'' \<and> \<not> isAnalyzing w \<and> visibleVideos (videos w) \<noteq> []")
    case True
    with assms(1) idle_cycle(1,2) [of "w\<lparr>isAnalyzing := True\<rparr>"] show ?thesis
      by (simp add: w' onMessage_def startAnalysis_def)
  next
    case False
    then show ?thesis by (auto simp: w' onMessage_def startAnalysis_def Let_def)
  qed
next
  case (Response rid out)
  with assms(2) have "settle rid out w = Some w'" by (simp add: step_def)
  then show ?thesis
    by (rule settle_Some) (auto simp: schedule_next_def setTimeout_def Let_def)
next
  case (Timeout i)
  with assms(2) have "fire i w = Some w'" by (simp add: step_def)
  then show ?thesis
  proof (rule fire_Some)
    fix t
    assume w': "w' = runAnalysisCycle (w\<lparr>timers := filter (\<lambda>t. timer_id t \<noteq> i) (timers w)\<rparr>)"
    with assms(1) idle_cycle(1,2) [of "w\<lparr>timers := filter (\<lambda>t. timer_id t \<noteq> i) (timers w)\<rparr>"]
    show ?thesis by (cases "isAnalyzing w") simp_all
  qed
qed (use assms(2) in \<open>auto simp: step_def split: if_splits\<close>)

theorem idle_page_issues_nothing_witness:
  "next_request (the (step (Timeout 1) (the (run [Message ''start'', Tick 1000]
      (boot [thumbnail 0]))))) = 0"
  using idle_page_issues_nothing [of "the (run [Message ''start'', Tick 1000] (boot [thumbnail 0]))"
      "Timeout 1"
      "the (step (Timeout 1) (the (run [Message ''start'', Tick 1000] (boot [thumbnail 0]))))"]
  by (simp add: exec)

end
