(* ===== verification/Scenarios.thy ===== *)
theory Scenarios
  imports Barrier
begin

text \<open>
  From the request to the screen. The first theorem follows a judgment from \<^verbatim>\<open>start\<close>
  to the paint that shows it, for any video the script samples. The others concern what
  a response does to the page whatever state the script is in: the overlay belongs to
  the participant the response names, and it is drawn also when the script has been
  stopped in the meantime.
\<close>

section \<open>What a response does to the page\<close>

lemma settle_page:
  assumes "settle rid out w = Some w'"
  shows "nodes w' = nodes (receive out w)" and "attached w' = attached (receive out w)"
    and "animation_queue w' = animation_queue (receive out w)"
    and "scrollX w' = scrollX w" and "scrollY w' = scrollY w" and "videos w' = videos w"
  using assms by (rule settle_Some; simp add: schedule_next_def setTimeout_def Let_def)+

lemma settle_enabled: "r \<in> set (inflight w) \<Longrightarrow> \<exists>w'. settle (request_id r) out w = Some w'"
  using settle_None [of "request_id r" out w] by auto

text \<open>The element a judgment leaves on the page of the tab after the next paint.\<close>

lemma settled_then_painted:
  assumes "wf_page w" and "settle rid out w = Some w'"
    and "judgment_of out = Some (sid, res)" and "query_monitor_id (to_str sid) w = Some v"
  shows "Option.bind (getElementById (overlay_id (to_str sid)) (run_frame w'))
           (node_at (run_frame w')) =
         Some \<lparr>elem_id = overlay_id (to_str sid), className = ''monitor-overlay'',
                cssText = Some \<lparr>css_left = scrollX w + rect_left (bounds v),
                                 css_top = scrollY w + rect_top (bounds v),
                                 css_width = rect_width (bounds v),
                                 css_height = rect_height (bounds v),
                                 css_border = statusColor (js_get_opt res ''status'')\<rparr>,
                label = Some (label_html res (statusColor (js_get_opt res ''status'')))\<rparr>"
proof -
  let ?x = "snd (updateOverlay sid res w)"
  have rx: "receive out w = ?x" using assms(3) by (rule receive_judgment)
  have n: "nodes (run_frame w') = nodes (run_frame ?x)"
    using settle_page [OF assms(2)] by (intro nodes_run_frame_cong) (simp_all add: rx)
  have a: "attached (run_frame w') = attached (run_frame ?x)"
    using settle_page(2) [OF assms(2)] by (simp add: rx)
  have "getElementById i (run_frame w') = getElementById i (run_frame ?x)" for i
    using n a by (rule getElementById_eq)
  moreover have "node_at (run_frame w') = node_at (run_frame ?x)" using n by (rule node_at_eq)
  ultimately show ?thesis
    using drawn_at_next_paint [OF assms(1,4) judgment_of_truthy [OF assms(3)]] by simp
qed

section \<open>From start to the screen\<close>

text \<open>
  C9. End to end, for a page with one video that the script samples (ready, more than
  100 pixels high and wide, with decoded frames of a clean origin, not yet stamped), a
  \<^verbatim>\<open>start\<close> at any time \<open>t0\<close> and a response that arrives any \<open>n\<close> milliseconds later
  with any truthy judgment for the identity minted at the start. After the next paint
  there is exactly one overlay; it lies on the rectangle of the video, its border has
  the colour of the status and its label is the markup of the judgment. The panel has
  been answered \<^verbatim>\<open>success\<close>, no request is in flight, and the timer of the next cycle is
  due one second after the response.
\<close>

theorem judgment_reaches_the_screen:
  assumes "eligible v" and "videoWidth v \<noteq> 0" and "origin_clean v" and "monitorId v = None"
    and "truthy res"
  shows "map_option
           (\<lambda>w. (shown w, replies w, timers w, inflight w, map monitorId (videos w)))
           (run [Tick t0, Message ''start'', Tick n,
                 Response 0 (Answered 200 (Some (JObj [(''student_id'', JStr (mint_id t0 0)),
                                                       (''result'', res)]))),
                 Paint] (boot [v])) =
         Some ([\<lparr>elem_id = overlay_id (mint_id t0 0), className = ''monitor-overlay'',
                  cssText = Some \<lparr>css_left = rect_left (bounds v),
                                   css_top = rect_top (bounds v),
                                   css_width = rect_width (bounds v),
                                   css_height = rect_height (bounds v),
                                   css_border = statusColor (js_get_opt res ''status'')\<rparr>,
                  label = Some (label_html res (statusColor (js_get_opt res ''status'')))\<rparr>],
               [Succeeded], [\<lparr>timer_id = 1, due = t0 + n + 1000\<rparr>], [],
               [Some (mint_id t0 0)])"
  using assms
  by (simp add: step_def onMessage_def startAnalysis_def runAnalysisCycle_def visit_def
      await_all_def schedule_next_def setTimeout_def settle_def boot_def visibleVideos_def
      eligible_def ensure_id_def id_of_def needs_id_def captureAndSendFrame_def sample_def
      receive_def handle_body_def response_ok_def updateOverlay_def query_monitor_id_def
      ensure_overlay_def getElementById_def create_overlay_def requestAnimationFrame_def
      run_frame_def paint_def node_at_def shown_def truthy_js_get Let_def
      List.map_filter_def)

theorem judgment_reaches_the_screen_witness:
  "map_option
     (\<lambda>w. (map elem_id (shown w), map cssText (shown w),
           map (map_option (strip_tags False) \<circ> label) (shown w), replies w, timers w))
     (run [Tick 0, Message ''start'', Tick 250,
           Response 0 (verdict ''participant-0-0'' ''Alice'' 92 ''Attentive''), Paint]
        (boot [tile 0])) =
   Some ([''overlay-participant-0-0''],
         [Some \<lparr>css_left = 10, css_top = 20, css_width = 320, css_height = 180,
                 css_border = ''#28a745''\<rparr>],
         [Some ''Alice | 92 | Attentive''], [Succeeded],
         [\<lparr>timer_id = 1, due = 1250\<rparr>])"
  using judgment_reaches_the_screen [of "tile 0"
      "JObj [(''name'', JStr ''Alice''), (''score'', JNum 92), (''status'', JStr ''Attentive'')]"
      0 250]
  by (simp add: exec)

section \<open>The identity in the response\<close>

text \<open>
  C26. The overlay is keyed by the \<^verbatim>\<open>student_id\<close> of the response body, not by the video
  the frame was taken from. In any state the tab can reach, when the answer to any
  request in flight carries a judgment and names an identity found on the page, then
  after the next paint the element \<^verbatim>\<open>overlay-<id>\<close> of that identity lies on the
  rectangle of the video that carries it, with the colour and the label of the
  judgment, whatever video the answered request was made for.
\<close>

theorem response_names_the_overlay:
  assumes "reachable_by P w" and "r \<in> set (inflight w)"
    and "judgment_of out = Some (sid, res)" and "query_monitor_id (to_str sid) w = Some v"
  shows "run [Response (request_id r) out, Paint] w =
           Some (run_frame (the (settle (request_id r) out w))) \<and>
         Option.bind (getElementById (overlay_id (to_str sid))
                        (run_frame (the (settle (request_id r) out w))))
           (node_at (run_frame (the (settle (request_id r) out w)))) =
         Some \<lparr>elem_id = overlay_id (to_str sid), className = ''monitor-overlay'',
                cssText = Some \<lparr>css_left = scrollX w + rect_left (bounds v),
                                 css_top = scrollY w + rect_top (bounds v),
                                 css_width = rect_width (bounds v),
                                 css_height = rect_height (bounds v),
                                 css_border = statusColor (js_get_opt res ''status'')\<rparr>,
                label = Some (label_html res (statusColor (js_get_opt res ''status'')))\<rparr>"
proof -
  from settle_enabled [OF assms(2)] obtain w' where s: "settle (request_id r) out w = Some w'"
    by blast
  from settled_then_painted [OF reachable_wf_page [OF assms(1)] s assms(3,4)] s
  show ?thesis by (simp add: step_def)
qed

theorem response_names_the_overlay_witness:
  "map_option (\<lambda>w. (map student_id (inflight w), map elem_id (shown w),
        map (map_option css_left \<circ> cssText) (shown w)))
     (run [Response 0 (verdict ''participant-0-1'' ''Bob'' 12 ''Inattentive''), Paint]
        (the (run [Message ''start''] (boot [tile 0, tile 1])))) =
   Some ([''participant-0-1''], [''overlay-participant-0-1''], [Some 340])"
  using response_names_the_overlay [of any_event
      "the (run [Message ''start''] (boot [tile 0, tile 1]))"
      "\<lparr>request_id = 0, cycle = 0, student_id = ''participant-0-0'',
        image = \<lparr>source = 0, image_width = 480, image_height = 270\<rparr>\<rparr>"
      "verdict ''participant-0-1'' ''Bob'' 12 ''Inattentive''" "JStr ''participant-0-1''"
      "JObj [(''name'', JStr ''Bob''), (''score'', JNum 12), (''status'', JStr ''Inattentive'')]"
      "(tile 1)\<lparr>monitorId := Some ''participant-0-1''\<rparr>",
      OF reachable_by_run [of "[tile 0, tile 1]" any_event "[Message ''start'']"]]
  by (simp add: exec any_event_def judgment_of_def)

section \<open>A response that arrives after stop\<close>

text \<open>
  C7. \<^verbatim>\<open>captureAndSendFrame\<close> does not look at \<^verbatim>\<open>isAnalyzing\<close> when its response
  arrives. In any state the tab can reach in which the script is stopped, a response
  that carries a judgment for an identity found on the page puts the overlay of that
  identity on the page; the script stays stopped and sets no timer, and a further
  \<^verbatim>\<open>stop\<close> does not remove the overlay, because \<^verbatim>\<open>stopAnalysis\<close> returns early when the
  script is not running.
\<close>

theorem late_response_draws_after_stop:
  assumes "reachable_by P w" and "isAnalyzing w = False" and "settle rid out w = Some w'"
    and "judgment_of out = Some (sid, res)" and "query_monitor_id (to_str sid) w = Some v"
  shows "overlay_id (to_str sid) \<in> set (map elem_id (shown w')) \<and>
         isAnalyzing w' = False \<and> timers w' = timers w \<and>
         shown (onMessage ''stop'' w') = shown w'"
proof -
  from assms(2) have stopped: "\<not> isAnalyzing w" by simp
  note st = settle_stopped [OF stopped assms(3)]
  have "shown w' = shown (receive out w)"
    using settle_page(1,2) [OF assms(3)] by (rule shown_eq)
  also have "\<dots> = shown (snd (updateOverlay sid res w))"
    by (simp add: receive_judgment [OF assms(4)])
  finally have "set (map elem_id (shown w')) =
      insert (overlay_id (to_str sid)) (set (map elem_id (shown w)))"
    using shown_ids_updateOverlay [OF reachable_wf_page [OF assms(1)], of sid res] assms(5)
    by simp
  moreover have "shown (onMessage ''stop'' w') = shown w'"
    using st(1) by (intro shown_eq) (simp_all add: onMessage_def)
  ultimately show ?thesis using st by simp
qed

theorem late_response_draws_after_stop_witness:
  "map elem_id (shown (onMessage ''stop''
      (the (settle 0 (verdict ''participant-0-0'' ''Alice'' 92 ''Attentive'')
         (the (run [Message ''start'', Message ''stop''] (boot [tile 0]))))))) =
     [''overlay-participant-0-0''] \<and>
   isAnalyzing (the (settle 0 (verdict ''participant-0-0'' ''Alice'' 92 ''Attentive'')
      (the (run [Message ''start'', Message ''stop''] (boot [tile 0]))))) = False"
  using late_response_draws_after_stop [of any_event
      "the (run [Message ''start'', Message ''stop''] (boot [tile 0]))" 0
      "verdict ''participant-0-0'' ''Alice'' 92 ''Attentive''"
      "the (settle 0 (verdict ''participant-0-0'' ''Alice'' 92 ''Attentive'')
         (the (run [Message ''start'', Message ''stop''] (boot [tile 0]))))"
      "JStr ''participant-0-0''"
      "JObj [(''name'', JStr ''Alice''), (''score'', JNum 92), (''status'', JStr ''Attentive'')]"
      "(tile 0)\<lparr>monitorId := Some ''participant-0-0''\<rparr>",
      OF reachable_by_run [of "[tile 0]" any_event "[Message ''start'', Message ''stop'']"]]
  by (simp add: exec any_event_def judgment_of_def)

end
