(* ===== verification/Naming.thy ===== *)
theory Naming
  imports Barrier
begin

text \<open>
  Identities across the events of a session. What a step can do to the videos; that no
  step replaces the identity of a video that stays on the page; and that the identities
  on the page are pairwise different in every state reached while the control panel is
  orderly, because two cycles that mint are then a millisecond apart.
\<close>

section \<open>What a step does to the videos\<close>

lemma videos_runAnalysisCycle:
  "videos (runAnalysisCycle w) = (if isAnalyzing w then discover (now w) (videos w) else videos w)"
  by (simp add: runAnalysisCycle_fields)

lemma videos_onMessage:
  "videos (onMessage c w) = videos w \<or> videos (onMessage c w) = discover (now w) (videos w)"
  by (simp add: onMessage_def startAnalysis_def videos_runAnalysisCycle)

lemma videos_settle: "settle rid out w = Some w' \<Longrightarrow> videos w' = videos w"
  by (erule settle_Some) simp

lemma videos_fire:
  "fire i w = Some w' \<Longrightarrow> videos w' = videos w \<or> videos w' = discover (now w) (videos w)"
  by (erule fire_Some) (simp add: videos_runAnalysisCycle)

lemma videos_step:
  assumes "step e w = Some w'"
  shows "videos w' = videos w \<or> videos w' = discover (now w) (videos w) \<or>
         host_keeps (videos w) (videos w')"
proof (cases e)
  case (Message c)
  with assms videos_onMessage [of c w] show ?thesis by (auto simp: step_def)
next
  case (Response rid out)
  with assms show ?thesis by (auto simp: step_def dest: videos_settle)
next
  case (Timeout i)
  with assms show ?thesis by (auto simp: step_def dest: videos_fire)
qed (use assms in \<open>auto simp: step_def split: if_splits\<close>)

section \<open>Identities are kept\<close>

lemma assign_ids_keeps:
  assumes "v' \<in> set (assign_ids t0 i vs)"
  shows "\<exists>v\<in>set vs. node v = node v' \<and> (needs_id v \<or> v' = v)"
  using assms
proof (induction vs arbitrary: i)
  case (Cons u us)
  then show ?case by (auto simp: ensure_id_def split: if_splits)
qed simp

lemma host_keeps_origin:
  assumes "host_keeps old new" "v' \<in> set new" "monitorId v' \<noteq> None"
  shows "\<exists>v\<in>set old. node v = node v' \<and> monitorId v = monitorId v'"
proof -
  from assms obtain v where "List.find (\<lambda>v. node v = node v') old = Some v"
    and "monitorId v' = monitorId v"
    by (auto simp: host_keeps_def list_all_iff split: option.splits)
  then show ?thesis by (auto dest: find_Some_mem)
qed

lemma same_node_same_video:
  "distinct (map node vs) \<Longrightarrow> u \<in> set vs \<Longrightarrow> v \<in> set vs \<Longrightarrow> node u = node v \<Longrightarrow> u = v"
  by (auto simp: distinct_map dest: inj_onD)

text \<open>
  C10. Identity stability. In a state the tab can reach, no event changes the identity of
  a video that has one and is still on the page afterwards: not a cycle, which stamps
  only videos without identity, and not a change of the page by its host.
\<close>

theorem identity_is_stable:
  assumes "reachable w" and "step e w = Some w'"
    and "v \<in> set (videos w)" and "monitorId v = Some s" and "s \<noteq> []"
    and "v' \<in> set (videos w')" and "node v' = node v"
  shows "monitorId v' = Some s"
proof -
  from reachable_wf_page [OF assms(1)] have d: "distinct (map node (videos w))"
    by (simp add: wf_page_def wf_document_def)
  from assms(4,5) have has: "\<not> needs_id v" by (simp add: needs_id_def)
  from videos_step [OF assms(2)] consider
    "videos w' = videos w" | "videos w' = discover (now w) (videos w)"
    | "host_keeps (videos w) (videos w')" by blast
  then show ?thesis
  proof cases
    case 1
    with assms(3,4,6,7) d show ?thesis by (auto dest: same_node_same_video)
  next
    case 2
    with assms(6) obtain u where "u \<in> set (videos w)" "node u = node v'" "needs_id u \<or> v' = u"
      by (metis assign_ids_keeps discover_def)
    with assms(3,4,7) d has show ?thesis by (auto dest: same_node_same_video)
  next
    case 3
    show ?thesis
    proof (cases "List.find (\<lambda>u. node u = node v') (videos w)")
      case None
      with assms(3,7) show ?thesis by (auto simp: find_None_conv)
    next
      case (Some u)
      with 3 assms(6) have "monitorId v' = monitorId u"
        by (auto simp: host_keeps_def list_all_iff)
      moreover from Some assms(3,7) d have "u = v"
        by (auto dest!: find_Some_mem dest: same_node_same_video)
      ultimately show ?thesis using assms(4) by simp
    qed
  qed
qed

theorem identity_is_stable_witness:
  "monitorId (hd (videos (the (step (Host [(tile 0)\<lparr>monitorId := Some ''participant-0-0'',
        offsetWidth := 640\<rparr>, tile 1] 0 40) (the (run [Message ''start''] (boot [tile 0]))))))) =
   Some ''participant-0-0''"
  using identity_is_stable [of "the (run [Message ''start''] (boot [tile 0]))"
        "Host [(tile 0)\<lparr>monitorId := Some ''participant-0-0'', offsetWidth := 640\<rparr>, tile 1] 0 40"
        "the (step (Host [(tile 0)\<lparr>monitorId := Some ''participant-0-0'',
           offsetWidth := 640\<rparr>, tile 1] 0 40) (the (run [Message ''start''] (boot [tile 0]))))"
        "(tile 0)\<lparr>monitorId := Some ''participant-0-0''\<rparr>" "''participant-0-0''"
        "(tile 0)\<lparr>monitorId := Some ''participant-0-0'', offsetWidth := 640\<rparr>",
        OF reachable_by_run [of "[tile 0]" any_event "[Message ''start'']"]]
  by (simp add: exec any_event_def)

section \<open>Identities are pairwise different\<close>

lemma known_ids_filter:
  "known_ids vs = map (\<lambda>v. the (monitorId v)) (filter (\<lambda>v. \<not> needs_id v) vs)"
  by (induction vs) (simp_all add: known_ids_Cons)

lemma needs_id_None: "\<not> needs_id v \<Longrightarrow> monitorId v \<noteq> None"
  by (auto simp: needs_id_def split: option.splits)

lemma needs_id_cong: "monitorId u = monitorId v \<Longrightarrow> needs_id u = needs_id v"
  by (simp add: needs_id_def)

lemma known_ids_host_subset:
  assumes "host_keeps old new"
  shows "set (known_ids new) \<subseteq> set (known_ids old)"
proof
  fix s
  assume "s \<in> set (known_ids new)"
  then obtain a where a: "a \<in> set new" "\<not> needs_id a" "s = the (monitorId a)"
    by (auto simp: known_ids_filter)
  with host_keeps_origin [OF assms a(1) needs_id_None] obtain u
    where "u \<in> set old" "monitorId u = monitorId a" by blast
  with a have "u \<in> set old \<and> \<not> needs_id u \<and> s = the (monitorId u)"
    by (simp add: needs_id_cong [of u a])
  then show "s \<in> set (known_ids old)"
    unfolding known_ids_filter by (auto intro!: image_eqI [of _ _ u])
qed

lemma distinct_known_ids_host:
  assumes "host_keeps old new" "distinct (known_ids old)"
  shows "distinct (known_ids new)"
proof -
  from assms(1) have dn: "distinct (map node new)" by (simp add: host_keeps_def)
  from assms(2) have inj: "inj_on (\<lambda>v. the (monitorId v)) {v \<in> set old. \<not> needs_id v}"
    by (simp add: known_ids_filter distinct_map)
  have "a = b" if a: "a \<in> set new" "\<not> needs_id a" and b: "b \<in> set new" "\<not> needs_id b"
    and eq: "the (monitorId a) = the (monitorId b)" for a b
  proof -
    from host_keeps_origin [OF assms(1) a(1) needs_id_None [OF a(2)]] obtain u
      where u: "u \<in> set old" "node u = node a" "monitorId u = monitorId a" by blast
    from host_keeps_origin [OF assms(1) b(1) needs_id_None [OF b(2)]] obtain u'
      where u': "u' \<in> set old" "node u' = node b" "monitorId u' = monitorId b" by blast
    from u u' a(2) b(2) eq have "u = u'"
      by (intro inj_onD [OF inj]) (simp_all add: needs_id_cong [of u a] needs_id_cong [of u' b])
    with u u' have "node a = node b" by simp
    with dn a(1) b(1) show ?thesis by (rule same_node_same_video)
  qed
  then have "inj_on (\<lambda>v. the (monitorId v)) {v \<in> set new. \<not> needs_id v}"
    by (auto intro: inj_onI)
  with dn show ?thesis by (simp add: known_ids_filter distinct_map)
qed

lemma minted_before_host:
  "host_keeps old new \<Longrightarrow> minted_before T old \<Longrightarrow> minted_before T new"
  using known_ids_host_subset [of old new]
  by (auto simp: minted_before_def list_all_iff distinct_known_ids_host)

text \<open>
  The control panel is \<open>orderly\<close> when it is calm and starts the analysis no earlier
  than a millisecond after the last identity on the page was minted. Nothing is asked of
  the timers: a timer is due a second after it is set.
\<close>

definition orderly :: "world \<Rightarrow> event \<Rightarrow> bool" where
  "orderly w e \<longleftrightarrow>
     e \<noteq> Message ''start'' \<or> (inflight w = [] \<and> minted_before (now w) (videos w))"

text \<open>
  The invariant: the identities on the page are pairwise different, minted by the script
  and no later than now, and earlier than every pending timer is due.
\<close>

definition named :: "'a world_scheme \<Rightarrow> bool" where
  "named w \<longleftrightarrow>
     minted_before (Suc (now w)) (videos w) \<and>
     list_all (\<lambda>t. minted_before (due t) (videos w)) (timers w)"

lemma orderly_calm: "orderly w e \<Longrightarrow> calm w e"
  by (auto simp: orderly_def calm_def)

lemma named_boot: "fresh_page vs \<Longrightarrow> named (boot vs)"
  by (simp add: named_def boot_def minted_before_def fresh_page_def known_ids_filter
      filter_empty_conv needs_id_def list_all_iff)

lemma named_cycle:
  assumes "minted_before (now w) (videos w)" "timers w = []"
  shows "named (runAnalysisCycle w)"
proof (cases "isAnalyzing w")
  case True
  have "minted_before (Suc (now w)) (discover (now w) (videos w))"
    unfolding discover_def using assms(1) by (rule minted_before_assign)
  then have "minted_before (Suc (now w)) (discover (now w) (videos w)) \<and>
             minted_before (now w + 1000) (discover (now w) (videos w))"
    by (auto elim: minted_before_mono)
  with True assms(2) show ?thesis by (simp add: named_def runAnalysisCycle_fields)
next
  case False
  with assms show ?thesis by (auto simp: named_def elim: minted_before_mono)
qed

lemma named_schedule_next: "named w \<Longrightarrow> named (schedule_next w)"
  by (auto simp: named_def schedule_next_def setTimeout_def Let_def elim: minted_before_mono)

lemma named_onMessage:
  assumes "named w" "timers w = [] \<or> c \<noteq> ''start'' \<or> isAnalyzing w"
    "c \<noteq> ''start'' \<or> minted_before (now w) (videos w)"
  shows "named (onMessage c w)"
proof -
  have "named (runAnalysisCycle (w\<lparr>isAnalyzing := True\<rparr>))"
    if "c = ''start''" "\<not> isAnalyzing w"
    using that assms(2,3) by (intro named_cycle) simp_all
  with assms(1) show ?thesis
    by (auto simp: onMessage_def startAnalysis_def named_def list_all_iff split: option.splits)
qed

lemma named_eq:
  "videos w' = videos w \<Longrightarrow> now w' = now w \<Longrightarrow> timers w' = timers w \<Longrightarrow> named w' = named w"
  by (simp add: named_def)

lemma named_settle:
  assumes "named w" "settle rid out w = Some w'"
  shows "named w'"
  using assms(2)
proof (rule settle_Some)
  fix r
  let ?left = "filter (\<lambda>q. request_id q \<noteq> rid) (inflight w)"
  assume w': "w' = (if releases r w
      then schedule_next ((receive out w)\<lparr>inflight := ?left,
             waiting := removeAll (cycle r) (waiting w)\<rparr>)
      else (receive out w)\<lparr>inflight := ?left\<rparr>)"
  have "named ((receive out w)\<lparr>inflight := ?left, waiting := ws\<rparr>)" for ws
    using assms(1) named_eq [of "(receive out w)\<lparr>inflight := ?left, waiting := ws\<rparr>" w]
    by simp
  moreover have "named ((receive out w)\<lparr>inflight := ?left\<rparr>)"
    using assms(1) named_eq [of "(receive out w)\<lparr>inflight := ?left\<rparr>" w] by simp
  ultimately show ?thesis using w' by (simp add: named_schedule_next)
qed

lemma named_fire:
  assumes "named w" "one_chain w" "fire i w = Some w'"
  shows "named w'"
  using assms(3)
proof (rule fire_Some)
  fix t
  assume f: "List.find (\<lambda>t. timer_id t = i) (timers w) = Some t" and d: "due t \<le> now w"
    and w': "w' = runAnalysisCycle (w\<lparr>timers := filter (\<lambda>t. timer_id t \<noteq> i) (timers w)\<rparr>)"
  from f have t: "t \<in> set (timers w)" "timer_id t = i" by (auto dest: find_Some_mem)
  with assms(2) have "timers w = [t]" by (cases "timers w") (auto simp: one_chain_def)
  moreover from assms(1) t d have "minted_before (now w) (videos w)"
    by (auto simp: named_def list_all_iff elim: minted_before_mono)
  ultimately show ?thesis using w' t(2) by (simp add: named_cycle)
qed

lemma named_host:
  "named w \<Longrightarrow> host_keeps (videos w) vs \<Longrightarrow> named (w\<lparr>videos := vs, scrollX := x, scrollY := y\<rparr>)"
  by (auto simp: named_def list_all_iff intro: minted_before_host)

lemma named_tick: "named w \<Longrightarrow> named (w\<lparr>now := now w + n\<rparr>)"
  by (auto simp: named_def elim: minted_before_mono)

lemma named_step:
  assumes "named w" "one_chain w" "sched_inv w" "orderly w e" "step e w = Some w'"
  shows "named w'"
proof (cases e)
  case (Message c)
  have "timers w = []" if "c = ''start''" "\<not> isAnalyzing w"
    using that assms(4) Message one_chain_quiet(1) [OF assms(2,3)] by (simp add: orderly_def)
  then have "timers w = [] \<or> c \<noteq> ''start'' \<or> isAnalyzing w" by blast
  moreover from assms(4) Message have "c \<noteq> ''start'' \<or> minted_before (now w) (videos w)"
    by (simp add: orderly_def)
  ultimately have "named (onMessage c w)" by (rule named_onMessage [OF assms(1)])
  with assms(5) Message show ?thesis by (simp add: step_def)
next
  case (Response rid out)
  with assms(5) have "settle rid out w = Some w'" by (simp add: step_def)
  then show ?thesis by (rule named_settle [OF assms(1)])
next
  case (Timeout i)
  with assms(5) have "fire i w = Some w'" by (simp add: step_def)
  then show ?thesis by (rule named_fire [OF assms(1,2)])
next
  case Paint
  with assms(5) have "w' = run_frame w" by (simp add: step_def)
  with assms(1) named_eq [of "run_frame w" w] show ?thesis by simp
next
  case (Host vs x y)
  with assms(1,5) show ?thesis by (auto simp: step_def named_host split: if_splits)
next
  case (Tick n)
  with assms(1,5) show ?thesis by (auto simp: step_def named_tick)
qed

lemma reachable_named:
  assumes "reachable_by orderly w"
  shows "named w"
  using assms
proof (rule invariant_rule)
  fix u e u'
  assume r: "reachable_by orderly u" and "named u" "orderly u e" "step e u = Some u'"
  moreover from r have "reachable_by calm u" by (rule reachable_by_weaken) (rule orderly_calm)
  ultimately show "named u'"
    by (intro named_step [of u e u'] reachable_one_chain reachable_sched_inv)
qed (rule named_boot)

text \<open>
  C11. An identity is never shared by two videos. In every state the tab reaches under an
  orderly control panel, the non-empty identities on the page are pairwise different,
  and each is one the script minted no later than now.
\<close>

theorem identities_are_distinct:
  assumes "reachable_by orderly w"
  shows "distinct (known_ids (videos w)) \<and>
         list_all (\<lambda>s. case read_id s of Some (t, i) \<Rightarrow> t \<le> now w | None \<Rightarrow> False)
           (known_ids (videos w))"
  using reachable_named [OF assms]
  by (auto simp: named_def minted_before_def list_all_iff split: option.splits)

theorem identities_are_distinct_witness:
  "distinct (known_ids (videos (the (run
      [Message ''start'', Response 0 Unreachable, Host [tile 7, (tile 0)\<lparr>monitorId :=
         Some ''participant-0-0''\<rparr>] 0 0, Tick 1000, Timeout 1] (boot [tile 0]))))) \<and>
   known_ids (videos (the (run
      [Message ''start'', Response 0 Unreachable, Host [tile 7, (tile 0)\<lparr>monitorId :=
         Some ''participant-0-0''\<rparr>] 0 0, Tick 1000, Timeout 1] (boot [tile 0])))) =
   [''participant-1000-0'', ''participant-0-0'']"
  using identities_are_distinct [OF reachable_by_run [of "[tile 0]" orderly
      "[Message ''start'', Response 0 Unreachable, Host [tile 7, (tile 0)\<lparr>monitorId :=
         Some ''participant-0-0''\<rparr>] 0 0, Tick 1000, Timeout 1]"]]
  by (simp add: exec orderly_def known_ids_def List.map_filter_def)

section \<open>Two cycles in one millisecond\<close>

text \<open>
  The start a millisecond after the last mint is needed for the theorem above. The
  identity is the clock and the position in the list, so two cycles that run in the same
  millisecond can mint the same identity when the page changed in between. Here the
  first cycle stamps a video whose stream has no frame yet, the page puts a new video in
  front of it, and a stop and a start follow at once: both videos carry
  \<^verbatim>\<open>participant-0-0\<close>.
\<close>

lemma same_millisecond_same_identity:
  "map_option (\<lambda>w. map monitorId (videos w))
     (run [Message ''start'',
           Host [tile 1, (tile 0)\<lparr>videoWidth := 0, monitorId := Some ''participant-0-0''\<rparr>] 0 0,
           Message ''stop'', Message ''start'']
        (boot [(tile 0)\<lparr>videoWidth := 0\<rparr>])) =
   Some [Some ''participant-0-0'', Some ''participant-0-0'']"
  by (simp add: exec)

end
