(* ===== verification/Background.thy ===== *)
theory Background
  imports Gateway
begin

text \<open>
  The batch caller of the service worker: \<^verbatim>\<open>processFrames\<close> of \<^verbatim>\<open>background.js\<close>. It
  posts a batch of frames to \<^verbatim>\<open>/analyze_images\<close>, turns every entry of the answer into
  an update, with a synthesized judgment where the backend gave none, and sends the
  updates to the tab. The request and its answer are one step: the worker has no other
  state that could change in between. The lemmas give the outcome of every branch, the
  errors the \<^verbatim>\<open>catch\<close> block logs included.
\<close>

section \<open>State\<close>

datatype log_entry =
    BackendError jsval       \<comment> \<open>\<^verbatim>\<open>console.error('Backend error:', data.error)\<close>\<close>
  | ProcessFailed js_error   \<comment> \<open>\<^verbatim>\<open>console.error('Failed to process frames:', error)\<close>\<close>

record worker =
  posted :: "jsval list"            \<comment> \<open>the bodies posted to \<^verbatim>\<open>/analyze_images\<close>\<close>
  outbox :: "(nat \<times> jsval) list"    \<comment> \<open>\<^verbatim>\<open>chrome.tabs.sendMessage(tabId, message)\<close>\<close>
  errors :: "log_entry list"

section \<open>Operations\<close>

text \<open>The guard of line 2: \<^verbatim>\<open>!frames || frames.length === 0\<close>.\<close>

definition no_frames :: "jsval \<Rightarrow> bool" where
  "no_frames frames \<longleftrightarrow> \<not> truthy frames \<or> js_length frames = JNum 0"

text \<open>
  \<^verbatim>\<open>`Student ${student_id?.split('-').pop() || 'Unknown'}`\<close>. The optional chain guards
  against a missing id only: an id that is neither missing nor a string has no \<^verbatim>\<open>split\<close>,
  and the call throws.
\<close>

definition fallback_name :: "jsval \<Rightarrow> string result" where
  "fallback_name sid =
     (case sid of
        JUndefined \<Rightarrow> ok ''Student Unknown''
      | JNull \<Rightarrow> ok ''Student Unknown''
      | JStr s \<Rightarrow>
          ok (''Student '' @
              (if last (split_on (CHR ''-'') s) = [] then ''Unknown''
               else last (split_on (CHR ''-'') s)))
      | _ \<Rightarrow> throw TypeError)"

text \<open>The callback of \<^verbatim>\<open>data.results.map\<close>, lines 18 to 25, for one entry.\<close>

definition update_of :: "jsval \<Rightarrow> jsval result" where
  "update_of entry =
     (case js_get entry ''student_id'' of
        Inl e \<Rightarrow> throw e
      | Inr sid \<Rightarrow>
          if truthy (js_get_opt entry ''result'')
          then ok (JObj [(''id'', sid), (''result'', js_get_opt entry ''result'')])
          else (case fallback_name sid of
                  Inl e \<Rightarrow> throw e
                | Inr name \<Rightarrow>
                    ok (JObj [(''id'', sid),
                              (''result'', JObj [(''name'', JStr name), (''status'', JStr ''Error''),
                                                 (''score'', JNum 0)])])))"

text \<open>\<^verbatim>\<open>Array.prototype.map\<close> with a callback that can throw: the first exception ends it.\<close>

fun map_result :: "('a \<Rightarrow> 'b result) \<Rightarrow> 'a list \<Rightarrow> 'b list result" where
  "map_result f [] = ok []"
| "map_result f (x # xs) =
     (case f x of
        Inl e \<Rightarrow> throw e
      | Inr y \<Rightarrow> (case map_result f xs of Inl e \<Rightarrow> throw e | Inr ys \<Rightarrow> ok (y # ys)))"

definition process_failed :: "js_error \<Rightarrow> worker \<Rightarrow> worker" where
  "process_failed e s = s\<lparr>errors := errors s @ [ProcessFailed e]\<rparr>"

text \<open>Lines 13 to 30, inside the \<^verbatim>\<open>try\<close>: the parsed body is in hand.\<close>

definition handle_batch :: "jsval \<Rightarrow> nat \<Rightarrow> worker \<Rightarrow> worker" where
  "handle_batch data tabId s =
     (case js_get data ''error'' of
        Inl e \<Rightarrow> process_failed e s
      | Inr err \<Rightarrow>
          if truthy err then s\<lparr>errors := errors s @ [BackendError err]\<rparr>
          else (case js_get_opt data ''results'' of
                  JArr entries \<Rightarrow>
                    (case map_result update_of entries of
                       Inl e \<Rightarrow> process_failed e s
                     | Inr updates \<Rightarrow>
                         s\<lparr>outbox := outbox s @
                             [(tabId, JObj [(''command'', JStr ''update_overlays''),
                                            (''updates'', JArr updates)])]\<rparr>)
                | _ \<Rightarrow> process_failed TypeError s))"

text \<open>
  \<^verbatim>\<open>processFrames(frames, tabId)\<close>, given what the request comes back with. The status
  of the answer is not looked at.
\<close>

definition processFrames :: "jsval \<Rightarrow> nat \<Rightarrow> outcome \<Rightarrow> worker \<Rightarrow> worker" where
  "processFrames frames tabId out s =
     (if no_frames frames then s
      else
        let s' = s\<lparr>posted := posted s @ [JObj [(''frames'', frames)]]\<rparr> in
        (case out of
           Unreachable \<Rightarrow> process_failed NetworkError s'
         | Answered status None \<Rightarrow> process_failed SyntaxError s'
         | Answered status (Some data) \<Rightarrow> handle_batch data tabId s'))"

section \<open>Facts about the fallback\<close>

lemma fallback_name_segment:
  assumes "CHR ''-'' \<notin> set seg" and "seg \<noteq> []"
  shows "fallback_name (JStr (room @ CHR ''-'' # seg)) = ok (''Student '' @ seg)"
  using assms by (simp add: fallback_name_def last_split_on_append_sep split_on_no_sep)

lemma fallback_name_plain:
  assumes "CHR ''-'' \<notin> set s" and "s \<noteq> []"
  shows "fallback_name (JStr s) = ok (''Student '' @ s)"
  using assms by (simp add: fallback_name_def split_on_no_sep)

lemma fallback_name_throws_iff:
  "(\<exists>e. fallback_name sid = throw e) \<longleftrightarrow>
     (case sid of JUndefined \<Rightarrow> False | JNull \<Rightarrow> False | JStr s \<Rightarrow> False | _ \<Rightarrow> True)"
  by (cases sid) (simp_all add: fallback_name_def)

lemma update_of_judged:
  assumes "truthy (js_get_opt entry ''result'')"
  shows "update_of entry =
    ok (JObj [(''id'', js_get_opt entry ''student_id''), (''result'', js_get_opt entry ''result'')])"
proof -
  from assms have "entry \<noteq> JUndefined" "entry \<noteq> JNull" by (auto simp: js_get_opt_def)
  then have "js_get entry ''student_id'' = ok (js_get_opt entry ''student_id'')"
    by (rule js_get_ok)
  with assms show ?thesis by (simp add: update_of_def)
qed

lemma map_result_ok_length: "map_result f xs = ok ys \<Longrightarrow> length ys = length xs"
  by (induction xs arbitrary: ys) (auto split: sum.splits)

lemma map_result_okD: "map_result f xs = ok ys \<Longrightarrow> map f xs = map ok ys"
  by (induction xs arbitrary: ys) (auto split: sum.splits)

lemma map_result_okI: "map f xs = map ok ys \<Longrightarrow> map_result f xs = ok ys"
proof (induction xs arbitrary: ys)
  case (Cons x xs)
  then show ?case by (cases ys) auto
qed simp

lemma map_result_throw:
  "(\<exists>e. map_result f xs = throw e) \<longleftrightarrow> (\<exists>x\<in>set xs. \<exists>e. f x = throw e)"
  by (induction xs) (auto split: sum.splits)

section \<open>Facts about the batch\<close>

lemma processFrames_frame [simp, frame]:
  "length (outbox (processFrames frames tabId out s)) \<le> Suc (length (outbox s))"
  "length (posted (processFrames frames tabId out s)) \<le> Suc (length (posted s))"
  by (auto simp: processFrames_def handle_batch_def process_failed_def Let_def
      split: outcome.splits option.splits sum.splits jsval.splits)

lemma handle_batch_shape:
  "(\<exists>updates. handle_batch data tabId s =
      s\<lparr>outbox := outbox s @ [(tabId, JObj [(''command'', JStr ''update_overlays''),
                                             (''updates'', JArr updates)])]\<rparr>) \<or>
   (\<exists>entry. handle_batch data tabId s = s\<lparr>errors := errors s @ [entry]\<rparr>)"
  by (auto simp: handle_batch_def process_failed_def split: sum.splits jsval.splits)

lemma processFrames_shape:
  "(if no_frames frames then processFrames frames tabId out s = s
    else posted (processFrames frames tabId out s) = posted s @ [JObj [(''frames'', frames)]] \<and>
      ((\<exists>updates. outbox (processFrames frames tabId out s) =
            outbox s @ [(tabId, JObj [(''command'', JStr ''update_overlays''),
                                      (''updates'', JArr updates)])] \<and>
          errors (processFrames frames tabId out s) = errors s) \<or>
       (\<exists>entry. outbox (processFrames frames tabId out s) = outbox s \<and>
          errors (processFrames frames tabId out s) = errors s @ [entry])))"
proof (cases out)
  case Unreachable
  then show ?thesis by (simp add: processFrames_def process_failed_def Let_def)
next
  case (Answered status body)
  show ?thesis
  proof (cases body)
    case None
    with Answered show ?thesis by (simp add: processFrames_def process_failed_def Let_def)
  next
    case (Some data)
    with Answered
      handle_batch_shape [of data tabId "s\<lparr>posted := posted s @ [JObj [(''frames'', frames)]]\<rparr>"]
    show ?thesis by (auto simp: processFrames_def Let_def)
  qed
qed

section \<open>The contract of the batch caller\<close>

text \<open>
  C29. The batch that goes through. When frames are given, the parsed answer has no
  truthy \<^verbatim>\<open>error\<close>, its \<^verbatim>\<open>results\<close> are an array, and the callback throws on none of
  the entries, then the batch is posted once and exactly one message goes to the tab,
  with the command \<^verbatim>\<open>update_overlays\<close> and the updates of the entries in their order;
  nothing is logged. The status of the answer plays no role. An entry for \<^verbatim>\<open>room-7\<close>
  without judgment arrives as \<^verbatim>\<open>{name: "Student 7", status: "Error", score: 0}\<close>.
\<close>

theorem answered_batch_is_forwarded:
  assumes "no_frames frames = False" and "truthy (js_get_opt data ''error'') = False"
    and "js_get_opt data ''results'' = JArr entries"
    and "map update_of entries = map ok updates"
  shows "processFrames frames tabId (Answered status (Some data)) s =
           s\<lparr>posted := posted s @ [JObj [(''frames'', frames)]],
             outbox := outbox s @
               [(tabId, JObj [(''command'', JStr ''update_overlays''),
                              (''updates'', JArr updates)])]\<rparr>"
proof -
  from assms(3) have "data \<noteq> JUndefined" "data \<noteq> JNull" by auto
  then have "js_get data ''error'' = ok (js_get_opt data ''error'')" by (rule js_get_ok)
  with assms(1-3) map_result_okI [OF assms(4)] show ?thesis
    by (simp add: processFrames_def handle_batch_def Let_def)
qed

theorem answered_batch_is_forwarded_witness:
  "processFrames (JArr [JStr ''frame'']) 4
     (Answered 200 (Some (JObj [(''results'', JArr [JObj [(''student_id'', JStr ''room-7'')]])])))
     \<lparr>posted = [], outbox = [], errors = []\<rparr> =
   \<lparr>posted = [JObj [(''frames'', JArr [JStr ''frame''])]],
     outbox = [(4, JObj [(''command'', JStr ''update_overlays''),
          (''updates'', JArr [JObj [(''id'', JStr ''room-7''),
             (''result'', JObj [(''name'', JStr ''Student 7''), (''status'', JStr ''Error''),
                                (''score'', JNum 0)])]])])],
     errors = []\<rparr>"
  using answered_batch_is_forwarded [of "JArr [JStr ''frame'']"
      "JObj [(''results'', JArr [JObj [(''student_id'', JStr ''room-7'')]])]"
      "[JObj [(''student_id'', JStr ''room-7'')]]"
      "[JObj [(''id'', JStr ''room-7''),
          (''result'', JObj [(''name'', JStr ''Student 7''), (''status'', JStr ''Error''),
                             (''score'', JNum 0)])]]"
      4 200 "\<lparr>posted = [], outbox = [], errors = []\<rparr>"]
  by (simp add: no_frames_def update_of_def fallback_name_def)

text \<open>
  C30. The synthesized name is \<^verbatim>\<open>Student\<close> and the part of the id after its last dash,
  for every entry without judgment whose id is a string that does not end in a dash.
  The id of the update is the id of the entry.
\<close>

theorem fallback_takes_last_segment:
  assumes "js_get_opt entry ''student_id'' = JStr (room @ CHR ''-'' # seg)"
    and "CHR ''-'' \<notin> set seg" and "seg \<noteq> []"
    and "\<not> truthy (js_get_opt entry ''result'')"
  shows "update_of entry =
           ok (JObj [(''id'', JStr (room @ CHR ''-'' # seg)),
                     (''result'', JObj [(''name'', JStr (''Student '' @ seg)),
                                        (''status'', JStr ''Error''), (''score'', JNum 0)])])"
proof -
  from assms(1) have "entry \<noteq> JUndefined" "entry \<noteq> JNull" by (auto simp: js_get_opt_def)
  then have "js_get entry ''student_id'' = ok (js_get_opt entry ''student_id'')"
    by (rule js_get_ok)
  with assms show ?thesis by (simp add: update_of_def fallback_name_segment)
qed

theorem fallback_takes_last_segment_witness:
  "update_of (JObj [(''student_id'', JStr ''participant-1700-3''), (''result'', JNull)]) =
     ok (JObj [(''id'', JStr ''participant-1700-3''),
               (''result'', JObj [(''name'', JStr ''Student 3''), (''status'', JStr ''Error''),
                                  (''score'', JNum 0)])])"
  using fallback_takes_last_segment
    [of "JObj [(''student_id'', JStr ''participant-1700-3''), (''result'', JNull)]"
        "''participant-1700''" "''3''"]
  by (simp add: js_get_opt_def)

text \<open>
  C31. Every call of \<^verbatim>\<open>processFrames\<close> has one of three outcomes. With no frames nothing
  happens. Otherwise the batch is posted once, and then either one message with the
  command \<^verbatim>\<open>update_overlays\<close> goes to the tab and nothing is logged, or no message is
  sent and exactly one error is logged.
\<close>

theorem batch_sends_or_logs:
  "(if no_frames frames then processFrames frames tabId out s = s
    else posted (processFrames frames tabId out s) = posted s @ [JObj [(''frames'', frames)]] \<and>
      ((\<exists>updates. outbox (processFrames frames tabId out s) =
            outbox s @ [(tabId, JObj [(''command'', JStr ''update_overlays''),
                                      (''updates'', JArr updates)])] \<and>
          errors (processFrames frames tabId out s) = errors s) \<or>
       (\<exists>entry. outbox (processFrames frames tabId out s) = outbox s \<and>
          errors (processFrames frames tabId out s) = errors s @ [entry])))"
  by (rule processFrames_shape)

text \<open>
  C32. A judgment the backend gave is passed on as it is, and the answers of a batch keep
  their order: when every entry has a judgment, the updates are the entries, renamed.
\<close>

theorem judged_entries_pass_through:
  assumes "list_all (\<lambda>entry. truthy (js_get_opt entry ''result'')) entries"
  shows "map_result update_of entries =
           ok (map (\<lambda>entry. JObj [(''id'', js_get_opt entry ''student_id''),
                                   (''result'', js_get_opt entry ''result'')]) entries)"
  using assms by (intro map_result_okI) (simp add: list_all_iff update_of_judged)

theorem judged_entries_pass_through_witness:
  "map_result update_of
     [JObj [(''student_id'', JStr ''a-1''), (''result'', JObj [(''name'', JStr ''Alice'')])],
      JObj [(''student_id'', JStr ''a-2''), (''result'', JObj [(''name'', JStr ''Bob'')])]] =
   ok [JObj [(''id'', JStr ''a-1''), (''result'', JObj [(''name'', JStr ''Alice'')])],
       JObj [(''id'', JStr ''a-2''), (''result'', JObj [(''name'', JStr ''Bob'')])]]"
  using judged_entries_pass_through
    [of "[JObj [(''student_id'', JStr ''a-1''), (''result'', JObj [(''name'', JStr ''Alice'')])],
          JObj [(''student_id'', JStr ''a-2''), (''result'', JObj [(''name'', JStr ''Bob'')])]]"]
  by (simp add: js_get_opt_def)

section \<open>Answers the batch caller drops\<close>

text \<open>
  The entries on which the callback of \<^verbatim>\<open>map\<close> throws: \<^verbatim>\<open>null\<close> (JSON has no
  \<^verbatim>\<open>undefined\<close>, but the model covers it), and an entry without judgment whose id is
  neither missing nor a string, so that it has no \<^verbatim>\<open>split\<close>.
\<close>

definition bad_entry :: "jsval \<Rightarrow> bool" where
  "bad_entry entry \<longleftrightarrow>
     entry = JUndefined \<or> entry = JNull \<or>
     (\<not> truthy (js_get_opt entry ''result'') \<and>
      (case js_get_opt entry ''student_id'' of
         JUndefined \<Rightarrow> False | JNull \<Rightarrow> False | JStr s \<Rightarrow> False | _ \<Rightarrow> True))"

lemma update_of_throws:
  "update_of entry = (if bad_entry entry then throw TypeError else ok (projr (update_of entry)))"
proof (cases "entry = JUndefined \<or> entry = JNull")
  case True
  then show ?thesis by (auto simp: update_of_def bad_entry_def)
next
  case False
  then have "js_get entry ''student_id'' = ok (js_get_opt entry ''student_id'')"
    by (intro js_get_ok) simp_all
  with False show ?thesis
    by (cases "js_get_opt entry ''student_id''")
       (simp_all add: update_of_def bad_entry_def fallback_name_def)
qed

lemma map_result_bad:
  assumes "list_ex bad_entry entries"
  shows "map_result update_of entries = throw TypeError"
  using assms
proof (induction entries)
  case Nil
  then show ?case by simp
next
  case (Cons x xs)
  show ?case
  proof (cases "bad_entry x")
    case True
    then show ?thesis using update_of_throws [of x] by simp
  next
    case False
    then obtain y where "update_of x = ok y" using update_of_throws [of x] by simp
    with False Cons show ?thesis by simp
  qed
qed

text \<open>
  C33. The fallback does not cover every entry without judgment, and one entry on which
  the callback throws costs the whole batch. When frames are given and the answer has no
  truthy \<^verbatim>\<open>error\<close>, but its \<^verbatim>\<open>results\<close> are not an array or hold such an entry, then no
  message goes to the tab, whatever the other entries are, and one \<^verbatim>\<open>TypeError\<close> is
  logged.
\<close>

theorem one_bad_entry_drops_the_batch:
  assumes "no_frames frames = False" and "truthy (js_get_opt data ''error'') = False"
    and "case js_get_opt data ''results'' of JArr entries \<Rightarrow> list_ex bad_entry entries
         | _ \<Rightarrow> True"
  shows "processFrames frames tabId (Answered status (Some data)) s =
           s\<lparr>posted := posted s @ [JObj [(''frames'', frames)]],
             errors := errors s @ [ProcessFailed TypeError]\<rparr>"
proof (cases "data = JUndefined \<or> data = JNull")
  case True
  with assms(1) show ?thesis
    by (auto simp: processFrames_def handle_batch_def process_failed_def Let_def)
next
  case False
  then have "js_get data ''error'' = ok (js_get_opt data ''error'')"
    by (intro js_get_ok) simp_all
  with assms show ?thesis
    by (cases "js_get_opt data ''results''")
       (simp_all add: processFrames_def handle_batch_def process_failed_def Let_def
          map_result_bad)
qed

theorem one_bad_entry_drops_the_batch_witness:
  "processFrames (JArr [JStr ''a'', JStr ''b'']) 4
     (Answered 200 (Some (JObj [(''results'', JArr
        [JObj [(''student_id'', JStr ''room-1''),
               (''result'', JObj [(''name'', JStr ''Alice''), (''status'', JStr ''Attentive''),
                                  (''score'', JNum 92)])],
         JObj [(''student_id'', JNum 7)]])])))
     \<lparr>posted = [], outbox = [], errors = []\<rparr> =
   \<lparr>posted = [JObj [(''frames'', JArr [JStr ''a'', JStr ''b''])]], outbox = [],
     errors = [ProcessFailed TypeError]\<rparr>"
  using one_bad_entry_drops_the_batch [of "JArr [JStr ''a'', JStr ''b'']"
      "JObj [(''results'', JArr
        [JObj [(''student_id'', JStr ''room-1''),
               (''result'', JObj [(''name'', JStr ''Alice''), (''status'', JStr ''Attentive''),
                                  (''score'', JNum 92)])],
         JObj [(''student_id'', JNum 7)]])]"
      4 200 "\<lparr>posted = [], outbox = [], errors = []\<rparr>"]
  by (simp add: no_frames_def bad_entry_def)

end
