(* ===== verification/Popup.thy ===== *)
theory Popup
  imports Gateway
begin

text \<open>
  The control panel: \<^verbatim>\<open>popup.js\<close>. Its state is what the panel shows (the class and
  text of the status line, the markup and the links of the download area). A click is a
  function of what the browser reports back: the active tab, whether the message was
  delivered and with which response, and for the end button the answer of
  \<^verbatim>\<open>/end_session\<close>. The callback of the tab query is taken to run before that answer
  arrives. The lemmas give what the panel shows on every branch.
\<close>

section \<open>State\<close>

record link =
  href :: string
  download :: string
  link_text :: string

record popup =
  statusClass :: string
  statusText :: string
  heading :: string        \<comment> \<open>the markup assigned to \<^verbatim>\<open>downloadLinksDiv.innerHTML\<close>\<close>
  links :: "link list"     \<comment> \<open>the anchors appended after it\<close>

record tab_info =
  tab_id :: nat
  url :: string

datatype delivery =
    NoReceiver             \<comment> \<open>\<^verbatim>\<open>chrome.runtime.lastError\<close> is set\<close>
  | Delivered jsval        \<comment> \<open>the response the listener passed to \<^verbatim>\<open>sendResponse\<close>\<close>

section \<open>Operations\<close>

definition setStatus :: "string \<Rightarrow> string \<Rightarrow> popup \<Rightarrow> popup" where
  "setStatus cls txt p = p\<lparr>statusClass := cls, statusText := txt\<rparr>"

text \<open>\<^verbatim>\<open>downloadLinksDiv.innerHTML = markup\<close>: the children go, the markup comes.\<close>

definition set_innerHTML :: "string \<Rightarrow> popup \<Rightarrow> popup" where
  "set_innerHTML markup p = p\<lparr>heading := markup, links := []\<rparr>"

text \<open>
  \<^verbatim>\<open>sendMessageToContentScript(command, callback)\<close>: the message that was sent, if one
  was, and the panel after the callbacks have run.
\<close>

definition sendMessageToContentScript ::
  "string \<Rightarrow> (jsval \<Rightarrow> popup \<Rightarrow> popup) option \<Rightarrow> tab_info option \<Rightarrow> delivery \<Rightarrow> popup
   \<Rightarrow> (nat \<times> string) option \<times> popup" where
  "sendMessageToContentScript command callback active d p =
     (case active of
        None \<Rightarrow> (None, setStatus ''status-error'' ''Error: Not on a Google Meet page.'' p)
      | Some t \<Rightarrow>
          if includes_str (url t) ''meet.google.com'' then
            (Some (tab_id t, command),
             (case d of
                NoReceiver \<Rightarrow> setStatus ''status-error'' ''Error: Refresh Meet page.'' p
              | Delivered response \<Rightarrow>
                  (case callback of None \<Rightarrow> p | Some k \<Rightarrow> k response p)))
          else (None, setStatus ''status-error'' ''Error: Not on a Google Meet page.'' p))"

text \<open>The callback of the start button, lines 24 and 25.\<close>

definition on_start :: "jsval \<Rightarrow> popup \<Rightarrow> popup" where
  "on_start response p =
     (if js_get_opt response ''status'' = JStr ''success''
      then setStatus ''status-running'' ''Status: Analysis Running...'' p
      else setStatus ''status-error''
             (''Error: '' @ to_str (js_or (js_get_opt response ''message'')
                                          (JStr ''Could not start.''))) p)"

definition start_click :: "tab_info option \<Rightarrow> delivery \<Rightarrow> popup \<Rightarrow> (nat \<times> string) option \<times> popup" where
  "start_click active d p =
     sendMessageToContentScript ''start'' (Some on_start) active d (set_innerHTML [] p)"

definition stop_click :: "tab_info option \<Rightarrow> delivery \<Rightarrow> popup \<Rightarrow> (nat \<times> string) option \<times> popup" where
  "stop_click active d p =
     sendMessageToContentScript ''stop''
       (Some (\<lambda>response. setStatus ''status-stopped'' ''Status: Analysis Stopped.'')) active d p"

text \<open>The body of \<^verbatim>\<open>reports.forEach\<close>, lines 56 to 60, and the loop.\<close>

definition report_link :: "jsval \<Rightarrow> link result" where
  "report_link report =
     (case js_get report ''filename'' of
        Inl e \<Rightarrow> throw e
      | Inr filename \<Rightarrow>
          ok \<lparr>href = ''http://127.0.0.1:5000/download_report/'' @ to_str filename,
              download = to_str filename,
              link_text = ''Report for '' @ to_str (js_get_opt report ''student_name'')\<rparr>)"

fun append_links :: "jsval list \<Rightarrow> popup \<Rightarrow> js_error option \<times> popup" where
  "append_links [] p = (None, p)"
| "append_links (r # rs) p =
     (case report_link r of
        Inl e \<Rightarrow> (Some e, p)
      | Inr l \<Rightarrow> append_links rs (p\<lparr>links := links p @ [l]\<rparr>))"

definition displayDownloadLinks :: "jsval \<Rightarrow> popup \<Rightarrow> js_error option \<times> popup" where
  "displayDownloadLinks reports p =
     (if \<not> truthy reports \<or> js_length reports = JNum 0 then
        (None, set_innerHTML
           ''<h4>No reports generated.</h4><p>Ensure participants were visible for at least 30 seconds.</p>''
           p)
      else
        (case reports of
           JArr rs \<Rightarrow> append_links rs (set_innerHTML ''<h4>Download Reports:</h4>'' p)
         | _ \<Rightarrow> (Some TypeError, set_innerHTML ''<h4>Download Reports:</h4>'' p)))"

text \<open>Lines 41 to 45 inside the \<^verbatim>\<open>try\<close>; the \<^verbatim>\<open>catch\<close> of line 46 is \<open>unreachable\<close>.\<close>

definition unreachable :: "popup \<Rightarrow> popup" where
  "unreachable p = setStatus ''status-error'' ''Error: Backend is unreachable.'' p"

definition on_end_session :: "jsval \<Rightarrow> popup \<Rightarrow> popup" where
  "on_end_session data p =
     (case js_get data ''status'' of
        Inl e \<Rightarrow> unreachable p
      | Inr st \<Rightarrow>
          if st = JStr ''success'' then
            (case displayDownloadLinks (js_get_opt data ''reports'')
                    (setStatus ''status-generating'' ''Reports Ready for Download'' p) of
               (None, p') \<Rightarrow> p'
             | (Some e, p') \<Rightarrow> unreachable p')
          else setStatus ''status-error'' (''Error: '' @ to_str (js_get_opt data ''message'')) p)"

definition end_click ::
  "tab_info option \<Rightarrow> delivery \<Rightarrow> outcome \<Rightarrow> popup \<Rightarrow> (nat \<times> string) option \<times> popup" where
  "end_click active d out p =
     (let sent = sendMessageToContentScript ''stop'' None active d
                   (setStatus ''status-generating'' ''Status: Generating reports...''
                      (set_innerHTML [] p))
      in (fst sent,
          (case out of
             Unreachable \<Rightarrow> unreachable (snd sent)
           | Answered status None \<Rightarrow> unreachable (snd sent)
           | Answered status (Some data) \<Rightarrow> on_end_session data (snd sent))))"

section \<open>Facts\<close>

lemma setStatus_frame [simp, frame]:
  "heading (setStatus c t p) = heading p" "links (setStatus c t p) = links p"
  "statusClass (setStatus c t p) = c" "statusText (setStatus c t p) = t"
  by (simp_all add: setStatus_def)

lemma set_innerHTML_frame [simp, frame]:
  "heading (set_innerHTML m p) = m" "links (set_innerHTML m p) = []"
  "statusClass (set_innerHTML m p) = statusClass p" "statusText (set_innerHTML m p) = statusText p"
  by (simp_all add: set_innerHTML_def)

lemma append_links_status [simp, frame]:
  "statusClass (snd (append_links rs p)) = statusClass p"
  "statusText (snd (append_links rs p)) = statusText p"
  "heading (snd (append_links rs p)) = heading p"
  by (induction rs arbitrary: p) (simp_all split: sum.splits)

lemma append_links_ok:
  assumes "map report_link rs = map ok ls"
  shows "append_links rs p = (None, p\<lparr>links := links p @ ls\<rparr>)"
  using assms
proof (induction rs arbitrary: ls p)
  case (Cons r rs)
  then show ?case by (cases ls) auto
qed simp

lemma report_link_object:
  "report_link (JObj kvs) =
     ok \<lparr>href = ''http://127.0.0.1:5000/download_report/'' @ to_str (js_get_opt (JObj kvs) ''filename''),
         download = to_str (js_get_opt (JObj kvs) ''filename''),
         link_text = ''Report for '' @ to_str (js_get_opt (JObj kvs) ''student_name'')\<rparr>"
  by (simp add: report_link_def js_get_opt_def)

lemma sendMessage_on_meet:
  "includes_str (url t) ''meet.google.com'' \<Longrightarrow>
   sendMessageToContentScript c k (Some t) d p =
     (Some (tab_id t, c),
      (case d of NoReceiver \<Rightarrow> setStatus ''status-error'' ''Error: Refresh Meet page.'' p
       | Delivered response \<Rightarrow> (case k of None \<Rightarrow> p | Some f \<Rightarrow> f response p)))"
  by (simp add: sendMessageToContentScript_def)

lemma sendMessage_elsewhere:
  "active = None \<or> \<not> includes_str (url (the active)) ''meet.google.com'' \<Longrightarrow>
   sendMessageToContentScript c k active d p =
     (None, setStatus ''status-error'' ''Error: Not on a Google Meet page.'' p)"
  by (auto simp: sendMessageToContentScript_def split: option.splits)

section \<open>The contract of the panel\<close>

text \<open>
  C36. Off a Meet page no button sends a message: when there is no active tab or its URL
  does not hold \<^verbatim>\<open>meet.google.com\<close>, the start and the stop button send nothing and the
  status line reads that the page is not a Meet page; the end button sends nothing
  either.
\<close>

theorem no_message_off_meet:
  assumes "active = None \<or> \<not> includes_str (url (the active)) ''meet.google.com''"
  shows "start_click active d p =
           (None, setStatus ''status-error'' ''Error: Not on a Google Meet page.''
                    (set_innerHTML [] p)) \<and>
         stop_click active d p =
           (None, setStatus ''status-error'' ''Error: Not on a Google Meet page.'' p) \<and>
         fst (end_click active d out p) = None"
  using assms
  by (simp add: start_click_def stop_click_def end_click_def sendMessage_elsewhere Let_def)

theorem no_message_off_meet_witness:
  "start_click (Some \<lparr>tab_id = 4, url = ''https://example.org/''\<rparr>) NoReceiver
     \<lparr>statusClass = [], statusText = [], heading = [], links = []\<rparr> =
   (None, \<lparr>statusClass = ''status-error'', statusText = ''Error: Not on a Google Meet page.'',
            heading = [], links = []\<rparr>)"
  using no_message_off_meet [of "Some \<lparr>tab_id = 4, url = ''https://example.org/''\<rparr>" NoReceiver
      "\<lparr>statusClass = [], statusText = [], heading = [], links = []\<rparr>"]
  by (simp add: includes_str_def sublist_code setStatus_def set_innerHTML_def)

text \<open>
  C37. The end button with a successful answer that lists reports: the status line reads
  that the reports are ready, the download area has the heading and one link per report,
  in order, each pointing at \<^verbatim>\<open>/download_report/<filename>\<close> and labelled with the
  student's name.
\<close>

theorem end_click_lists_reports:
  assumes "js_get_opt data ''status'' = JStr ''success''"
    and "js_get_opt data ''reports'' = JArr (map JObj rs)" and "rs \<noteq> []"
  shows "snd (end_click active d (Answered status (Some data)) p) =
           \<lparr>statusClass = ''status-generating'', statusText = ''Reports Ready for Download'',
             heading = ''<h4>Download Reports:</h4>'',
             links = map (\<lambda>kvs.
               \<lparr>href = ''http://127.0.0.1:5000/download_report/'' @
                         to_str (js_get_opt (JObj kvs) ''filename''),
                 download = to_str (js_get_opt (JObj kvs) ''filename''),
                 link_text = ''Report for '' @ to_str (js_get_opt (JObj kvs) ''student_name'')\<rparr>)
               rs\<rparr>"
proof -
  let ?ls = "map (\<lambda>kvs.
               \<lparr>href = ''http://127.0.0.1:5000/download_report/'' @
                         to_str (js_get_opt (JObj kvs) ''filename''),
                 download = to_str (js_get_opt (JObj kvs) ''filename''),
                 link_text = ''Report for '' @ to_str (js_get_opt (JObj kvs) ''student_name'')\<rparr>)
               rs"
  from assms(1) have "data \<noteq> JUndefined" "data \<noteq> JNull" by (auto simp: js_get_opt_def)
  then have st: "js_get data ''status'' = ok (JStr ''success'')"
    using assms(1) by (simp add: js_get_ok)
  have "map report_link (map JObj rs) = map ok ?ls" by (simp add: report_link_object)
  then have "append_links (map JObj rs) q = (None, q\<lparr>links := links q @ ?ls\<rparr>)" for q
    by (rule append_links_ok)
  with assms(2,3) st show ?thesis
    by (cases p) (simp add: end_click_def on_end_session_def displayDownloadLinks_def Let_def
        setStatus_def set_innerHTML_def sendMessageToContentScript_def
        split: option.splits delivery.splits)
qed

theorem end_click_lists_reports_witness:
  "links (snd (end_click None NoReceiver
     (Answered 200 (Some (JObj [(''status'', JStr ''success''),
        (''reports'', JArr [JObj [(''filename'', JStr ''alice.pdf''),
                                  (''student_name'', JStr ''Alice'')]])])))
     \<lparr>statusClass = [], statusText = [], heading = [], links = []\<rparr>)) =
   [\<lparr>href = ''http://127.0.0.1:5000/download_report/alice.pdf'', download = ''alice.pdf'',
     link_text = ''Report for Alice''\<rparr>]"
  using end_click_lists_reports
    [of "JObj [(''status'', JStr ''success''),
        (''reports'', JArr [JObj [(''filename'', JStr ''alice.pdf''),
                                  (''student_name'', JStr ''Alice'')]])]"
        "[[(''filename'', JStr ''alice.pdf''), (''student_name'', JStr ''Alice'')]]"
        None NoReceiver 200 "\<lparr>statusClass = [], statusText = [], heading = [], links = []\<rparr>"]
  by (simp add: js_get_opt_def)

text \<open>
  C38. The end button without reports to list. When the backend cannot be reached or its
  answer is not JSON, the status line says it is unreachable; when it answers with
  another status than \<^verbatim>\<open>success\<close>, the status line has its message; when it answers
  \<^verbatim>\<open>success\<close> with no or an empty list, the download area says that no reports were
  generated. No link is shown in any of these cases.
\<close>

theorem end_click_without_reports:
  "statusText (snd (end_click active d Unreachable p)) = ''Error: Backend is unreachable.'' \<and>
   statusText (snd (end_click active d (Answered status None) p)) =
     ''Error: Backend is unreachable.'' \<and>
   statusText (snd (end_click active d
      (Answered status (Some (JObj [(''status'', JStr ''error''), (''message'', JStr m)]))) p)) =
     ''Error: '' @ m \<and>
   heading (snd (end_click active d
      (Answered status (Some (JObj [(''status'', JStr ''success''), (''reports'', JArr [])]))) p)) =
     ''<h4>No reports generated.</h4><p>Ensure participants were visible for at least 30 seconds.</p>'' \<and>
   links (snd (end_click active d
      (Answered status (Some (JObj [(''status'', JStr ''success'')]))) p)) = [] \<and>
   links (snd (end_click active d Unreachable p)) = [] \<and>
   links (snd (end_click active d (Answered status None) p)) = [] \<and>
   links (snd (end_click active d
      (Answered status (Some (JObj [(''status'', JStr ''error''), (''message'', JStr m)]))) p)) = [] \<and>
   links (snd (end_click active d
      (Answered status (Some (JObj [(''status'', JStr ''success''), (''reports'', JArr [])]))) p)) = [] \<and>
   heading (snd (end_click active d
      (Answered status (Some (JObj [(''status'', JStr ''success'')]))) p)) =
     ''<h4>No reports generated.</h4><p>Ensure participants were visible for at least 30 seconds.</p>''"
  by (simp add: end_click_def unreachable_def on_end_session_def displayDownloadLinks_def
      js_get_opt_def Let_def setStatus_def sendMessageToContentScript_def set_innerHTML_def
      split: option.splits delivery.splits)

section \<open>Answers of the backend that are not a success\<close>

lemma sendMessage_links [simp]:
  "links (snd (sendMessageToContentScript c None active d p)) = links p"
  by (simp add: sendMessageToContentScript_def split: option.splits delivery.splits)

text \<open>
  C39. The end button with any parsed answer whose status is not \<^verbatim>\<open>success\<close>: the status
  line is an error, no link is shown, and the text is the message of the answer, as
  \<^verbatim>\<open>undefined\<close> when it has none. The answer \<^verbatim>\<open>null\<close> makes the read of its status throw
  and is reported as an unreachable backend.
\<close>

theorem end_click_reports_failure:
  assumes "js_get_opt data ''status'' \<noteq> JStr ''success''"
  shows "statusClass (snd (end_click active d (Answered status (Some data)) p)) = ''status-error'' \<and>
         links (snd (end_click active d (Answered status (Some data)) p)) = [] \<and>
         statusText (snd (end_click active d (Answered status (Some data)) p)) =
           (if data = JNull \<or> data = JUndefined then ''Error: Backend is unreachable.''
            else ''Error: '' @ to_str (js_get_opt data ''message''))"
proof (cases "data = JNull \<or> data = JUndefined")
  case True
  then show ?thesis
    by (auto simp: end_click_def on_end_session_def unreachable_def Let_def)
next
  case False
  then have "js_get data ''status'' = ok (js_get_opt data ''status'')"
    by (intro js_get_ok) simp_all
  with assms False show ?thesis
    by (simp add: end_click_def on_end_session_def Let_def)
qed

theorem end_click_reports_failure_witness:
  "statusText (snd (end_click None NoReceiver
      (Answered 500 (Some (JObj [(''status'', JStr ''error'')])))
      \<lparr>statusClass = [], statusText = [], heading = [], links = []\<rparr>)) = ''Error: undefined''"
  using end_click_reports_failure [of "JObj [(''status'', JStr ''error'')]" None NoReceiver 500
      "\<lparr>statusClass = [], statusText = [], heading = [], links = []\<rparr>"]
  by simp

end
