(* ===== verification/Spec2Isabelle.thy ===== *)
theory Spec2Isabelle
  imports Chains Scenarios Naming Background Popup
begin

text \<open>
  A verification development for the attentiveness monitor, a browser extension of three
  scripts. \<^verbatim>\<open>src/content.js\<close> runs inside the meeting page: once a second it samples a
  frame from every participant video, posts each frame to an inference backend, and
  draws the judgment that comes back as a coloured overlay on the video.
  \<^verbatim>\<open>src/popup.js\<close> is the control panel that starts and stops it and lists the reports
  of a session. \<^verbatim>\<open>src/background.js\<close> is a batch variant of the analysis request.

  \<^bold>\<open>How the parts interact.\<close> The panel sends \<^verbatim>\<open>start\<close> and \<^verbatim>\<open>stop\<close> to the content
  script and shows its reply. A cycle of the content script (\<^verbatim>\<open>runAnalysisCycle\<close>)
  discovers the videos, stamps an identity on each new one, samples each through the
  one shared canvas and issues one request per video (\<^verbatim>\<open>captureAndSendFrame\<close>); it then
  waits for all requests (\<^verbatim>\<open>Promise.all\<close>) and sets a timer of one second for the next
  cycle. Each response is handed to \<^verbatim>\<open>updateOverlay\<close>, which finds or creates the
  overlay element and queues the repaint for the next animation frame.

  \<^bold>\<open>The model.\<close> Each script is a shallow embedding: its state is a record, each
  function a definition over that record that keeps the name of the function, each
  exception a value of \<open>js_error\<close>. The state of the content script is built in layers
  by record extension, so that an operation of a lower layer applies to every higher
  one and its lemmas are stated once: \<open>document\<close> (videos, overlay elements, scroll
  offset), \<open>page\<close> (the paint queue), \<open>tab\<close> (canvas, requests in flight, console),
  \<open>world\<close> (the globals \<^verbatim>\<open>isAnalyzing\<close> and \<^verbatim>\<open>analysisTimeoutId\<close>, timers, suspended
  cycles, clock, replies). An \<^verbatim>\<open>async\<close> function is cut at its \<^verbatim>\<open>await\<close>s into the parts
  the event loop runs as separate tasks.

  \<^item> \<open>Prelude\<close>: fact collections, error values, decimal rendering, \<^verbatim>\<open>split\<close>,
    \<^verbatim>\<open>includes\<close>, with round-trip lemmas.
  \<^item> \<open>JsValue\<close>: JSON values, truthiness, property reads, \<^verbatim>\<open>?.\<close>, conversion to string.
  \<^item> \<open>Dom\<close>: the page as \<^verbatim>\<open>content.js\<close> uses it: \<open>query_monitor_id\<close>
    (\<^verbatim>\<open>querySelector\<close>), \<open>getElementById\<close>, \<open>create_overlay\<close>, \<open>remove_overlays\<close>;
    well-formedness \<open>wf_document\<close> and its preservation.
  \<^item> \<open>Identity\<close>: the loop guard \<open>eligible\<close>, the filter \<open>visibleVideos\<close> of
    \<^verbatim>\<open>startAnalysis\<close>, \<open>mint_id\<close>, \<open>ensure_id\<close>, and a pass \<open>discover\<close>; minting can be
    read back, discovery is idempotent and stamps by position.
  \<^item> \<open>Double\<close>: the arithmetic of JavaScript numbers the sampler uses, \<open>double_div\<close>
    (\<^verbatim>\<open>/\<close>), \<open>double_times\<close> (\<^verbatim>\<open>*\<close>) and \<open>to_uint32\<close> (the conversion an assignment to
    \<^verbatim>\<open>canvas.height\<close> applies), in IEEE 754 binary64 with rounding to nearest, ties to
    even (\<open>rne\<close>); a double is its mantissa and exponent as integers. The lemmas bound
    the two rounding errors and relate the integer part of \<^verbatim>\<open>c * (n / d)\<close> to the
    integer quotient of \<open>c * n\<close> by \<open>d\<close>.
  \<^item> \<open>Sampler\<close>: \<open>sample\<close>, the synchronous half of \<^verbatim>\<open>captureAndSendFrame\<close> up to
    \<^verbatim>\<open>toDataURL\<close>, with \<open>scaled_height\<close> computed in doubles as lines 74 to 76 do;
    the size of the frame, how far the height is from the exact ratio, the skip on zero
    width.
  \<^item> \<open>Overlay\<close>: \<open>updateOverlay\<close> (lines 97 to 112), \<open>paint\<close> (the callback, lines 113
    to 132), \<open>run_frame\<close>, \<open>statusColor\<close>, \<open>label_html\<close>; what a judgment looks like
    once painted, the colour of every status, the text of the label.
  \<^item> \<open>Gateway\<close>: \<open>captureAndSendFrame\<close> up to the request and \<open>receive\<close>, the part
    after the response, with every path into the \<^verbatim>\<open>catch\<close>.
  \<^item> \<open>Samples\<close>, \<open>Examples\<close>: concrete videos and responses, and the unfoldings that
    evaluate a run on them.
  \<^item> \<open>Content\<close>: \<open>onMessage\<close> (the listener), \<open>startAnalysis\<close>, \<open>stopAnalysis\<close>,
    \<open>runAnalysisCycle\<close> with its loop \<open>forEach (visit cyc)\<close>, the barrier \<open>await_all\<close>
    and \<open>schedule_next\<close>; the event loop \<open>step\<close> with the events \<open>Message\<close>,
    \<open>Response\<close>, \<open>Timeout\<close>, \<open>Paint\<close>, \<open>Host\<close>, \<open>Tick\<close>; the reachable states
    \<open>reachable_by\<close>, relative to what the environment may do. The loop is shown equal
    to the structural recursion \<open>sweep\<close>, from which the requests of a cycle are read
    off; failure of a request is shown isolated.
  \<^item> \<open>Invariants\<close>: \<open>wf_page\<close> and the handle discipline \<open>sched_inv\<close> (timer, request and
    cycle numbers are fresh and distinct, a suspended cycle has a request in flight) hold
    in every reachable state; overlays stay until \<^verbatim>\<open>stop\<close>.
  \<^item> \<open>Barrier\<close>: the machine of the specification (\<open>spec_step\<close>) and the refinement of
    it by \<open>step\<close>; the invariant \<open>one_chain\<close> (the all-settle barrier) under a calm
    panel; what \<^verbatim>\<open>stop\<close> leaves behind; that a stopped script issues nothing;
    progress (\<open>alive\<close>) on pages that do not taint the canvas.
  \<^item> \<open>Naming\<close>: identities are stable across every event and pairwise different under
    an orderly panel.
  \<^item> \<open>Chains\<close>: the number of chains of cycles is conserved while the script runs on
    a page that does not taint the canvas; \<^verbatim>\<open>stop\<close> and \<^verbatim>\<open>start\<close> during a suspended
    cycle add a chain; a cycle over a video that taints the canvas is the last
    (\<open>stalled\<close>); a page without an eligible video is polled without a request.
  \<^item> \<open>Scenarios\<close>: a judgment from \<^verbatim>\<open>start\<close> to the paint that shows it, for any video
    the script samples; the overlay belongs to the identity the response names; a
    response is drawn also after \<^verbatim>\<open>stop\<close>.
  \<^item> \<open>Background\<close>: \<open>processFrames\<close> with \<open>update_of\<close> and \<open>fallback_name\<close>; the
    outcome of every branch.
  \<^item> \<open>Popup\<close>: the three buttons (\<open>start_click\<close>, \<open>stop_click\<close>, \<open>end_click\<close>),
    \<open>sendMessageToContentScript\<close>, \<open>displayDownloadLinks\<close>.
  \<^item> This theory: the properties that span two scripts.

  \<^bold>\<open>Bounds.\<close> The loops of the scripts run over finite lists and are structural
  recursions, and the chain of cycles is a sequence of events, not a loop of the model.
  A run is a finite list of events; the invariants hold after every finite run. Fuel
  occurs in \<open>Double\<close> only, where the normalisation of a mantissa is a search: 84 steps
  for a quotient of two positive integers below \<open>2 ^ 32\<close>, which lies between
  \<open>2 ^ - 32\<close> and \<open>2 ^ 32\<close> and so needs a shift of at most 84 places to reach 53 bits
  (\<open>shift_left_quotient\<close>), and 32 steps for the product of such a mantissa with an
  integer below \<open>2 ^ 32\<close>. \<^verbatim>\<open>videoWidth\<close> and \<^verbatim>\<open>videoHeight\<close> are \<^verbatim>\<open>unsigned long\<close> in
  the DOM, so these bounds cover every video; in this range no overflow, underflow,
  subnormal number, infinity or NaN arises, and a zero height gives the quotient zero.
  The sampler's theorem asks for a stream less than \<open>2 ^ 23\<close> rows high, which keeps the
  height of the canvas below the modulus \<open>2 ^ 32\<close> of \<^verbatim>\<open>canvas.height\<close>. The other
  numbers of the page (offsets, bounding rectangles, the scroll position) and the
  numbers of JSON are integers, where the browser has doubles. The clock is read once
  per task, where the loop of the cycle reads \<^verbatim>\<open>Date.now()\<close> for each video it stamps. The two \<^verbatim>\<open>await\<close>s of a request (response, then body) are one event, since
  nothing else of the script depends on their separation. The continuation of
  \<^verbatim>\<open>Promise.all\<close> runs in the task of the last response. The host page may reorder,
  change, add and remove videos, but does not write the attribute \<^verbatim>\<open>data-monitor-id\<close>,
  and only videos carry it. An identity is compared with the attribute as a string: the
  selector syntax is not modelled, so an identity of a response that holds a quotation
  mark, a backslash or a line break, which the selector would read as the end of the
  string or as an escape, or reject with an exception, is outside the model; the
  identities the script mints hold none of these. The active tab of the panel has a URL.
  The value \<^verbatim>\<open>true\<close> the listener returns, which keeps the channel of a response open, has
  no counterpart: the replies are recorded when \<^verbatim>\<open>sendResponse\<close> is called.

  \<^bold>\<open>Not modelled.\<close> The inference backend and the report download are outside the
  repository; they occur as the values a request can come back with (\<open>outcome\<close>). The
  pixels of a frame and the JPEG encoding are not represented: an image is the node it
  shows and its size. The constant parts of the style sheets (position, radius,
  transition, the style of the label) and the two \<^verbatim>\<open>console.log\<close> calls have no effect on
  anything the scripts read, and are left out. The registration of the listeners
  (\<^verbatim>\<open>addEventListener\<close>, \<^verbatim>\<open>onMessage.addListener\<close>) is the event loop's dispatch.
\<close>

section \<open>The panel and the content script\<close>

text \<open>
  The objects the listener of the content script passes to \<^verbatim>\<open>sendResponse\<close>, as the
  panel receives them.
\<close>

definition reply_json :: "reply \<Rightarrow> jsval" where
  "reply_json r =
     (case r of
        Succeeded \<Rightarrow> JObj [(''status'', JStr ''success'')]
      | Refused message \<Rightarrow> JObj [(''status'', JStr ''error''), (''message'', JStr message)]
      | Halted \<Rightarrow> JObj [(''status'', JStr ''stopped'')])"

text \<open>
  C35. The start button against the content script. On a Meet tab whose content script
  is in state \<open>w\<close>, the panel sends \<^verbatim>\<open>start\<close>, and what it shows afterwards is what the
  script did: the running status exactly when the script was stopped and saw a video,
  and otherwise the message of the script as an error.
\<close>

theorem panel_shows_what_start_did:
  assumes "includes_str (url t) ''meet.google.com''"
  shows "start_click (Some t) (Delivered (reply_json (fst (startAnalysis w)))) p =
           (Some (tab_id t, ''start''),
            (if isAnalyzing w
             then setStatus ''status-error'' ''Error: Analysis is already running.''
             else if visibleVideos (videos w) = []
             then setStatus ''status-error'' ''Error: No participant videos found.''
             else setStatus ''status-running'' ''Status: Analysis Running...'')
              (set_innerHTML [] p)) \<and>
         (statusClass (snd (start_click (Some t) (Delivered (reply_json (fst (startAnalysis w)))) p)) =
            ''status-running'') = (phase_of w = Stopped \<and> phase_of (snd (startAnalysis w)) = Running)"
  using assms
  by (simp add: start_click_def sendMessage_on_meet on_start_def reply_json_def
      startAnalysis_def js_get_opt_def phase_of_def)

theorem panel_shows_what_start_did_witness:
  "start_click (Some \<lparr>tab_id = 9, url = ''https://meet.google.com/abc-defg-hij''\<rparr>)
     (Delivered (reply_json (fst (startAnalysis (boot [])))))
     \<lparr>statusClass = [], statusText = [], heading = ''old'', links = []\<rparr> =
   (Some (9, ''start''),
    \<lparr>statusClass = ''status-error'', statusText = ''Error: No participant videos found.'',
      heading = [], links = []\<rparr>)"
  using panel_shows_what_start_did
    [of "\<lparr>tab_id = 9, url = ''https://meet.google.com/abc-defg-hij''\<rparr>" "boot []"
        "\<lparr>statusClass = [], statusText = [], heading = ''old'', links = []\<rparr>"]
    includes_str_append [of "''https://''" "''meet.google.com''" "''/abc-defg-hij''"]
  by (simp add: boot_def visibleVideos_def setStatus_def set_innerHTML_def)

section \<open>The batch caller and the content script\<close>

text \<open>
  C34. The updates of the batch caller are never drawn. Every message \<^verbatim>\<open>processFrames\<close>
  sends has the command \<^verbatim>\<open>update_overlays\<close>, and the listener of the content script
  has no branch for it: the state of the tab after the message is the state before, and
  the sender gets no response.
\<close>

theorem batch_updates_are_never_drawn:
  "list_all (\<lambda>m. js_get_opt (snd m) ''command'' = JStr ''update_overlays'')
     (drop (length (outbox s)) (outbox (processFrames frames tabId out s))) \<and>
   step (Message ''update_overlays'') w = Some w"
proof -
  from processFrames_shape [of frames tabId out s]
  have "list_all (\<lambda>m. js_get_opt (snd m) ''command'' = JStr ''update_overlays'')
     (drop (length (outbox s)) (outbox (processFrames frames tabId out s)))"
    by (auto simp: js_get_opt_def split: if_splits)
  then show ?thesis by (simp add: step_def onMessage_def)
qed

end
